(* ===== verification/Msys_Prelude.thy ===== *)
theory Msys_Prelude
  imports
    Main
    "HOL-Library.AList"
    "HOL-Library.Char_ord"
    "HOL-Library.List_Lexorder"
    "HOL-Library.Product_Lexorder"
    "HOL-Library.Sublist"
begin

text \<open>
  The vocabulary every other theory of the development shares.

  \<^item> Results: a Python call that may raise is a value of the sum type, \<open>Inl\<close> the exception.
    \<open>rbind\<close> is sequencing (an exception skips the rest) and \<open>traverse\<close> is a list comprehension
    whose element expression may raise.
  \<^item> Insertion-ordered dictionaries: a Python \<open>dict\<close> is an association list with distinct keys.
    \<open>AList.update\<close> overwrites in place or appends at the end and \<open>AList.delete\<close> removes, which
    is the order a Python \<open>dict\<close> keeps.  The locale \<open>ordered_dict\<close> is that interface.
  \<^item> \<open>dedup\<close> is \<open>dict.fromkeys\<close>: first occurrences, in order.
  \<^item> Strings: a \<open>str\<close> is a list of characters, a character being a code point below 256.
    The character predicates (\<open>isalpha\<close>, \<open>isalnum\<close>, \<open>isdigit\<close>, \<open>isspace\<close>) follow Python on that
    range; strings compare by code point (\<open>List_Lexorder\<close> over \<open>Char_ord\<close>).
\<close>

named_theorems dict_simps \<open>equations of insertion-ordered dictionaries\<close>
named_theorems result_simps \<open>equations of results and their sequencing\<close>

section \<open>Results\<close>

type_synonym ('e, 'a) result = "'e + 'a"

definition rbind :: "('e, 'a) result \<Rightarrow> ('a \<Rightarrow> ('e, 'b) result) \<Rightarrow> ('e, 'b) result" where
  "rbind m f = (case m of Inl e \<Rightarrow> Inl e | Inr x \<Rightarrow> f x)"

fun traverse :: "('a \<Rightarrow> ('e, 'b) result) \<Rightarrow> 'a list \<Rightarrow> ('e, 'b list) result" where
  "traverse f [] = Inr []"
| "traverse f (x # xs) =
     rbind (f x) (\<lambda>y. rbind (traverse f xs) (\<lambda>ys. Inr (y # ys)))"

definition guard :: "bool \<Rightarrow> 'e \<Rightarrow> ('e, unit) result" where
  "guard c e = (if c then Inr () else Inl e)"

definition is_ok :: "('e, 'a) result \<Rightarrow> bool" where
  "is_ok m = (case m of Inl _ \<Rightarrow> False | Inr _ \<Rightarrow> True)"

text \<open>Re-raising an exception of a callee as one of the caller's type.\<close>

definition map_err :: "('e \<Rightarrow> 'f) \<Rightarrow> ('e, 'a) result \<Rightarrow> ('f, 'a) result" where
  "map_err f m = (case m of Inl e \<Rightarrow> Inl (f e) | Inr x \<Rightarrow> Inr x)"

lemma map_err_simps [simp, result_simps]:
  "map_err f (Inl e) = Inl (f e)"
  "map_err f (Inr x) = Inr x"
  by (simp_all add: map_err_def)

lemma map_err_Inr_iff [simp, result_simps]: "map_err f m = Inr x \<longleftrightarrow> m = Inr x"
  by (cases m) auto

lemma map_err_Inl_iff [result_simps]: "map_err f m = Inl e \<longleftrightarrow> (\<exists>d. m = Inl d \<and> e = f d)"
  by (cases m) auto

lemma rbind_simps [simp, result_simps]:
  "rbind (Inl e) f = Inl e"
  "rbind (Inr x) f = f x"
  by (simp_all add: rbind_def)

lemma rbind_Inr_iff [result_simps]:
  "rbind m f = Inr y \<longleftrightarrow> (\<exists>x. m = Inr x \<and> f x = Inr y)"
  by (cases m) auto

lemma rbind_Inl_iff [result_simps]:
  "rbind m f = Inl e \<longleftrightarrow> m = Inl e \<or> (\<exists>x. m = Inr x \<and> f x = Inl e)"
  by (cases m) auto

lemma guard_simps [simp, result_simps]:
  "guard c e = Inr u \<longleftrightarrow> c"
  "guard c e = Inl e' \<longleftrightarrow> \<not> c \<and> e = e'"
  by (auto simp: guard_def)

lemma is_ok_simps [simp]: "is_ok (Inl e) = False" "is_ok (Inr x) = True"
  by (simp_all add: is_ok_def)

lemma is_ok_iff: "is_ok m \<longleftrightarrow> (\<exists>x. m = Inr x)"
  by (cases m) auto

lemma traverse_Inr_iff:
  "traverse f xs = Inr ys \<longleftrightarrow> list_all2 (\<lambda>x y. f x = Inr y) xs ys"
proof (induction xs arbitrary: ys)
  case (Cons x xs)
  then show ?case by (cases ys) (auto simp: result_simps)
qed auto

lemma traverse_length: "traverse f xs = Inr ys \<Longrightarrow> length ys = length xs"
  by (auto simp: traverse_Inr_iff dest: list_all2_lengthD)

lemma traverse_all:
  assumes "traverse f xs = Inr ys" and "\<And>x y. x \<in> set xs \<Longrightarrow> f x = Inr y \<Longrightarrow> P y"
  shows "list_all P ys"
proof -
  have "length xs = length ys" and "\<forall>i < length ys. f (xs ! i) = Inr (ys ! i)"
    using assms(1) by (auto simp: traverse_Inr_iff list_all2_conv_all_nth)
  then show ?thesis using assms(2) by (metis list_all_length nth_mem)
qed

lemma traverse_Inr_map: "traverse (\<lambda>x. Inr (f x)) xs = Inr (map f xs)"
  by (induction xs) auto

lemma traverse_Inl_iff:
  "(\<exists>e. traverse f xs = Inl e) \<longleftrightarrow> (\<exists>x \<in> set xs. \<exists>e. f x = Inl e)"
proof (induction xs)
  case (Cons x xs)
  then show ?case
    by (cases "f x"; cases "traverse f xs") auto
qed auto

lemma traverse_tagged:
  "traverse (\<lambda>x. rbind (f x) (\<lambda>y. Inr (x, y))) xs = Inr ys \<Longrightarrow>
     map fst ys = xs \<and> list_all (\<lambda>(x, y). f x = Inr y) ys"
  by (induction xs arbitrary: ys) (auto simp: result_simps)

lemma traverse_keys:
  assumes "\<And>x y. f x = Inr y \<Longrightarrow> fst y = fst x" and "traverse f xs = Inr ys"
  shows "map fst ys = map fst xs"
  using assms(2) unfolding traverse_Inr_iff
  by (induction xs ys rule: list_all2_induct) (auto dest: assms(1))

text \<open>
  The contract of a parser of the source: it either raises or returns a value that satisfies
  its well-formedness predicate.  A list of parsed values is then well formed throughout.
\<close>

locale checked_parser =
  fixes parse :: "'a \<Rightarrow> ('e, 'b) result"
    and wf :: "'b \<Rightarrow> bool"
  assumes parse_wf: "parse v = Inr x \<Longrightarrow> wf x"
begin

lemma traverse_wf: "traverse parse vs = Inr xs \<Longrightarrow> list_all wf xs"
  by (erule traverse_all) (rule parse_wf)

lemma bind_wf: "rbind (parse v) k = Inr y \<Longrightarrow> \<exists>x. wf x \<and> k x = Inr y"
  by (auto simp: result_simps dest: parse_wf)

end

section \<open>First occurrences\<close>

fun dedup :: "'a list \<Rightarrow> 'a list" where
  "dedup [] = []"
| "dedup (x # xs) = x # filter (\<lambda>y. y \<noteq> x) (dedup xs)"

lemma set_dedup [simp]: "set (dedup xs) = set xs"
  by (induction xs) auto

lemma distinct_dedup [simp]: "distinct (dedup xs)"
  by (induction xs) auto

lemma dedup_distinct: "distinct xs \<Longrightarrow> dedup xs = xs"
  by (induction xs) (auto simp: filter_id_conv)

lemma length_dedup_le: "length (dedup xs) \<le> length xs"
proof (induction xs)
  case (Cons x xs)
  have "length (filter (\<lambda>y. y \<noteq> x) (dedup xs)) \<le> length (dedup xs)"
    by (rule length_filter_le)
  from le_trans [OF this Cons] have "length (filter (\<lambda>y. y \<noteq> x) (dedup xs)) \<le> length xs" .
  then show ?case by simp
qed simp

lemma dedup_eq_Nil [simp]: "dedup xs = [] \<longleftrightarrow> xs = []"
  by (cases xs) auto

lemma hd_dedup: "xs \<noteq> [] \<Longrightarrow> hd (dedup xs) = hd xs"
  by (cases xs) auto

lemma dedup_subseq: "subseq (dedup xs) xs"
proof (induction xs)
  case (Cons x xs)
  have "subseq (filter (\<lambda>y. y \<noteq> x) (dedup xs)) (dedup xs)"
    by (rule subseq_filter_left)
  from subseq_order.trans [OF this Cons] show ?case by simp
qed simp

lemma find_inj:
  "inj_on f (set xs) \<Longrightarrow> q \<in> set xs \<Longrightarrow> find (\<lambda>p. f p = f q) xs = Some q"
  by (induction xs) (auto simp: inj_on_def)

section \<open>Insertion-ordered dictionaries\<close>

type_synonym ('k, 'v) dict = "('k \<times> 'v) list"

abbreviation dict_keys :: "('k, 'v) dict \<Rightarrow> 'k list" where
  "dict_keys d \<equiv> map fst d"

abbreviation dict_values :: "('k, 'v) dict \<Rightarrow> 'v list" where
  "dict_values d \<equiv> map snd d"

definition dict_wf :: "('k, 'v) dict \<Rightarrow> bool" where
  "dict_wf d \<longleftrightarrow> distinct (dict_keys d)"

definition dict_get_or :: "('k, 'v) dict \<Rightarrow> 'k \<Rightarrow> 'v \<Rightarrow> 'v" where
  "dict_get_or d k v = (case map_of d k of None \<Rightarrow> v | Some w \<Rightarrow> w)"

definition dict_has :: "('k, 'v) dict \<Rightarrow> 'k \<Rightarrow> bool" where
  "dict_has d k = (map_of d k \<noteq> None)"

text \<open>\<open>d.update(e)\<close>: every entry of \<open>e\<close> in its order.\<close>

definition dict_update :: "('k, 'v) dict \<Rightarrow> ('k, 'v) dict \<Rightarrow> ('k, 'v) dict" where
  "dict_update d e = fold (\<lambda>(k, v). AList.update k v) e d"

lemma dict_wf_Nil [simp]: "dict_wf []"
  by (simp add: dict_wf_def)

lemma dict_wf_update [simp]: "dict_wf d \<Longrightarrow> dict_wf (AList.update k v d)"
  by (simp add: dict_wf_def distinct_update)

lemma dict_wf_delete [simp]: "dict_wf d \<Longrightarrow> dict_wf (AList.delete k d)"
  by (simp add: dict_wf_def distinct_delete)

lemma dict_wf_filter [simp]: "dict_wf d \<Longrightarrow> dict_wf (filter P d)"
  by (simp add: dict_wf_def distinct_map_filter)

lemma map_of_update [dict_simps]:
  "map_of (AList.update k v d) = (map_of d)(k \<mapsto> v)"
  by (rule update_conv')

lemma map_of_delete [dict_simps]:
  "map_of (AList.delete k d) = (map_of d)(k := None)"
  by (rule delete_conv')

lemma dict_has_iff: "dict_has d k \<longleftrightarrow> k \<in> set (dict_keys d)"
  by (simp add: dict_has_def map_of_eq_None_iff)

lemma dict_wf_map_of: "dict_wf d \<Longrightarrow> (k, v) \<in> set d \<longleftrightarrow> map_of d k = Some v"
  by (simp add: dict_wf_def)

lemma map_of_filter_values:
  assumes "dict_wf d"
  shows "map_of (filter (\<lambda>(_, v). P v) d) k =
    (case map_of d k of Some v \<Rightarrow> if P v then Some v else None | None \<Rightarrow> None)"
proof -
  have iff: "map_of (filter (\<lambda>(_, v). P v) d) k = Some v \<longleftrightarrow> map_of d k = Some v \<and> P v" for v
    using dict_wf_map_of [OF dict_wf_filter [OF assms]] dict_wf_map_of [OF assms]
    by (metis (mono_tags, lifting) case_prod_conv mem_Collect_eq set_filter)
  show ?thesis
  proof (cases "map_of (filter (\<lambda>(_, v). P v) d) k")
    case None
    with iff show ?thesis by (auto split: option.split)
  next
    case (Some v)
    with iff [of v] show ?thesis by simp
  qed
qed

lemma update_fresh: "\<not> dict_has d k \<Longrightarrow> AList.update k v d = d @ [(k, v)]"
  by (induction d) (auto simp: dict_has_iff)

lemma list_all_update:
  "list_all P d \<Longrightarrow> P (k, v) \<Longrightarrow> list_all P (AList.update k v d)"
  by (induction d) auto

lemma update_not_Nil [simp]: "AList.update k v d \<noteq> []"
  by (cases d) auto

lemma map_of_dict_update:
  "map_of (dict_update d e) = map_of d ++ map_of (rev e)"
proof (induction e arbitrary: d)
  case Nil
  then show ?case by (simp add: dict_update_def)
next
  case (Cons kv e)
  obtain k v where [simp]: "kv = (k, v)" by (cases kv)
  have "dict_update d (kv # e) = dict_update (AList.update k v d) e"
    by (simp add: dict_update_def)
  then show ?case
    by (auto simp: Cons.IH dict_simps map_add_def fun_eq_iff split: option.splits)
qed

lemma map_of_rev_wf: "dict_wf e \<Longrightarrow> map_of (rev e) = map_of e"
  unfolding dict_wf_def
  by (metis map_of_eqI[of e "rev e"] distinct_rev rev_map set_rev map_of_inject_set)

lemma dict_wf_dict_update [simp]: "dict_wf d \<Longrightarrow> dict_wf (dict_update d e)"
proof (induction e arbitrary: d)
  case (Cons kv e)
  then show ?case by (cases kv) (simp add: dict_update_def)
qed (simp add: dict_update_def)

lemma list_all_dict_update: "list_all P d \<Longrightarrow> list_all P e \<Longrightarrow> list_all P (dict_update d e)"
proof (induction e arbitrary: d)
  case (Cons kv e)
  then show ?case by (cases kv) (simp add: dict_update_def list_all_update)
qed (simp add: dict_update_def)

text \<open>
  The interface the registries of the source rely on: lookups after a store or a removal, and
  the iteration order, in which a store never moves an existing key.
\<close>

locale ordered_dict =
  fixes empty :: "'d"
    and put :: "'k \<Rightarrow> 'v \<Rightarrow> 'd \<Rightarrow> 'd"
    and del :: "'k \<Rightarrow> 'd \<Rightarrow> 'd"
    and get :: "'d \<Rightarrow> 'k \<Rightarrow> 'v option"
    and keys :: "'d \<Rightarrow> 'k list"
    and inv :: "'d \<Rightarrow> bool"
  assumes get_empty: "get empty = Map.empty"
    and inv_empty: "inv empty"
    and get_put: "inv d \<Longrightarrow> get (put k v d) = (get d)(k \<mapsto> v)"
    and get_del: "inv d \<Longrightarrow> get (del k d) = (get d)(k := None)"
    and inv_put: "inv d \<Longrightarrow> inv (put k v d)"
    and inv_del: "inv d \<Longrightarrow> inv (del k d)"
    and keys_dom: "inv d \<Longrightarrow> set (keys d) = dom (get d)"
    and keys_distinct: "inv d \<Longrightarrow> distinct (keys d)"
    and keys_put: "inv d \<Longrightarrow> keys (put k v d) = (if k \<in> set (keys d) then keys d else keys d @ [k])"
begin

lemma get_put_same: "inv d \<Longrightarrow> get (put k v d) k = Some v"
  by (simp add: get_put)

lemma get_put_other: "inv d \<Longrightarrow> k' \<noteq> k \<Longrightarrow> get (put k v d) k' = get d k'"
  by (simp add: get_put)

lemma put_keeps_order: "inv d \<Longrightarrow> \<exists>ys. keys (put k v d) = keys d @ ys"
  by (simp add: keys_put)

lemma fold_put:
  "inv d \<Longrightarrow> inv (fold (\<lambda>x. put (f x) (g x)) xs d) \<and>
     set (keys (fold (\<lambda>x. put (f x) (g x)) xs d)) = set (keys d) \<union> f ` set xs"
proof (induction xs arbitrary: d)
  case Nil
  then show ?case by simp
next
  case (Cons x xs)
  have "inv (put (f x) (g x) d)" using Cons.prems by (rule inv_put)
  from Cons.IH [OF this] Cons.prems show ?case
    by (auto simp: keys_put)
qed

end

lemma keys_alist_update:
  "dict_keys (AList.update k v d) = (if k \<in> set (dict_keys d) then dict_keys d else dict_keys d @ [k])"
  by (rule update_keys)

interpretation od: ordered_dict "[]" AList.update AList.delete map_of "map fst" dict_wf
  by unfold_locales
    (auto simp: dict_simps dict_wf_def distinct_update distinct_delete dom_map_of_conv_image_fst
      keys_alist_update)

section \<open>Sorting by a key\<close>

lemma sort_key_Nil [simp]: "sort_key f xs = [] \<longleftrightarrow> xs = []"
  by (metis set_empty set_sort)

text \<open>
  The catalogs of the source order providers by descending priority and then by id
  (\<open>key=lambda item: (-item.priority, item.component)\<close>).  The locale states the order once.
\<close>

locale ranked =
  fixes prio :: "'a \<Rightarrow> int"
    and ident :: "'a \<Rightarrow> string"
begin

abbreviation rank :: "'a \<Rightarrow> int \<times> string" where
  "rank x \<equiv> (- prio x, ident x)"

lemma sort_sorted: "sorted (map rank (sort_key rank xs))"
  by (rule sorted_sort_key)

lemma sort_set: "set (sort_key rank xs) = set xs"
  by simp

lemma hd_best:
  assumes "xs \<noteq> []" and "y \<in> set xs"
  shows "prio y \<le> prio (hd (sort_key rank xs))"
proof -
  have "sort_key rank xs \<noteq> []"
    using assms(1) by (metis set_empty sort_set)
  then obtain z zs where s: "sort_key rank xs = z # zs" by (cases "sort_key rank xs") auto
  have "y \<in> set (z # zs)" using assms(2) by (simp flip: s)
  moreover have "sorted (map rank (z # zs))" using sort_sorted [of xs] by (simp add: s)
  ultimately have "rank z \<le> rank y" by (auto simp del: less_eq_prod_simp)
  then show ?thesis by (auto simp: s less_eq_prod_def)
qed

lemma hd_least_ident:
  assumes "xs \<noteq> []" and "y \<in> set xs" and "prio y = prio (hd (sort_key rank xs))"
  shows "ident (hd (sort_key rank xs)) \<le> ident y"
proof -
  have "sort_key rank xs \<noteq> []"
    using assms(1) by (metis set_empty sort_set)
  then obtain z zs where s: "sort_key rank xs = z # zs" by (cases "sort_key rank xs") auto
  have "y \<in> set (z # zs)" using assms(2) by (simp flip: s)
  moreover have "sorted (map rank (z # zs))" using sort_sorted [of xs] by (simp add: s)
  ultimately have "rank z \<le> rank y" by (auto simp del: less_eq_prod_simp)
  then show ?thesis using assms(3) by (auto simp: s less_eq_prod_def)
qed

end

section \<open>Topological orders\<close>

text \<open>A list in which everything comes after what it depends on; two components of the source produce one.\<close>

definition topo :: "('a \<Rightarrow> 'a list) \<Rightarrow> 'a list \<Rightarrow> bool" where
  "topo after xs \<longleftrightarrow> (\<forall>ys x zs. xs = ys @ x # zs \<longrightarrow> set (after x) \<subseteq> set ys)"

lemma topo_snoc: "topo after xs \<Longrightarrow> set (after x) \<subseteq> set xs \<Longrightarrow> topo after (xs @ [x])"
  unfolding topo_def by (auto simp: append_eq_Cons_conv append_eq_append_conv2 Cons_eq_append_conv)

lemma topo_closed: "topo after xs \<Longrightarrow> x \<in> set xs \<Longrightarrow> set (after x) \<subseteq> set xs"
  unfolding topo_def by (metis in_set_conv_decomp UnCI set_append subset_iff)

lemma takeWhile_shorter: "a \<in> set xs \<Longrightarrow> length (takeWhile (\<lambda>y. y \<noteq> a) xs) < length xs"
  by (induction xs) auto

lemma topo_rel_acyclic:
  assumes t: "topo after xs"
  shows "acyclic {(a, x). x \<in> set xs \<and> a \<in> set (after x)}" (is "acyclic ?R")
proof -
  let ?pos = "\<lambda>x. length (takeWhile (\<lambda>y. y \<noteq> x) xs)"
  have "?pos a < ?pos x" if "(a, x) \<in> ?R" for a x
  proof -
    from that have "x \<in> set xs" by simp
    then obtain ys zs where xs: "xs = ys @ x # zs" and nx: "x \<notin> set ys" by (metis split_list_first)
    from t xs have "set (after x) \<subseteq> set ys" unfolding topo_def by blast
    then have "a \<in> set ys" using that by blast
    moreover have "takeWhile (\<lambda>y. y \<noteq> x) (ys @ x # zs) = ys" using nx by (subst takeWhile_append2) auto
    then have "?pos x = length ys" using xs by simp
    moreover have "?pos a < length ys"
      using \<open>a \<in> set ys\<close> unfolding xs by (simp add: takeWhile_append1 takeWhile_shorter)
    ultimately show ?thesis by simp
  qed
  then have "?R \<subseteq> measure ?pos" by auto
  then show ?thesis by (meson wf_acyclic wf_measure wf_subset)
qed

section \<open>Invariants of state machines\<close>

text \<open>
  The contract of a component that keeps state between calls: what holds initially and is kept by
  every operation holds after every sequence of operations.
\<close>

locale invariant_system =
  fixes init :: "'s \<Rightarrow> bool"
    and step :: "'s \<Rightarrow> 's \<Rightarrow> bool"
    and inv :: "'s \<Rightarrow> bool"
  assumes init_inv: "init s \<Longrightarrow> inv s"
    and step_inv: "inv s \<Longrightarrow> step s t \<Longrightarrow> inv t"
begin

lemma steps_inv: "step\<^sup>*\<^sup>* s t \<Longrightarrow> inv s \<Longrightarrow> inv t"
  by (induction rule: rtranclp_induct) (auto intro: step_inv)

lemma reachable_inv: "init s \<Longrightarrow> step\<^sup>*\<^sup>* s t \<Longrightarrow> inv t"
  by (auto intro: steps_inv init_inv)

end

section \<open>Strings\<close>

abbreviation code :: "char \<Rightarrow> nat" where
  "code c \<equiv> of_char c"

definition ch_isascii :: "char \<Rightarrow> bool" where
  "ch_isascii c \<longleftrightarrow> code c < 128"

definition ch_lower :: "char \<Rightarrow> bool" where
  "ch_lower c \<longleftrightarrow> 97 \<le> code c \<and> code c \<le> 122"

definition ch_upper :: "char \<Rightarrow> bool" where
  "ch_upper c \<longleftrightarrow> 65 \<le> code c \<and> code c \<le> 90"

definition ch_digit :: "char \<Rightarrow> bool" where
  "ch_digit c \<longleftrightarrow> 48 \<le> code c \<and> code c \<le> 57"

text \<open>\<open>str.isalpha\<close> of one character: the letters of ASCII and of Latin-1.\<close>

definition ch_isalpha :: "char \<Rightarrow> bool" where
  "ch_isalpha c \<longleftrightarrow> ch_lower c \<or> ch_upper c \<or> code c \<in> {170, 181, 186}
     \<or> (192 \<le> code c \<and> code c \<noteq> 215 \<and> code c \<noteq> 247)"

text \<open>\<open>str.isalnum\<close> of one character: letters, digits, and the Latin-1 superscripts and fractions.\<close>

definition ch_isalnum :: "char \<Rightarrow> bool" where
  "ch_isalnum c \<longleftrightarrow> ch_isalpha c \<or> ch_digit c \<or> code c \<in> {178, 179, 185, 188, 189, 190}"

definition ch_isspace :: "char \<Rightarrow> bool" where
  "ch_isspace c \<longleftrightarrow> (9 \<le> code c \<and> code c \<le> 13) \<or> (28 \<le> code c \<and> code c \<le> 32)
     \<or> code c = 133 \<or> code c = 160"

definition startswith :: "string \<Rightarrow> string \<Rightarrow> bool" where
  "startswith s p \<longleftrightarrow> take (length p) s = p"

definition endswith :: "string \<Rightarrow> string \<Rightarrow> bool" where
  "endswith s p \<longleftrightarrow> length p \<le> length s \<and> drop (length s - length p) s = p"

definition removeprefix :: "string \<Rightarrow> string \<Rightarrow> string" where
  "removeprefix s p = (if startswith s p then drop (length p) s else s)"

definition py_strip :: "string \<Rightarrow> string" where
  "py_strip s = rev (dropWhile ch_isspace (rev (dropWhile ch_isspace s)))"

text \<open>\<open>s.split(c, 1)\<close>: the part before the first \<open>c\<close>, and the part after it when there is one.\<close>

definition split_once :: "char \<Rightarrow> string \<Rightarrow> string \<times> string option" where
  "split_once c s =
     (takeWhile (\<lambda>x. x \<noteq> c) s,
      (case dropWhile (\<lambda>x. x \<noteq> c) s of [] \<Rightarrow> None | _ # r \<Rightarrow> Some r))"

fun py_split :: "char \<Rightarrow> string \<Rightarrow> string list" where
  "py_split c [] = [[]]"
| "py_split c (x # xs) =
     (if x = c then [] # py_split c xs
      else (case py_split c xs of [] \<Rightarrow> [[x]] | w # ws \<Rightarrow> (x # w) # ws))"

fun py_join :: "string \<Rightarrow> string list \<Rightarrow> string" where
  "py_join sep [] = []"
| "py_join sep [x] = x"
| "py_join sep (x # y # ys) = x @ sep @ py_join sep (y # ys)"

lemma startswith_iff_prefix: "startswith s p \<longleftrightarrow> prefix p s"
  unfolding startswith_def
  by (metis append_eq_conv_conj append_take_drop_id prefix_def)

lemma startswith_append [simp]: "startswith (p @ s) p"
  by (simp add: startswith_def)

lemma startswith_Nil [simp]: "startswith s []"
  by (simp add: startswith_def)

lemma startswith_trans: "startswith s p \<Longrightarrow> startswith p q \<Longrightarrow> startswith s q"
  by (auto simp: startswith_iff_prefix intro: prefix_order.trans)

lemma startswithE:
  assumes "startswith s p" obtains r where "s = p @ r"
  using assms by (auto simp: startswith_iff_prefix prefix_def)

lemma endswith_single: "endswith s [c] \<longleftrightarrow> s \<noteq> [] \<and> last s = c"
proof (cases s rule: rev_cases)
  case (snoc ys y)
  then show ?thesis by (simp add: endswith_def)
qed (simp add: endswith_def)

lemma py_split_not_Nil [simp]: "py_split c s \<noteq> []"
  by (induction s) (auto split: list.splits)

lemma py_join_split: "py_join [c] (py_split c s) = s"
proof (induction s)
  case (Cons x xs)
  obtain w ws where w: "py_split c xs = w # ws"
    by (cases "py_split c xs") (auto dest: py_split_not_Nil [THEN notE])
  show ?case
  proof (cases "x = c")
    case True
    with Cons w show ?thesis by simp
  next
    case False
    with Cons w show ?thesis by (cases ws) auto
  qed
qed simp

lemma py_split_none: "c \<notin> set s \<Longrightarrow> py_split c s = [s]"
  by (induction s) auto

lemma py_split_append: "c \<notin> set a \<Longrightarrow> py_split c (a @ c # b) = a # py_split c b"
  by (induction a) auto

lemma py_split_join:
  "xs \<noteq> [] \<Longrightarrow> \<forall>x \<in> set xs. c \<notin> set x \<Longrightarrow> py_split c (py_join [c] xs) = xs"
proof (induction xs)
  case (Cons x xs)
  then show ?case by (cases xs) (simp_all add: py_split_none py_split_append)
qed simp

lemma set_py_join: "set (py_join sep xs) \<subseteq> set sep \<union> (\<Union>x \<in> set xs. set x)"
proof (induction xs)
  case (Cons x xs)
  then show ?case by (cases xs) auto
qed simp

lemma split_once_Some:
  "split_once c s = (a, Some b) \<longleftrightarrow> s = a @ c # b \<and> c \<notin> set a"
proof
  assume "split_once c s = (a, Some b)"
  then have a: "a = takeWhile (\<lambda>x. x \<noteq> c) s" and d: "dropWhile (\<lambda>x. x \<noteq> c) s = c # b"
    by (auto simp: split_once_def split: list.splits dest: hd_dropWhile [rotated])
      (metis (mono_tags, lifting) hd_dropWhile list.sel(1) list.distinct(1))
  have "s = takeWhile (\<lambda>x. x \<noteq> c) s @ dropWhile (\<lambda>x. x \<noteq> c) s" by simp
  with a d show "s = a @ c # b \<and> c \<notin> set a"
    by (metis (mono_tags, lifting) set_takeWhileD)
next
  assume "s = a @ c # b \<and> c \<notin> set a"
  then show "split_once c s = (a, Some b)"
    by (simp add: split_once_def takeWhile_append dropWhile_append)
qed

end
