(* ===== verification/Mipc_Acl.thy ===== *)
theory Mipc_Acl
  imports Msys_Prelude
begin

text \<open>
  The permission language of the private mIPC channel (\<open>msys_core/mipc_acl.py\<close>): event topics,
  subscription patterns (exact, \<open>prefix*\<close> or \<open>*\<close>), the cover test between patterns, and the two
  decisions \<open>allows_call\<close> and \<open>allows_event\<close> over a component's declared permissions.  A
  permission list holds strings only: \<open>load_manifest\<close> applies \<open>str\<close> to every entry.

  The lemmas show that the cover test is exactly set inclusion of the topics two patterns match,
  so no subscription grant can be used to receive a topic it does not match, and that both
  decisions depend on the declared permissions by complete-string equality only.
\<close>

section \<open>Topics and patterns\<close>

definition MAX_TOPIC_LENGTH :: nat where
  "MAX_TOPIC_LENGTH = 128"

definition topic_char :: "char \<Rightarrow> bool" where
  "topic_char c \<longleftrightarrow> ch_isascii c \<and> (ch_isalnum c \<or> c \<in> set ''._:-'')"

definition valid_event_topic :: "string \<Rightarrow> bool" where
  "valid_event_topic topic =
     (if \<not> (1 \<le> length topic \<and> length topic \<le> MAX_TOPIC_LENGTH) then False
      else if \<not> ch_isalnum (topic ! 0) \<or> \<not> ch_isascii (topic ! 0) then False
      else list_all topic_char topic)"

definition valid_subscription :: "string \<Rightarrow> bool" where
  "valid_subscription pat =
     (if pat = ''*'' then True
      else if \<not> (1 \<le> length pat \<and> length pat \<le> MAX_TOPIC_LENGTH) then False
      else if endswith pat ''*'' then butlast pat \<noteq> [] \<and> valid_event_topic (butlast pat)
      else valid_event_topic pat)"

definition subscription_matches :: "string \<Rightarrow> string \<Rightarrow> bool" where
  "subscription_matches pat topic =
     (if pat = ''*'' then True
      else if endswith pat ''*'' then startswith topic (butlast pat)
      else pat = topic)"

definition subscription_covers :: "string \<Rightarrow> string \<Rightarrow> bool" where
  "subscription_covers g requested =
     (if \<not> valid_subscription g \<or> \<not> valid_subscription requested then False
      else if g = ''*'' then True
      else if \<not> endswith g ''*'' then g = requested
      else
        let grant_prefix = butlast g;
            requested_prefix = (if endswith requested ''*'' then butlast requested else requested)
        in startswith requested_prefix grant_prefix)"

section \<open>Permissions\<close>

definition call_permission_candidates :: "string \<Rightarrow> string \<Rightarrow> string list" where
  "call_permission_candidates target meth =
     (let own = (if meth \<noteq> [] then [target @ ''.'' @ meth] else []) @ [target];
          extra =
            (if startswith target ''interface:'' then
               (case snd (split_once CHR '':'' target) of
                  None \<Rightarrow> []
                | Some interface \<Rightarrow>
                    if interface \<noteq> [] then
                      (if meth \<noteq> [] then [interface @ ''.'' @ meth] else []) @ [interface]
                    else [])
             else [])
      in map (\<lambda>r. ''mipc.call:'' @ r) (dedup (own @ extra)))"

definition allows_call :: "string list \<Rightarrow> string \<Rightarrow> string \<Rightarrow> bool" where
  "allows_call permissions target meth =
     (if ''mipc.call:*'' \<in> set permissions then True
      else list_ex (\<lambda>p. p \<in> set permissions) (call_permission_candidates target meth))"

definition event_permission :: "string \<Rightarrow> string \<Rightarrow> string" where
  "event_permission act pat = ''mipc.event:'' @ act @ '':'' @ pat"

definition allows_event :: "string list \<Rightarrow> string \<Rightarrow> string \<Rightarrow> bool" where
  "allows_event permissions act requested =
     (if act \<notin> {''publish'', ''subscribe''} then False
      else if act = ''publish'' \<and> \<not> valid_event_topic requested then False
      else if act = ''subscribe'' \<and> \<not> valid_subscription requested then False
      else
        let pre = ''mipc.event:'' @ act @ '':''
        in list_ex (\<lambda>p. startswith p pre \<and> subscription_covers (drop (length pre) p) requested)
             permissions)"

section \<open>Topics and patterns: lemmas\<close>

lemma star_not_topic_char [simp]: "\<not> topic_char CHR ''*''"
  by (simp add: topic_char_def ch_isalnum_def ch_isalpha_def ch_lower_def ch_upper_def ch_digit_def)

lemma valid_event_topic_iff:
  "valid_event_topic t \<longleftrightarrow>
     t \<noteq> [] \<and> length t \<le> MAX_TOPIC_LENGTH \<and> ch_isalnum (hd t) \<and> list_all topic_char t"
  by (cases t) (auto simp: valid_event_topic_def topic_char_def)

lemma valid_topic_no_star: "valid_event_topic t \<Longrightarrow> CHR ''*'' \<notin> set t"
  by (auto simp: valid_event_topic_iff list_all_iff)

lemma endswith_star_iff: "endswith p ''*'' \<longleftrightarrow> (\<exists>q. p = q @ ''*'')"
  by (auto simp: endswith_single intro: exI [of _ "butlast p"]) (metis append_butlast_last_id)

lemma valid_topic_not_endswith: "valid_event_topic t \<Longrightarrow> \<not> endswith t ''*''"
  by (auto simp: endswith_star_iff dest: valid_topic_no_star)

lemma matches_star [simp]: "subscription_matches ''*'' t"
  by (simp add: subscription_matches_def)

lemma matches_prefix: "q \<noteq> [] \<Longrightarrow> subscription_matches (q @ ''*'') t \<longleftrightarrow> startswith t q"
  by (auto simp: subscription_matches_def endswith_single)

lemma matches_exact: "\<not> endswith p ''*'' \<Longrightarrow> subscription_matches p t \<longleftrightarrow> p = t"
  by (auto simp: subscription_matches_def endswith_single)

lemma covers_prefix:
  "q \<noteq> [] \<Longrightarrow> valid_subscription (q @ ''*'') \<Longrightarrow> valid_subscription r \<Longrightarrow>
     subscription_covers (q @ ''*'') r \<longleftrightarrow>
       startswith (if endswith r ''*'' then butlast r else r) q"
  by (auto simp: subscription_covers_def endswith_single Let_def)

text \<open>A valid pattern is the global one, a topic followed by a star, or a topic.\<close>

lemma valid_subscription_cases:
  assumes "valid_subscription p"
  obtains (all) "p = ''*''"
    | (pre) q where "p = q @ ''*''" "q \<noteq> []" "valid_event_topic q" "length q < MAX_TOPIC_LENGTH"
    | (exact) "valid_event_topic p" "\<not> endswith p ''*''"
proof (cases "p = ''*''")
  case True
  then show ?thesis by (rule all)
next
  case False
  show ?thesis
  proof (cases "endswith p ''*''")
    case True
    then obtain q where q: "p = q @ ''*''" by (auto simp: endswith_star_iff)
    with assms False True have "q \<noteq> []" "valid_event_topic q" "length q < MAX_TOPIC_LENGTH"
      by (auto simp: valid_subscription_def split: if_splits)
    with q show ?thesis by (rule pre)
  next
    case f: False
    with assms False have "valid_event_topic p"
      by (auto simp: valid_subscription_def split: if_splits)
    then show ?thesis using f by (rule exact)
  qed
qed

text \<open>Every valid pattern matches a concrete topic.\<close>

lemma alnum_topic: "ch_isalnum c \<Longrightarrow> ch_isascii c \<Longrightarrow> valid_event_topic [c]"
  by (simp add: valid_event_topic_iff topic_char_def MAX_TOPIC_LENGTH_def)

lemma topic_snoc_a:
  "valid_event_topic q \<Longrightarrow> length q < MAX_TOPIC_LENGTH \<Longrightarrow> valid_event_topic (q @ ''a'')"
  by (auto simp: valid_event_topic_iff topic_char_def ch_isalnum_def ch_isalpha_def ch_lower_def
      ch_isascii_def hd_append)

lemma a_topic: "valid_event_topic ''a''" and b_topic: "valid_event_topic ''b''"
  by (simp_all add: alnum_topic ch_isalnum_def ch_isalpha_def ch_lower_def ch_isascii_def)

text \<open>
  A topic that separates a pattern from a grant that does not cover it: the requested prefix
  itself, that prefix and one more character, or one of two one-character topics.
\<close>

lemma not_covered_separated:
  assumes g: "valid_subscription g" and r: "valid_subscription r"
    and nc: "\<not> subscription_covers g r"
  shows "\<exists>t. valid_event_topic t \<and> subscription_matches r t \<and> \<not> subscription_matches g t"
  using g
proof (cases rule: valid_subscription_cases)
  case all
  with nc g r show ?thesis by (simp add: subscription_covers_def)
next
  case (pre q)
  from r show ?thesis
  proof (cases rule: valid_subscription_cases)
    case all
    define c where "c = (if hd q = CHR ''a'' then CHR ''b'' else CHR ''a'')"
    have "valid_event_topic [c]" using a_topic b_topic by (simp add: c_def)
    moreover have "c \<noteq> hd q" by (simp add: c_def)
    then have "\<not> startswith [c] q" using pre(2) by (cases q) (auto simp: startswith_iff_prefix)
    ultimately have "valid_event_topic [c]" "\<not> startswith [c] q" by simp_all
    with all pre show ?thesis by (intro exI [of _ "[c]"]) (simp add: matches_prefix)
  next
    case r': (pre p)
    have "\<not> startswith p q"
      using nc covers_prefix [of q r] g r pre r'
      by (auto simp: endswith_single split: if_splits)
    with r' pre show ?thesis by (intro exI [of _ p]) (simp add: matches_prefix startswith_def)
  next
    case exact
    have "\<not> startswith r q"
      using nc covers_prefix [of q r] g r pre exact by auto
    with exact pre show ?thesis by (intro exI [of _ r]) (simp add: matches_prefix matches_exact)
  qed
next
  case g': exact
  have ne: "g \<noteq> r"
  proof
    assume "g = r"
    moreover have "\<not> endswith g ''*''" using g' by (simp add: endswith_single)
    ultimately show False using nc g r by (simp add: subscription_covers_def split: if_splits)
  qed
  from r show ?thesis
  proof (cases rule: valid_subscription_cases)
    case all
    obtain t where "t \<noteq> g" "valid_event_topic t"
      using a_topic b_topic that [of "''a''"] that [of "''b''"] by (cases "g = ''a''") auto
    with all g' show ?thesis by (intro exI [of _ t]) (simp add: matches_exact)
  next
    case r': (pre p)
    show ?thesis
    proof (cases "g = p")
      case True
      with r' g' topic_snoc_a show ?thesis
        by (intro exI [of _ "p @ ''a''"]) (simp add: matches_prefix matches_exact)
    next
      case False
      with r' g' show ?thesis
        by (intro exI [of _ p]) (simp add: matches_prefix matches_exact startswith_def)
    qed
  next
    case exact
    with ne g' show ?thesis by (intro exI [of _ r]) (simp add: matches_exact)
  qed
qed

lemma covers_matches:
  assumes c: "subscription_covers g r" and m: "subscription_matches r t"
  shows "subscription_matches g t"
proof -
  from c have g: "valid_subscription g" and r: "valid_subscription r"
    by (auto simp: subscription_covers_def split: if_splits)
  from g show ?thesis
  proof (cases rule: valid_subscription_cases)
    case (pre q)
    with c covers_prefix [of q r] g r
    have s: "startswith (if endswith r ''*'' then butlast r else r) q" by simp
    from r show ?thesis
    proof (cases rule: valid_subscription_cases)
      case all
      with s pre show ?thesis by (simp add: startswith_def endswith_single)
    next
      case r': (pre p)
      with s m have "startswith p q" "startswith t p" by (auto simp: matches_prefix endswith_single)
      with pre show ?thesis by (auto simp: matches_prefix intro: startswith_trans)
    next
      case exact
      with s m pre show ?thesis by (auto simp: matches_prefix matches_exact)
    qed
  next
    case exact
    with c m g r show ?thesis by (auto simp: subscription_covers_def endswith_single split: if_splits)
  qed simp
qed

text \<open>
  C3. For two valid subscription patterns, the grant covers the request exactly when every
  concrete topic the request matches is matched by the grant.
\<close>

theorem subscription_covers_iff_inclusion:
  assumes "valid_subscription g" and "valid_subscription r"
  shows "subscription_covers g r \<longleftrightarrow>
     {t. valid_event_topic t \<and> subscription_matches r t} \<subseteq> {t. subscription_matches g t}"
  using not_covered_separated [OF assms] covers_matches by blast

theorem subscription_covers_iff_inclusion_witness:
  "subscription_covers ''msys.hal.*'' ''msys.hal.changed'' \<longleftrightarrow>
     {t. valid_event_topic t \<and> subscription_matches ''msys.hal.changed'' t}
       \<subseteq> {t. subscription_matches ''msys.hal.*'' t}"
proof (rule subscription_covers_iff_inclusion)
  show "valid_subscription ''msys.hal.*''" by code_simp
  show "valid_subscription ''msys.hal.changed''" by code_simp
qed

text \<open>Covering is a preorder on valid patterns, so grants can be compared and chained.\<close>

lemma subscription_covers_refl: "valid_subscription p \<Longrightarrow> subscription_covers p p"
  using not_covered_separated [of p p] by blast

lemma subscription_covers_valid:
  "subscription_covers g r \<Longrightarrow> valid_subscription g \<and> valid_subscription r"
  by (auto simp: subscription_covers_def split: if_splits)

lemma subscription_covers_trans:
  "subscription_covers f g \<Longrightarrow> subscription_covers g r \<Longrightarrow> subscription_covers f r"
  using not_covered_separated [of f r] covers_matches subscription_covers_valid by blast

section \<open>Permissions: lemmas\<close>

lemma event_permission_drop:
  "startswith p (''mipc.event:'' @ act @ '':'') \<Longrightarrow>
     event_permission act (drop (length (''mipc.event:'' @ act @ '':'')) p) = p"
  by (erule startswithE) (simp add: event_permission_def)

lemma allows_event_grant:
  "allows_event perms act r \<longleftrightarrow>
     (act = ''publish'' \<and> valid_event_topic r \<or> act = ''subscribe'' \<and> valid_subscription r) \<and>
     (\<exists>g. event_permission act g \<in> set perms \<and> subscription_covers g r)"
    (is "?L \<longleftrightarrow> ?V \<and> ?G")
proof -
  let ?pre = "''mipc.event:'' @ act @ '':''"
  have "list_ex (\<lambda>p. startswith p ?pre \<and> subscription_covers (drop (length ?pre) p) r) perms \<longleftrightarrow> ?G"
  proof
    assume "list_ex (\<lambda>p. startswith p ?pre \<and> subscription_covers (drop (length ?pre) p) r) perms"
    then obtain p where "p \<in> set perms" "startswith p ?pre" "subscription_covers (drop (length ?pre) p) r"
      by (auto simp: list_ex_iff)
    then show ?G by (metis event_permission_drop)
  next
    assume ?G
    then obtain g where "event_permission act g \<in> set perms" "subscription_covers g r" by blast
    moreover have "startswith (event_permission act g) ?pre"
      "drop (length ?pre) (event_permission act g) = g"
      by (simp_all add: event_permission_def startswith_def)
    ultimately show "list_ex (\<lambda>p. startswith p ?pre \<and> subscription_covers (drop (length ?pre) p) r) perms"
      unfolding list_ex_iff by metis
  qed
  then show ?thesis unfolding allows_event_def Let_def by auto
qed

lemma valid_topic_subscription: "valid_event_topic t \<Longrightarrow> valid_subscription t"
  using valid_topic_not_endswith [of t]
  by (auto simp: valid_subscription_def valid_event_topic_iff Suc_le_eq)

text \<open>
  A publish or subscribe request is authorised exactly when it is well formed and one
  declared event permission of that action matches every topic the request stands for.
\<close>

lemma allows_event_iff:
  "allows_event perms act r \<longleftrightarrow>
     (act = ''publish'' \<and> valid_event_topic r \<or> act = ''subscribe'' \<and> valid_subscription r) \<and>
     (\<exists>g. valid_subscription g \<and> event_permission act g \<in> set perms \<and>
        {t. valid_event_topic t \<and> subscription_matches r t} \<subseteq> {t. subscription_matches g t})"
    (is "?L \<longleftrightarrow> ?V \<and> ?G")
proof (cases ?V)
  case True
  then have r: "valid_subscription r" by (auto intro: valid_topic_subscription)
  have "(\<exists>g. event_permission act g \<in> set perms \<and> subscription_covers g r) \<longleftrightarrow> ?G"
    using not_covered_separated [OF _ r] covers_matches subscription_covers_valid by blast
  with True show ?thesis by (simp add: allows_event_grant)
qed (auto simp: allows_event_grant)

lemma split_once_interface:
  "startswith target ''interface:'' \<Longrightarrow>
     snd (split_once CHR '':'' target) = Some (drop 10 target)"
  by (erule startswithE) (simp add: split_once_def)

text \<open>
  A call is authorised exactly by the global permission, a permission that spells the
  target or target and method in full, or, for an interface target, one that spells the
  interface name (with or without the method): no other declared string grants it.
\<close>

lemma allows_call_iff:
  "allows_call perms target meth \<longleftrightarrow>
     ''mipc.call:*'' \<in> set perms \<or>
     (\<exists>resource. (resource = target \<or> target = ''interface:'' @ resource \<and> resource \<noteq> []) \<and>
        (''mipc.call:'' @ resource \<in> set perms \<or>
         meth \<noteq> [] \<and> ''mipc.call:'' @ resource @ ''.'' @ meth \<in> set perms))"
proof (cases "startswith target ''interface:''")
  case True
  then obtain i where i: "target = ''interface:'' @ i" by (rule startswithE)
  then have "snd (split_once CHR '':'' target) = Some i"
    using split_once_interface [OF True] by simp
  then show ?thesis
    using True unfolding allows_call_def call_permission_candidates_def Let_def
    by (auto simp: i list_ex_iff)
next
  case False
  then have "\<And>i. target \<noteq> ''interface:'' @ i" by (metis startswith_append)
  then show ?thesis
    using False unfolding allows_call_def call_permission_candidates_def Let_def
    by (auto simp: list_ex_iff)
qed

text \<open>The first candidate is the narrowest one, which a denial reports as required.\<close>

lemma call_permission_candidates_hd:
  "hd (call_permission_candidates target meth) =
     ''mipc.call:'' @ (if meth \<noteq> [] then target @ ''.'' @ meth else target)"
  unfolding call_permission_candidates_def Let_def
  by (subst hd_map) (simp_all add: hd_dedup hd_append)

end
