(* ===== verification/Py_Json.thy ===== *)
theory Py_Json
  imports Complex_Main Msys_Prelude
begin

text \<open>
  The Python values that \<open>json.loads\<close> produces, and the built-in conversions \<open>str\<close>, \<open>int\<close>,
  \<open>bool\<close> and \<open>repr\<close> the source applies to them.  A JSON object is an insertion-ordered
  dictionary with string keys.  A finite float is carried as its rational value together with
  its \<open>repr\<close> text (which Python determines from the value).  \<open>JOther\<close> stands for a Python value of
  any other type, named by its type: validators that may be called without JSON reject it.
\<close>

section \<open>Values\<close>

datatype pfloat = PFin rat string | PInf bool | PNan

datatype json =
    JNull
  | JBool bool
  | JInt int
  | JFloat pfloat
  | JStr string
  | JList "json list"
  | JObj "(string \<times> json) list"
  | JOther string

type_synonym jobj = "(string, json) dict"

definition pf_isfinite :: "pfloat \<Rightarrow> bool" where
  "pf_isfinite f = (case f of PFin _ _ \<Rightarrow> True | _ \<Rightarrow> False)"

definition is_str :: "json \<Rightarrow> bool" where
  "is_str v = (case v of JStr _ \<Rightarrow> True | _ \<Rightarrow> False)"

lemma is_str_iff: "is_str v \<longleftrightarrow> (\<exists>s. v = JStr s)"
  by (cases v) (auto simp: is_str_def)

lemma size_json_dict: "(k, v) \<in> set d \<Longrightarrow> size v < Suc (size_list (size_prod (\<lambda>_. 0) size) d)"
  by (induction d) auto

section \<open>Truth values\<close>

definition py_bool :: "json \<Rightarrow> bool" where
  "py_bool v = (case v of
       JNull \<Rightarrow> False
     | JBool b \<Rightarrow> b
     | JInt i \<Rightarrow> i \<noteq> 0
     | JFloat f \<Rightarrow> (case f of PFin q _ \<Rightarrow> q \<noteq> 0 | _ \<Rightarrow> True)
     | JStr s \<Rightarrow> s \<noteq> []
     | JList xs \<Rightarrow> xs \<noteq> []
     | JObj d \<Rightarrow> d \<noteq> []
     | JOther _ \<Rightarrow> True)"

section \<open>Text\<close>

definition digit_char :: "nat \<Rightarrow> char" where
  "digit_char n = char_of (48 + n mod 10)"

fun nat_str :: "nat \<Rightarrow> string" where
  "nat_str n = (if n < 10 then [digit_char n] else nat_str (n div 10) @ [digit_char (n mod 10)])"

declare nat_str.simps [simp del]

definition int_str :: "int \<Rightarrow> string" where
  "int_str i = (if i < 0 then CHR ''-'' # nat_str (nat (- i)) else nat_str (nat i))"

definition hex_digit :: "nat \<Rightarrow> char" where
  "hex_digit n = (if n < 10 then char_of (48 + n) else char_of (87 + n))"

definition ch_isprintable :: "char \<Rightarrow> bool" where
  "ch_isprintable c \<longleftrightarrow> (32 \<le> code c \<and> code c \<le> 126) \<or> (161 \<le> code c \<and> code c \<noteq> 173)"

text \<open>\<open>repr\<close> of a string: single quotes unless only a single quote occurs inside.\<close>

definition repr_quote :: "string \<Rightarrow> char" where
  "repr_quote s =
     (if char_of (39::nat) \<in> set s \<and> char_of (34::nat) \<notin> set s then char_of (34::nat)
      else char_of (39::nat))"

definition repr_char :: "char \<Rightarrow> char \<Rightarrow> string" where
  "repr_char q c =
     (if c = q \<or> code c = 92 then [char_of (92::nat), c]
      else if code c = 9 then [char_of (92::nat), CHR ''t'']
      else if code c = 10 then [char_of (92::nat), CHR ''n'']
      else if code c = 13 then [char_of (92::nat), CHR ''r'']
      else if ch_isprintable c then [c]
      else [char_of (92::nat), CHR ''x'', hex_digit (code c div 16), hex_digit (code c mod 16)])"

definition repr_string :: "string \<Rightarrow> string" where
  "repr_string s = (let q = repr_quote s in q # concat (map (repr_char q) s) @ [q])"

function py_repr :: "json \<Rightarrow> string" where
  "py_repr JNull = ''None''"
| "py_repr (JBool b) = (if b then ''True'' else ''False'')"
| "py_repr (JInt i) = int_str i"
| "py_repr (JFloat f) =
     (case f of PFin _ t \<Rightarrow> t | PInf neg \<Rightarrow> (if neg then ''-inf'' else ''inf'') | PNan \<Rightarrow> ''nan'')"
| "py_repr (JStr s) = repr_string s"
| "py_repr (JList xs) = ''['' @ py_join '', '' (map py_repr xs) @ '']''"
| "py_repr (JObj d) =
     CHR 0x7B # py_join '', '' (map (\<lambda>(k, v). repr_string k @ '': '' @ py_repr v) d) @ [CHR 0x7D]"
| "py_repr (JOther t) = t"
  by pat_completeness auto
termination
  by (relation "measure size") (auto intro: size_json_dict simp: less_Suc_eq_le size_list_estimation')

definition py_str :: "json \<Rightarrow> string" where
  "py_str v = (case v of JStr s \<Rightarrow> s | _ \<Rightarrow> py_repr v)"

lemma py_str_JStr [simp]: "py_str (JStr s) = s"
  by (simp add: py_str_def)

section \<open>Integers\<close>

datatype conv_error = ConvTypeError | ConvValueError | ConvOverflowError

text \<open>The digits of an integer literal: underscores may stand between digits only.\<close>

fun digits_value :: "bool \<Rightarrow> nat \<Rightarrow> string \<Rightarrow> nat option" where
  "digits_value prev acc [] = (if prev then Some acc else None)"
| "digits_value prev acc (c # s) =
     (if ch_digit c then digits_value True (10 * acc + (code c - 48)) s
      else if c = CHR ''_'' \<and> prev then digits_value False acc s
      else None)"

definition parse_int :: "string \<Rightarrow> int option" where
  "parse_int s = (case py_strip s of
       [] \<Rightarrow> None
     | c # r \<Rightarrow>
         (if c = CHR ''-'' then map_option (\<lambda>n. - int n) (digits_value False 0 r)
          else if c = CHR ''+'' then map_option int (digits_value False 0 r)
          else map_option int (digits_value False 0 (c # r))))"

text \<open>\<open>int(x)\<close>: rounds a finite float towards zero, parses a string.\<close>

definition py_int :: "json \<Rightarrow> (conv_error, int) result" where
  "py_int v = (case v of
       JBool b \<Rightarrow> Inr (if b then 1 else 0)
     | JInt i \<Rightarrow> Inr i
     | JFloat f \<Rightarrow> (case f of
           PFin q _ \<Rightarrow> Inr (if q < 0 then - \<lfloor>- q\<rfloor> else \<lfloor>q\<rfloor>)
         | PInf _ \<Rightarrow> Inl ConvOverflowError
         | PNan \<Rightarrow> Inl ConvValueError)
     | JStr s \<Rightarrow> (case parse_int s of Some i \<Rightarrow> Inr i | None \<Rightarrow> Inl ConvValueError)
     | _ \<Rightarrow> Inl ConvTypeError)"

lemma py_int_JInt [simp]: "py_int (JInt i) = Inr i"
  by (simp add: py_int_def)

subsection \<open>Decimal text round trip\<close>

lemma code_digit_char: "code (digit_char n) = 48 + n mod 10"
  by (simp add: digit_char_def)

lemma ch_digit_digit_char [simp]: "ch_digit (digit_char n)"
  by (simp add: ch_digit_def code_digit_char)

lemma digits_value_nat_str:
  "digits_value prev acc (nat_str n @ s) =
     digits_value True (acc * 10 ^ length (nat_str n) + n) s"
proof (induction n arbitrary: prev acc s rule: nat_str.induct)
  case (1 n)
  show ?case
  proof (cases "n < 10")
    case True
    then show ?thesis
      by (simp add: nat_str.simps [of n] code_digit_char algebra_simps)
  next
    case False
    with 1 have "digits_value prev acc (nat_str (n div 10) @ digit_char (n mod 10) # s) =
        digits_value True (acc * 10 ^ length (nat_str (n div 10)) + n div 10) (digit_char (n mod 10) # s)"
      by simp
    also have "\<dots> = digits_value True (10 * (acc * 10 ^ length (nat_str (n div 10)) + n div 10) + n mod 10) s"
      by (simp add: code_digit_char)
    also have "10 * (acc * 10 ^ length (nat_str (n div 10)) + n div 10) + n mod 10 =
        acc * 10 ^ length (nat_str n) + n"
      using False by (simp add: nat_str.simps [of n] algebra_simps)
    finally show ?thesis using False by (simp add: nat_str.simps [of n])
  qed
qed

lemma nat_str_not_Nil [simp]: "nat_str n \<noteq> []"
  by (simp add: nat_str.simps [of n])

lemma nat_str_digits: "list_all ch_digit (nat_str n)"
proof (induction n rule: nat_str.induct)
  case (1 n)
  then show ?case by (cases "n < 10") (simp_all add: nat_str.simps [of n])
qed

lemma py_strip_no_space: "\<forall>c \<in> set s. \<not> ch_isspace c \<Longrightarrow> py_strip s = s"
  by (simp add: py_strip_def dropWhile_eq_self_iff)
    (metis dropWhile_eq_self_iff list.set_sel(1) rev_is_Nil_conv rev_rev_ident set_rev)

lemma ch_digit_not_space: "ch_digit c \<Longrightarrow> \<not> ch_isspace c"
  by (auto simp: ch_digit_def ch_isspace_def)

lemma parse_int_int_str: "parse_int (int_str i) = Some i"
proof (cases "i < 0")
  case True
  let ?s = "CHR ''-'' # nat_str (nat (- i))"
  have "\<not> ch_isspace CHR ''-''" by (simp add: ch_isspace_def)
  then have "\<forall>c \<in> set ?s. \<not> ch_isspace c"
    using nat_str_digits [of "nat (- i)"] by (auto simp: list_all_iff ch_digit_not_space)
  then have "py_strip ?s = ?s" by (rule py_strip_no_space)
  then show ?thesis
    using True digits_value_nat_str [of False 0 "nat (- i)" "[]"]
    by (simp add: parse_int_def int_str_def)
next
  case False
  have sp: "\<forall>c \<in> set (nat_str (nat i)). \<not> ch_isspace c"
    using nat_str_digits [of "nat i"] by (auto simp: list_all_iff ch_digit_not_space)
  obtain c r where s: "nat_str (nat i) = c # r" by (cases "nat_str (nat i)") auto
  have "ch_digit c" using nat_str_digits [of "nat i"] by (simp add: s)
  then have "c \<noteq> CHR ''-''" "c \<noteq> CHR ''+''" by (auto simp: ch_digit_def)
  then show ?thesis
    using False py_strip_no_space [OF sp] digits_value_nat_str [of False 0 "nat i" "[]"]
    by (simp add: parse_int_def int_str_def s)
qed

section \<open>Objects\<close>

definition jget :: "jobj \<Rightarrow> string \<Rightarrow> json option" where
  "jget d k = map_of d k"

definition jget_or :: "jobj \<Rightarrow> string \<Rightarrow> json \<Rightarrow> json" where
  "jget_or d k v = (case map_of d k of None \<Rightarrow> v | Some w \<Rightarrow> w)"

text \<open>\<open>d.get(k)\<close>, which is \<open>None\<close> for a missing key.\<close>

definition jget_null :: "jobj \<Rightarrow> string \<Rightarrow> json" where
  "jget_null d k = jget_or d k JNull"

section \<open>Operations on values of unchecked type\<close>

text \<open>
  What the source does to a JSON value without first checking its type, with the exception Python
  raises when the type does not fit.  \<open>OutsideModel\<close> marks the one result the value type cannot
  express: a dictionary built from pairs whose keys are not strings.
\<close>

datatype py_error =
    KeyError string
  | TypeError
  | ValueError string
  | AttributeError
  | OverflowError
  | OutsideModel

definition conv_err :: "conv_error \<Rightarrow> py_error" where
  "conv_err e = (case e of
       ConvTypeError \<Rightarrow> TypeError
     | ConvValueError \<Rightarrow> ValueError ''invalid literal for int()''
     | ConvOverflowError \<Rightarrow> OverflowError)"

text \<open>\<open>v.get(k, default)\<close>, \<open>v[k]\<close>, \<open>k in v\<close> for a string \<open>k\<close>.\<close>

definition py_get :: "json \<Rightarrow> string \<Rightarrow> json \<Rightarrow> (py_error, json) result" where
  "py_get v k dflt = (case v of JObj d \<Rightarrow> Inr (jget_or d k dflt) | _ \<Rightarrow> Inl AttributeError)"

definition py_index :: "json \<Rightarrow> string \<Rightarrow> (py_error, json) result" where
  "py_index v k = (case v of
       JObj d \<Rightarrow> (case map_of d k of Some w \<Rightarrow> Inr w | None \<Rightarrow> Inl (KeyError k))
     | _ \<Rightarrow> Inl TypeError)"

definition py_in :: "string \<Rightarrow> json \<Rightarrow> (py_error, bool) result" where
  "py_in k v = (case v of
       JObj d \<Rightarrow> Inr (dict_has d k)
     | JList xs \<Rightarrow> Inr (JStr k \<in> set xs)
     | JStr s \<Rightarrow> Inr (sublist k s)
     | _ \<Rightarrow> Inl TypeError)"

text \<open>Iteration, \<open>v.items()\<close> and \<open>dict(v)\<close>.\<close>

definition py_iter :: "json \<Rightarrow> (py_error, json list) result" where
  "py_iter v = (case v of
       JList xs \<Rightarrow> Inr xs
     | JObj d \<Rightarrow> Inr (map JStr (dict_keys d))
     | JStr s \<Rightarrow> Inr (map (\<lambda>c. JStr [c]) s)
     | _ \<Rightarrow> Inl TypeError)"

definition py_items :: "json \<Rightarrow> (py_error, jobj) result" where
  "py_items v = (case v of JObj d \<Rightarrow> Inr d | _ \<Rightarrow> Inl AttributeError)"

definition py_pair :: "json \<Rightarrow> (py_error, string \<times> json) result" where
  "py_pair v = rbind (py_iter v) (\<lambda>xs. case xs of
       [k, w] \<Rightarrow> (case k of
           JStr s \<Rightarrow> Inr (s, w)
         | JList _ \<Rightarrow> Inl TypeError
         | JObj _ \<Rightarrow> Inl TypeError
         | _ \<Rightarrow> Inl OutsideModel)
     | _ \<Rightarrow> Inl (ValueError ''dictionary update sequence element has wrong length''))"

definition py_dict :: "json \<Rightarrow> (py_error, jobj) result" where
  "py_dict v = (case v of
       JObj d \<Rightarrow> Inr d
     | _ \<Rightarrow> rbind (py_iter v) (\<lambda>xs. rbind (traverse py_pair xs) (\<lambda>ps. Inr (dict_update [] ps))))"

definition py_int_of :: "json \<Rightarrow> (py_error, int) result" where
  "py_int_of v = map_err conv_err (py_int v)"

section \<open>Decoding with hooks\<close>

text \<open>
  \<open>json.loads\<close> with an \<open>object_pairs_hook\<close> and a \<open>parse_constant\<close> hook.  The decoder is represented by
  the tree it works on: an object is the list of all its pairs, in their order and with duplicates,
  and a constant (\<open>NaN\<close>, \<open>Infinity\<close>, \<open>-Infinity\<close>) is \<open>JOther\<close>.  Hooks are called bottom-up.
\<close>

function (sequential) decode_with ::
    "(jobj \<Rightarrow> ('e, jobj) result) \<Rightarrow> (string \<Rightarrow> ('e, json) result) \<Rightarrow> json \<Rightarrow> ('e, json) result"
  and decode_items ::
    "(jobj \<Rightarrow> ('e, jobj) result) \<Rightarrow> (string \<Rightarrow> ('e, json) result) \<Rightarrow> json list \<Rightarrow> ('e, json list) result"
  and decode_fields ::
    "(jobj \<Rightarrow> ('e, jobj) result) \<Rightarrow> (string \<Rightarrow> ('e, json) result) \<Rightarrow> jobj \<Rightarrow> ('e, jobj) result" where
  "decode_with hook const v = (case v of
       JOther c \<Rightarrow> const c
     | JList xs \<Rightarrow> rbind (decode_items hook const xs) (\<lambda>ys. Inr (JList ys))
     | JObj pairs \<Rightarrow> rbind (decode_fields hook const pairs) (\<lambda>ps. rbind (hook ps) (\<lambda>d. Inr (JObj d)))
     | _ \<Rightarrow> Inr v)"
| "decode_items hook const [] = Inr []"
| "decode_items hook const (x # xs) =
     rbind (decode_with hook const x) (\<lambda>y. rbind (decode_items hook const xs) (\<lambda>ys. Inr (y # ys)))"
| "decode_fields hook const [] = Inr []"
| "decode_fields hook const (kv # d) =
     rbind (decode_with hook const (snd kv)) (\<lambda>y. rbind (decode_fields hook const d) (\<lambda>ys. Inr ((fst kv, y) # ys)))"
  by pat_completeness auto
termination
  by (relation "measure (\<lambda>x. case x of
        Inl (_, _, v) \<Rightarrow> 2 * size v
      | Inr (Inl (_, _, xs)) \<Rightarrow> 2 * size_list size xs + 1
      | Inr (Inr (_, _, d)) \<Rightarrow> 2 * size_list (size_prod (\<lambda>_. 0) size) d + 1)")
    (auto simp: prod.size_gen split: prod.splits)

declare decode_with.simps [simp del]

text \<open>The pairs hook the source writes four times: a repeated key raises.\<close>

fun unique_fields :: "(string \<Rightarrow> 'e) \<Rightarrow> jobj \<Rightarrow> jobj \<Rightarrow> ('e, jobj) result" where
  "unique_fields err acc [] = Inr acc"
| "unique_fields err acc ((key, v) # pairs) =
     (if dict_has acc key then Inl (err key) else unique_fields err (AList.update key v acc) pairs)"

lemma unique_fields_Inr:
  "unique_fields err acc ps = Inr d \<longleftrightarrow>
     d = acc @ ps \<and> distinct (map fst ps) \<and> set (map fst ps) \<inter> set (dict_keys acc) = {}"
proof (induction err acc ps rule: unique_fields.induct)
  case (2 err acc key v pairs)
  show ?case
  proof (cases "dict_has acc key")
    case True
    then show ?thesis by (auto simp: dict_has_iff)
  next
    case False
    with 2 show ?thesis by (auto simp: update_fresh dict_has_iff)
  qed
qed auto

lemma unique_fields_dict: "unique_fields err [] ps = Inr d \<longleftrightarrow> dict_wf ps \<and> d = ps"
  by (auto simp: unique_fields_Inr dict_wf_def)

text \<open>A tree in which every object is a dictionary and no constant is left.\<close>

function json_strict :: "json \<Rightarrow> bool" where
  "json_strict v = (case v of
       JList xs \<Rightarrow> (\<forall>x \<in> set xs. json_strict x)
     | JObj d \<Rightarrow> dict_wf d \<and> (\<forall>kv \<in> set d. json_strict (snd kv))
     | JOther _ \<Rightarrow> False
     | _ \<Rightarrow> True)"
  by pat_completeness auto
termination
  by (relation "measure size")
    (auto simp: less_Suc_eq_le size_list_estimation' intro!: size_json_dict [unfolded less_Suc_eq_le])

declare json_strict.simps [simp del]

lemma decode_with_Inr:
  "(\<forall>ps d. hook ps = Inr d \<longleftrightarrow> dict_wf ps \<and> d = ps) \<Longrightarrow> (\<forall>k u. const k \<noteq> Inr u) \<Longrightarrow>
     decode_with hook const v = Inr w \<longleftrightarrow> json_strict v \<and> w = v"
  "(\<forall>ps d. hook ps = Inr d \<longleftrightarrow> dict_wf ps \<and> d = ps) \<Longrightarrow> (\<forall>k u. const k \<noteq> Inr u) \<Longrightarrow>
     decode_items hook const xs = Inr ys \<longleftrightarrow> (\<forall>x \<in> set xs. json_strict x) \<and> ys = xs"
  "(\<forall>ps d. hook ps = Inr d \<longleftrightarrow> dict_wf ps \<and> d = ps) \<Longrightarrow> (\<forall>k u. const k \<noteq> Inr u) \<Longrightarrow>
     decode_fields hook const fs = Inr gs \<longleftrightarrow> (\<forall>kv \<in> set fs. json_strict (snd kv)) \<and> gs = fs"
proof (induction hook const v and hook const xs and hook const fs arbitrary: w and ys and gs
    rule: decode_with_decode_items_decode_fields.induct)
  case (1 hook const v)
  then show ?case
    by (subst decode_with.simps, subst json_strict.simps, cases v) (auto simp: result_simps)
qed (auto simp: result_simps)

text \<open>
  The contract of strict hooks: a duplicate key and every constant raise.  The decoder then returns
  exactly the strict trees, unchanged.
\<close>

locale strict_hooks =
  fixes hook :: "jobj \<Rightarrow> ('e, jobj) result"
    and const :: "string \<Rightarrow> ('e, json) result"
  assumes hook_Inr: "hook ps = Inr d \<longleftrightarrow> dict_wf ps \<and> d = ps"
    and const_raises: "const k \<noteq> Inr u"
begin

lemma decode_Inr: "decode_with hook const v = Inr w \<longleftrightarrow> json_strict v \<and> w = v"
  by (rule decode_with_Inr(1)) (auto simp: hook_Inr const_raises)

end

section \<open>Serialisation\<close>

text \<open>
  \<open>json.dumps(v, ensure_ascii=False, separators=(',', ':'))\<close>.  Only quotes, backslashes and
  control characters are escaped.
\<close>

definition json_escape :: "char \<Rightarrow> string" where
  "json_escape c =
     (if code c = 34 \<or> code c = 92 then [char_of (92::nat), c]
      else if code c = 8 then [char_of (92::nat), CHR ''b'']
      else if code c = 9 then [char_of (92::nat), CHR ''t'']
      else if code c = 10 then [char_of (92::nat), CHR ''n'']
      else if code c = 12 then [char_of (92::nat), CHR ''f'']
      else if code c = 13 then [char_of (92::nat), CHR ''r'']
      else if code c < 32 then
        [char_of (92::nat), CHR ''u'', CHR ''0'', CHR ''0'',
         hex_digit (code c div 16), hex_digit (code c mod 16)]
      else [c])"

definition json_quote :: "string \<Rightarrow> string" where
  "json_quote s = char_of (34::nat) # concat (map json_escape s) @ [char_of (34::nat)]"

function json_dumps :: "json \<Rightarrow> string" where
  "json_dumps JNull = ''null''"
| "json_dumps (JBool b) = (if b then ''true'' else ''false'')"
| "json_dumps (JInt i) = int_str i"
| "json_dumps (JFloat f) =
     (case f of PFin _ t \<Rightarrow> t | PInf neg \<Rightarrow> (if neg then ''-Infinity'' else ''Infinity'') | PNan \<Rightarrow> ''NaN'')"
| "json_dumps (JStr s) = json_quote s"
| "json_dumps (JList xs) = ''['' @ py_join '','' (map json_dumps xs) @ '']''"
| "json_dumps (JObj d) =
     CHR 0x7B # py_join '','' (map (\<lambda>(k, v). json_quote k @ '':'' @ json_dumps v) d) @ [CHR 0x7D]"
| "json_dumps (JOther t) = []"
  by pat_completeness auto
termination
  by (relation "measure size") (auto intro: size_json_dict simp: less_Suc_eq_le size_list_estimation')

text \<open>\<open>str.encode('utf-8')\<close>: a code point below 256 takes one or two bytes.\<close>

definition utf8_char :: "char \<Rightarrow> nat list" where
  "utf8_char c = (if code c < 128 then [code c] else [192 + code c div 64, 128 + code c mod 64])"

definition utf8 :: "string \<Rightarrow> nat list" where
  "utf8 s = concat (map utf8_char s)"

end
