(* ===== verification/Py_Regex.thy ===== *)
theory Py_Regex
  imports Msys_Prelude
begin

text \<open>
  Regular expressions, for the patterns the source compiles with \<open>re.compile\<close> and applies with
  \<open>fullmatch\<close>.  A pattern is a term of the datatype \<open>rx\<close> that mirrors the pattern's text; the
  matcher \<open>fullmatch\<close> is executable (Brzozowski derivatives with simplifying constructors) and
  agrees with the declarative relation \<open>rx_match\<close>, so properties of accepted strings are
  proved from the relation and concrete strings are decided by evaluation.  An anchored
  pattern (\<open>^...$\<close>) under \<open>fullmatch\<close> accepts the strings its body matches as a whole.
\<close>

section \<open>Patterns and the strings they match\<close>

text \<open>A character class is a list of inclusive code-point ranges.\<close>

datatype rx =
    RNone
  | REps
  | RCls "(nat \<times> nat) list"
  | RSeq rx rx
  | RAlt rx rx
  | RStar rx

definition in_class :: "(nat \<times> nat) list \<Rightarrow> char \<Rightarrow> bool" where
  "in_class cs c \<longleftrightarrow> list_ex (\<lambda>(lo, hi). lo \<le> code c \<and> code c \<le> hi) cs"

inductive rx_match :: "rx \<Rightarrow> string \<Rightarrow> bool" where
  m_eps: "rx_match REps []"
| m_cls: "in_class cs c \<Longrightarrow> rx_match (RCls cs) [c]"
| m_seq: "rx_match r s \<Longrightarrow> rx_match q t \<Longrightarrow> rx_match (RSeq r q) (s @ t)"
| m_alt1: "rx_match r s \<Longrightarrow> rx_match (RAlt r q) s"
| m_alt2: "rx_match q s \<Longrightarrow> rx_match (RAlt r q) s"
| m_star0: "rx_match (RStar r) []"
| m_star1: "rx_match r s \<Longrightarrow> rx_match (RStar r) t \<Longrightarrow> rx_match (RStar r) (s @ t)"

inductive_simps rx_none_iff [simp]: "rx_match RNone s"
inductive_simps rx_eps_iff [simp]: "rx_match REps s"
inductive_simps rx_cls_iff [simp]: "rx_match (RCls cs) s"
inductive_simps rx_seq_iff: "rx_match (RSeq r q) s"
inductive_simps rx_alt_iff [simp]: "rx_match (RAlt r q) s"
inductive_cases rx_starE: "rx_match (RStar r) s"

section \<open>The matcher\<close>

fun nullable :: "rx \<Rightarrow> bool" where
  "nullable RNone = False"
| "nullable REps = True"
| "nullable (RCls cs) = False"
| "nullable (RSeq r q) = (nullable r \<and> nullable q)"
| "nullable (RAlt r q) = (nullable r \<or> nullable q)"
| "nullable (RStar r) = True"

fun mk_seq :: "rx \<Rightarrow> rx \<Rightarrow> rx" where
  "mk_seq RNone q = RNone"
| "mk_seq REps q = q"
| "mk_seq r q = (if q = RNone then RNone else RSeq r q)"

definition mk_alt :: "rx \<Rightarrow> rx \<Rightarrow> rx" where
  "mk_alt r q = (if r = RNone then q else if q = RNone then r else if r = q then r else RAlt r q)"

fun deriv :: "char \<Rightarrow> rx \<Rightarrow> rx" where
  "deriv c RNone = RNone"
| "deriv c REps = RNone"
| "deriv c (RCls cs) = (if in_class cs c then REps else RNone)"
| "deriv c (RSeq r q) =
     (if nullable r then mk_alt (mk_seq (deriv c r) q) (deriv c q) else mk_seq (deriv c r) q)"
| "deriv c (RAlt r q) = mk_alt (deriv c r) (deriv c q)"
| "deriv c (RStar r) = mk_seq (deriv c r) (RStar r)"

fun fullmatch :: "rx \<Rightarrow> string \<Rightarrow> bool" where
  "fullmatch r [] = nullable r"
| "fullmatch r (c # s) = fullmatch (deriv c r) s"

lemma nullable_match: "nullable r \<longleftrightarrow> rx_match r []"
  by (induction r) (auto simp: rx_seq_iff intro: m_star0)

lemma mk_seq_match: "rx_match (mk_seq r q) s \<longleftrightarrow> rx_match (RSeq r q) s"
  by (cases r) (auto simp: rx_seq_iff)

lemma mk_alt_match: "rx_match (mk_alt r q) s \<longleftrightarrow> rx_match (RAlt r q) s"
  by (auto simp: mk_alt_def)

lemma star_Cons:
  "rx_match (RStar r) (c # s) \<longleftrightarrow> (\<exists>u v. s = u @ v \<and> rx_match r (c # u) \<and> rx_match (RStar r) v)"
    (is "?L \<longleftrightarrow> ?R")
proof
  have "rx_match q t \<Longrightarrow> q = RStar r \<Longrightarrow> t = c # s \<Longrightarrow> ?R" for q t
  proof (induction arbitrary: s rule: rx_match.induct)
    case (m_star1 r' x t)
    then show ?case by (cases x) auto
  qed auto
  then show "?L \<Longrightarrow> ?R" by blast
next
  assume ?R
  then obtain u v where "c # s = (c # u) @ v" "rx_match r (c # u)" "rx_match (RStar r) v"
    by auto
  then show ?L by (metis m_star1)
qed

lemma seq_Cons:
  "rx_match (RSeq r q) (c # s) \<longleftrightarrow>
     (rx_match r [] \<and> rx_match q (c # s)) \<or>
     (\<exists>u v. s = u @ v \<and> rx_match r (c # u) \<and> rx_match q v)"
  by (auto simp: rx_seq_iff Cons_eq_append_conv)

lemma deriv_match: "rx_match (deriv c r) s \<longleftrightarrow> rx_match r (c # s)"
proof (induction r arbitrary: s)
  case (RSeq r q)
  have "rx_match (RSeq (deriv c r) q) s \<longleftrightarrow> (\<exists>u v. s = u @ v \<and> rx_match r (c # u) \<and> rx_match q v)"
    by (simp add: rx_seq_iff RSeq.IH)
  then show ?case
    unfolding seq_Cons by (auto simp: mk_seq_match mk_alt_match RSeq.IH nullable_match)
next
  case (RStar r)
  then show ?case
    by (auto simp: mk_seq_match star_Cons rx_seq_iff)
qed (auto simp: mk_alt_match)

text \<open>The executable matcher decides exactly the declarative matching relation.\<close>

lemma fullmatch_iff: "fullmatch r s \<longleftrightarrow> rx_match r s"
  by (induction s arbitrary: r) (auto simp: nullable_match deriv_match)

declare fullmatch.simps [simp del]

section \<open>Pattern combinators\<close>

definition rx_char :: "char \<Rightarrow> rx" where
  "rx_char c = RCls [(code c, code c)]"

fun rx_lit :: "string \<Rightarrow> rx" where
  "rx_lit [] = REps"
| "rx_lit (c # s) = RSeq (rx_char c) (rx_lit s)"

definition rx_opt :: "rx \<Rightarrow> rx" where
  "rx_opt r = RAlt r REps"

definition rx_plus :: "rx \<Rightarrow> rx" where
  "rx_plus r = RSeq r (RStar r)"

text \<open>\<open>r{0,n}\<close> and \<open>r{n}\<close>.\<close>

fun rx_upto :: "nat \<Rightarrow> rx \<Rightarrow> rx" where
  "rx_upto 0 r = REps"
| "rx_upto (Suc n) r = RAlt (RSeq r (rx_upto n r)) REps"

fun rx_exactly :: "nat \<Rightarrow> rx \<Rightarrow> rx" where
  "rx_exactly 0 r = REps"
| "rx_exactly (Suc n) r = RSeq r (rx_exactly n r)"

definition rx_between :: "nat \<Rightarrow> nat \<Rightarrow> rx \<Rightarrow> rx" where
  "rx_between m n r = RSeq (rx_exactly m r) (rx_upto (n - m) r)"

fun rx_alts :: "rx list \<Rightarrow> rx" where
  "rx_alts [] = RNone"
| "rx_alts [r] = r"
| "rx_alts (r # rs) = RAlt r (rx_alts rs)"

fun rx_seqs :: "rx list \<Rightarrow> rx" where
  "rx_seqs [] = REps"
| "rx_seqs [r] = r"
| "rx_seqs (r # rs) = RSeq r (rx_seqs rs)"

definition az :: "(nat \<times> nat)" where "az = (97, 122)"
definition AZ :: "(nat \<times> nat)" where "AZ = (65, 90)"
definition d09 :: "(nat \<times> nat)" where "d09 = (48, 57)"

definition one :: "char \<Rightarrow> (nat \<times> nat)" where
  "one c = (code c, code c)"

lemma cls_seq_match:
  "rx_match (RSeq (RCls cs) q) s \<longleftrightarrow> (\<exists>c t. s = c # t \<and> in_class cs c \<and> rx_match q t)"
proof
  assume "\<exists>c t. s = c # t \<and> in_class cs c \<and> rx_match q t"
  then obtain c t where "s = [c] @ t" "in_class cs c" "rx_match q t" by auto
  then show "rx_match (RSeq (RCls cs) q) s" by (blast intro: m_seq m_cls)
qed (auto simp: rx_seq_iff)

lemma in_class_one: "in_class [(code c, code c)] d \<longleftrightarrow> d = c"
proof
  assume "in_class [(code c, code c)] d"
  then have "code c \<le> code d" and "code d \<le> code c" by (auto simp: in_class_def)
  then show "d = c" by (metis order.antisym of_char_eq_iff)
qed (simp add: in_class_def)

lemma rx_match_lit: "rx_match (rx_lit p) s \<longleftrightarrow> s = p"
proof (induction p arbitrary: s)
  case (Cons c p)
  then show ?case by (simp add: cls_seq_match rx_char_def in_class_one)
qed simp

lemma star_cls_match: "rx_match (RStar (RCls cs)) s \<longleftrightarrow> list_all (in_class cs) s"
proof (induction s)
  case Nil
  show ?case by (simp add: m_star0)
next
  case (Cons c s)
  have "rx_match (RStar (RCls cs)) (c # s) \<longleftrightarrow> in_class cs c \<and> rx_match (RStar (RCls cs)) s"
    unfolding star_Cons [of "RCls cs" c s] by auto
  with Cons show ?case by simp
qed

lemma cls_star_match:
  "rx_match (RSeq (RCls as) (RStar (RCls bs))) s \<longleftrightarrow>
     (\<exists>c t. s = c # t \<and> in_class as c \<and> list_all (in_class bs) t)"
  by (simp add: cls_seq_match star_cls_match)

lemma upto_cls_match:
  "rx_match (rx_upto n (RCls cs)) s \<longleftrightarrow> length s \<le> n \<and> list_all (in_class cs) s"
proof (induction n arbitrary: s)
  case (Suc n)
  then show ?case by (cases s) (auto simp: cls_seq_match)
qed auto

lemma exactly_cls_match:
  "rx_match (rx_exactly n (RCls cs)) s \<longleftrightarrow> length s = n \<and> list_all (in_class cs) s"
proof (induction n arbitrary: s)
  case (Suc n)
  then show ?case by (cases s) (auto simp: cls_seq_match)
qed auto

lemma cls_upto_match:
  "rx_match (RSeq (RCls as) (rx_upto n (RCls bs))) s \<longleftrightarrow>
     (\<exists>c t. s = c # t \<and> in_class as c \<and> length t \<le> n \<and> list_all (in_class bs) t)"
  by (simp add: cls_seq_match upto_cls_match)

text \<open>No accepted string of a pattern holds a character outside all of the pattern's classes.\<close>

fun rx_classes :: "rx \<Rightarrow> (nat \<times> nat) list" where
  "rx_classes RNone = []"
| "rx_classes REps = []"
| "rx_classes (RCls cs) = cs"
| "rx_classes (RSeq r q) = rx_classes r @ rx_classes q"
| "rx_classes (RAlt r q) = rx_classes r @ rx_classes q"
| "rx_classes (RStar r) = rx_classes r"

lemma in_class_append: "in_class (a @ b) c \<longleftrightarrow> in_class a c \<or> in_class b c"
  by (auto simp: in_class_def)

lemma rx_match_classes: "rx_match r s \<Longrightarrow> list_all (in_class (rx_classes r)) s"
proof (induction rule: rx_match.induct)
  case (m_seq r s q t)
  then show ?case by (auto simp: in_class_append list_all_iff)
next
  case (m_alt1 r s q)
  then show ?case by (auto simp: in_class_append list_all_iff)
next
  case (m_alt2 q s r)
  then show ?case by (auto simp: in_class_append list_all_iff)
qed auto

end
