(* ===== verification/Isolation.thy ===== *)
theory Isolation
  imports Py_Json Py_Regex
begin

text \<open>
  Process isolation (\<open>msys_core/isolation.py\<close>): the parser of a component's isolation
  declaration, the capabilities a host offers, the preflight that turns a declaration into a
  launch plan under its failure policy, and the child-side sequence of system calls.

  The host is a parameter: \<open>host\<close> is what \<open>detect_capabilities\<close> observes (platform, libc symbols,
  \<open>/proc\<close> files, executables) and \<open>syscalls\<close> is the outcome of every system call, which may depend
  on all earlier ones.  The \<open>resource\<close> module is taken with the nine limits of a Linux build.
\<close>

section \<open>Constants\<close>

definition FAIL_CLOSED :: string where "FAIL_CLOSED = ''fail-closed''"
definition BEST_EFFORT :: string where "BEST_EFFORT = ''best-effort''"

definition FAILURE_POLICIES :: "string list" where
  "FAILURE_POLICIES = [FAIL_CLOSED, BEST_EFFORT]"

definition NAMESPACE_ORDER :: "string list" where
  "NAMESPACE_ORDER = [''user'', ''mount'', ''ipc'', ''uts'', ''network'']"

definition NAMESPACE_FLAGS :: "(string, int) dict" where
  "NAMESPACE_FLAGS =
     [(''user'', 0x10000000), (''mount'', 0x00020000), (''ipc'', 0x08000000),
      (''uts'', 0x04000000), (''network'', 0x40000000)]"

definition NAMESPACE_PROC_NAMES :: "(string, string) dict" where
  "NAMESPACE_PROC_NAMES =
     [(''user'', ''user''), (''mount'', ''mnt''), (''ipc'', ''ipc''), (''uts'', ''uts''),
      (''network'', ''net'')]"

definition RLIMIT_RESOURCES :: "string list" where
  "RLIMIT_RESOURCES =
     [''as'', ''core'', ''cpu'', ''data'', ''fsize'', ''memlock'', ''nofile'', ''nproc'', ''stack'']"

section \<open>Declarations\<close>

datatype iso_error =
    IsolationConfigurationError string
  | IsolationUnavailable string
  | PartialIsolationError string
  | IsolationAssertionError

record rlimit_spec =
  rl_soft :: int
  rl_hard :: int

record seccomp_spec =
  sc_mode :: string
  sc_profile :: string

definition SeccompSpec :: seccomp_spec where
  "SeccompSpec = \<lparr>sc_mode = ''off'', sc_profile = ''default''\<rparr>"

record isolation_spec =
  iso_profile :: string
  iso_failure :: string
  iso_namespaces :: "string list"
  iso_no_new_privs :: bool
  iso_dumpable :: "bool option"
  iso_rlimits :: "(string, rlimit_spec) dict"
  iso_seccomp :: seccomp_spec

definition IsolationSpec :: isolation_spec where
  "IsolationSpec =
     \<lparr>iso_profile = ''none'', iso_failure = BEST_EFFORT, iso_namespaces = [],
      iso_no_new_privs = False, iso_dumpable = None, iso_rlimits = [],
      iso_seccomp = SeccompSpec\<rparr>"

definition isolation_requested :: "isolation_spec \<Rightarrow> bool" where
  "isolation_requested spec \<longleftrightarrow>
     iso_profile spec \<noteq> ''none'' \<or> iso_namespaces spec \<noteq> [] \<or> iso_no_new_privs spec
     \<or> iso_dumpable spec \<noteq> None \<or> iso_rlimits spec \<noteq> [] \<or> sc_mode (iso_seccomp spec) \<noteq> ''off''"

definition json_strings :: "string list \<Rightarrow> json" where
  "json_strings xs = JList (map JStr xs)"

definition json_opt_bool :: "bool option \<Rightarrow> json" where
  "json_opt_bool b = (case b of None \<Rightarrow> JNull | Some b \<Rightarrow> JBool b)"

definition json_opt_str :: "string option \<Rightarrow> json" where
  "json_opt_str s = (case s of None \<Rightarrow> JNull | Some s \<Rightarrow> JStr s)"

definition json_rlimits :: "(string, rlimit_spec) dict \<Rightarrow> json" where
  "json_rlimits d =
     JObj (map (\<lambda>(n, l). (n, JObj [(''soft'', JInt (rl_soft l)), (''hard'', JInt (rl_hard l))]))
       (sort_key fst d))"

definition describe_isolation :: "isolation_spec \<Rightarrow> json" where
  "describe_isolation spec =
     JObj
      [(''profile'', JStr (iso_profile spec)),
       (''failure'', JStr (iso_failure spec)),
       (''requested'', JBool (isolation_requested spec)),
       (''namespaces'', json_strings (iso_namespaces spec)),
       (''no_new_privs'', JBool (iso_no_new_privs spec)),
       (''dumpable'', json_opt_bool (iso_dumpable spec)),
       (''rlimits'', json_rlimits (iso_rlimits spec)),
       (''seccomp'', JObj [(''mode'', JStr (sc_mode (iso_seccomp spec))),
                           (''profile'', JStr (sc_profile (iso_seccomp spec)))]),
       (''security_boundary'', JStr ''partial-not-a-filesystem-sandbox'')]"

definition PROFILE_DEFAULTS :: "(string, jobj) dict" where
  "PROFILE_DEFAULTS =
     [(''none'', []),
      (''baseline'',
        [(''no_new_privs'', JBool True),
         (''dumpable'', JBool False),
         (''rlimits'', JObj [(''core'', JInt 0), (''nofile'', JInt 1024)])]),
      (''namespaced'',
        [(''namespaces'', json_strings NAMESPACE_ORDER),
         (''no_new_privs'', JBool True),
         (''dumpable'', JBool False),
         (''rlimits'', JObj [(''core'', JInt 0), (''nofile'', JInt 512), (''nproc'', JInt 256)])]),
      (''custom'', [])]"

section \<open>Parsing a declaration\<close>

text \<open>\<open>_boolean\<close>: a boolean or \<open>None\<close>, from the field or its default.\<close>

definition iso_boolean :: "jobj \<Rightarrow> string \<Rightarrow> json \<Rightarrow> (iso_error, bool option) result" where
  "iso_boolean raw name dflt = (case jget_or raw name dflt of
       JNull \<Rightarrow> Inr None
     | JBool b \<Rightarrow> Inr (Some b)
     | _ \<Rightarrow> Inl (IsolationConfigurationError (''isolation.'' @ name @ '' must be boolean'')))"

definition limit_value :: "json \<Rightarrow> string \<Rightarrow> (iso_error, int) result" where
  "limit_value v ctx = (case v of
       JInt i \<Rightarrow> if i < 0
         then Inl (IsolationConfigurationError (ctx @ '' must be a non-negative integer''))
         else Inr i
     | _ \<Rightarrow> Inl (IsolationConfigurationError (ctx @ '' must be a non-negative integer'')))"

definition unknown_fields :: "jobj \<Rightarrow> string list \<Rightarrow> string list" where
  "unknown_fields d allowed = sort (dedup (filter (\<lambda>k. k \<notin> set allowed) (dict_keys d)))"

definition parse_rlimit :: "string \<Rightarrow> json \<Rightarrow> (iso_error, rlimit_spec) result" where
  "parse_rlimit name v =
     (let ctx = ''isolation.rlimits.'' @ name in
      if name \<notin> set RLIMIT_RESOURCES then
        Inl (IsolationConfigurationError (''unsupported rlimit '' @ name))
      else (case v of
          JInt _ \<Rightarrow> rbind (limit_value v ctx) (\<lambda>l. Inr \<lparr>rl_soft = l, rl_hard = l\<rparr>)
        | JObj d \<Rightarrow>
            if unknown_fields d [''soft'', ''hard''] \<noteq> [] then
              Inl (IsolationConfigurationError
                (''unknown rlimit fields: '' @ py_join '', '' (unknown_fields d [''soft'', ''hard''])))
            else if \<not> dict_has d ''soft'' \<and> \<not> dict_has d ''hard'' then
              Inl (IsolationConfigurationError (ctx @ '' is empty''))
            else
              rbind (limit_value (jget_or d ''hard'' (jget_null d ''soft'')) (ctx @ ''.hard''))
                (\<lambda>hard. rbind (limit_value (jget_or d ''soft'' (JInt hard)) (ctx @ ''.soft''))
                  (\<lambda>soft. if soft > hard
                     then Inl (IsolationConfigurationError (ctx @ ''.soft exceeds hard''))
                     else Inr \<lparr>rl_soft = soft, rl_hard = hard\<rparr>))
        | _ \<Rightarrow> Inl (IsolationConfigurationError
                 (ctx @ '' must be an integer or soft/hard object''))))"

definition seccomp_profile_rx :: rx where
  "seccomp_profile_rx =
     RSeq (RCls [AZ, az, d09])
       (rx_upto 63 (RCls [AZ, az, d09, one CHR ''.'', one CHR ''_'', one CHR ''-'']))"

definition parse_seccomp :: "json \<Rightarrow> (iso_error, seccomp_spec) result" where
  "parse_seccomp v =
     (if v = JNull \<or> v = JStr ''off'' then Inr SeccompSpec
      else if v = JStr ''helper'' then Inr \<lparr>sc_mode = ''helper'', sc_profile = ''default''\<rparr>
      else (case v of
          JObj d \<Rightarrow>
            if unknown_fields d [''mode'', ''profile''] \<noteq> [] then
              Inl (IsolationConfigurationError
                (''unknown seccomp fields: '' @ py_join '', '' (unknown_fields d [''mode'', ''profile''])))
            else
              (let mode = py_str (jget_or d ''mode'' (JStr ''off''));
                   profile = py_str (jget_or d ''profile'' (JStr ''default'')) in
               if mode \<notin> {''off'', ''helper''} then
                 Inl (IsolationConfigurationError (''unsupported seccomp mode '' @ mode))
               else if \<not> fullmatch seccomp_profile_rx profile then
                 Inl (IsolationConfigurationError ''invalid seccomp helper profile'')
               else Inr \<lparr>sc_mode = mode, sc_profile = profile\<rparr>)
        | _ \<Rightarrow> Inl (IsolationConfigurationError ''isolation.seccomp must be off, helper, or an object'')))"

definition namespaces_error :: "string list \<Rightarrow> iso_error" where
  "namespaces_error unsupported =
     IsolationConfigurationError
       (''unsupported namespaces: '' @ py_join '', '' (sort unsupported) @
        (if ''pid'' \<in> set unsupported
         then '' (pid needs a double-fork/helper and is not implemented)'' else []))"

definition parse_namespaces :: "json \<Rightarrow> (iso_error, string list) result" where
  "parse_namespaces v = (case v of
       JList items \<Rightarrow>
         if list_all is_str items then
           (let namespaces = dedup (map py_str items);
                unsupported = filter (\<lambda>n. \<not> dict_has NAMESPACE_FLAGS n) namespaces in
            if unsupported \<noteq> [] then Inl (namespaces_error unsupported) else Inr namespaces)
         else Inl (IsolationConfigurationError ''isolation.namespaces must be an array of names'')
     | _ \<Rightarrow> Inl (IsolationConfigurationError ''isolation.namespaces must be an array of names''))"

text \<open>The overrides of the limits: \<open>null\<close> removes a default, any other value replaces it.\<close>

fun merge_limits :: "jobj \<Rightarrow> jobj \<Rightarrow> jobj" where
  "merge_limits limits [] = limits"
| "merge_limits limits ((name, limit) # overrides) =
     merge_limits
       (if limit = JNull then AList.delete name limits else AList.update name limit limits)
       overrides"

definition parse_rlimits :: "jobj \<Rightarrow> json \<Rightarrow> (iso_error, (string, rlimit_spec) dict) result" where
  "parse_rlimits defaults overrides = (case overrides of
       JObj d \<Rightarrow>
         traverse (\<lambda>(name, limit). rbind (parse_rlimit name limit) (\<lambda>l. Inr (name, l)))
           (merge_limits defaults d)
     | _ \<Rightarrow> Inl (IsolationConfigurationError ''isolation.rlimits must be an object''))"

definition jobj_of :: "json \<Rightarrow> jobj" where
  "jobj_of v = (case v of JObj d \<Rightarrow> d | _ \<Rightarrow> [])"

definition ISOLATION_FIELDS :: "string list" where
  "ISOLATION_FIELDS =
     [''profile'', ''failure'', ''namespaces'', ''no_new_privs'', ''dumpable'', ''rlimits'', ''seccomp'']"

definition parse_isolation_object :: "jobj \<Rightarrow> (iso_error, isolation_spec) result" where
  "parse_isolation_object raw =
     (if unknown_fields raw ISOLATION_FIELDS \<noteq> [] then
        Inl (IsolationConfigurationError
          (''unknown isolation fields: '' @ py_join '', '' (unknown_fields raw ISOLATION_FIELDS)))
      else
        (let profile = py_str (jget_or raw ''profile'' (JStr ''custom'')) in
         case map_of PROFILE_DEFAULTS profile of
           None \<Rightarrow> Inl (IsolationConfigurationError (''unknown isolation profile '' @ profile))
         | Some defaults \<Rightarrow>
             let failure = py_str (jget_or raw ''failure'' (JStr FAIL_CLOSED)) in
             if failure \<notin> set FAILURE_POLICIES then
               Inl (IsolationConfigurationError (''invalid isolation failure policy '' @ failure))
             else
               rbind (parse_namespaces (jget_or raw ''namespaces'' (jget_or defaults ''namespaces'' (JList []))))
               (\<lambda>namespaces.
               rbind (iso_boolean raw ''no_new_privs''
                       (JBool (py_bool (jget_or defaults ''no_new_privs'' (JBool False)))))
               (\<lambda>nnp.
               rbind (iso_boolean raw ''dumpable'' (jget_null defaults ''dumpable''))
               (\<lambda>dumpable. (case nnp of
                   None \<Rightarrow> Inl IsolationAssertionError
                 | Some no_new_privs \<Rightarrow>
                     rbind (parse_rlimits (jobj_of (jget_or defaults ''rlimits'' (JObj [])))
                             (jget_or raw ''rlimits'' (JObj [])))
                     (\<lambda>limits.
                     rbind (parse_seccomp (jget_or raw ''seccomp'' (jget_or defaults ''seccomp'' (JStr ''off''))))
                     (\<lambda>seccomp.
                       if sc_mode seccomp = ''helper'' \<and> \<not> no_new_privs then
                         Inl (IsolationConfigurationError ''seccomp helper requires no_new_privs=true'')
                       else
                         Inr \<lparr>iso_profile = profile, iso_failure = failure,
                              iso_namespaces = namespaces, iso_no_new_privs = no_new_privs,
                              iso_dumpable = dumpable, iso_rlimits = limits,
                              iso_seccomp = seccomp\<rparr>))))))))"

definition parse_isolation :: "json \<Rightarrow> (iso_error, isolation_spec) result" where
  "parse_isolation v = (case v of
       JNull \<Rightarrow> Inr IsolationSpec
     | JStr s \<Rightarrow> parse_isolation_object [(''profile'', JStr s)]
     | JObj d \<Rightarrow> parse_isolation_object d
     | _ \<Rightarrow> Inl (IsolationConfigurationError ''component isolation must be a profile string or object''))"

section \<open>Capabilities of a host\<close>

record host =
  h_platform :: string
  h_libc_loads :: bool
  h_has_prctl :: bool
  h_has_unshare :: bool
  h_exists :: "string \<Rightarrow> bool"
  h_executable_file :: "string \<Rightarrow> bool"
  h_resolve :: "string \<Rightarrow> string"
  h_which :: "string \<Rightarrow> string option"

record isolation_capabilities =
  cap_linux :: bool
  cap_prctl :: bool
  cap_unshare :: bool
  cap_namespaces :: "string list"
  cap_rlimits :: "string list"
  cap_seccomp_helper :: "string option"

definition capabilities_as_dict :: "isolation_capabilities \<Rightarrow> json" where
  "capabilities_as_dict caps =
     JObj
      [(''linux'', JBool (cap_linux caps)),
       (''no_new_privs'', JBool (cap_prctl caps)),
       (''dumpable'', JBool (cap_prctl caps)),
       (''unshare_api'', JBool (cap_unshare caps)),
       (''namespaces'', JObj (map (\<lambda>n. (n, JBool (n \<in> set (cap_namespaces caps)))) NAMESPACE_ORDER)),
       (''rlimits'', json_strings (sort (cap_rlimits caps))),
       (''seccomp'', JObj
          [(''mode'', JStr ''optional-helper''),
           (''helper'', json_opt_str (cap_seccomp_helper caps)),
           (''available'', JBool (cap_seccomp_helper caps \<noteq> None))]),
       (''permission_probe'', JStr ''deferred-to-child''),
       (''security_boundary'', JStr ''partial-not-a-filesystem-sandbox'')]"

definition resolve_executable :: "host \<Rightarrow> string option \<Rightarrow> string option" where
  "resolve_executable h command = (case command of
       None \<Rightarrow> None
     | Some c \<Rightarrow>
         if c = [] then None
         else if startswith c ''/'' \<or> CHR ''/'' \<in> set c then
           (if h_executable_file h c then Some (h_resolve h c) else None)
         else h_which h c)"

definition detect_capabilities :: "host \<Rightarrow> string option \<Rightarrow> isolation_capabilities" where
  "detect_capabilities h seccomp_helper =
     (let linux = startswith (h_platform h) ''linux'';
          prctl = linux \<and> h_libc_loads h \<and> h_has_prctl h;
          unshare = linux \<and> h_libc_loads h \<and> h_has_unshare h in
      \<lparr>cap_linux = linux, cap_prctl = prctl, cap_unshare = unshare,
       cap_namespaces =
         map fst (filter (\<lambda>(_, proc). unshare \<and> h_exists h (''/proc/self/ns/'' @ proc)) NAMESPACE_PROC_NAMES),
       cap_rlimits = (if linux then RLIMIT_RESOURCES else []),
       cap_seccomp_helper = (if linux then resolve_executable h seccomp_helper else None)\<rparr>)"

section \<open>System calls of the child\<close>

datatype syscall =
    SysUnshare int
  | SysWrite string string
  | SysMount int
  | SysPrctl int int
  | SysSetrlimit string int int

datatype sys_result = SysOk | SysNotFound | SysError

text \<open>
  One isolation step is a list of attempted system calls and its outcome.  The oracle gets every
  earlier call, so any kernel behaviour is an instance.
\<close>

type_synonym syscalls = "syscall list \<Rightarrow> syscall \<Rightarrow> sys_result"

datatype op_result = OpOk | OpPartial | OpFail

definition PR_SET_DUMPABLE :: int where "PR_SET_DUMPABLE = 4"
definition PR_SET_NO_NEW_PRIVS :: int where "PR_SET_NO_NEW_PRIVS = 38"
definition MS_PRIVATE :: int where "MS_PRIVATE = 2 ^ 18"
definition MS_REC :: int where "MS_REC = 2 ^ 14"

text \<open>\<open>_check\<close>: any non-zero result is an \<open>OSError\<close>.\<close>

definition sys_check :: "syscalls \<Rightarrow> syscall list \<Rightarrow> syscall \<Rightarrow> op_result \<times> syscall list" where
  "sys_check sys hist c = ((if sys hist c = SysOk then OpOk else OpFail), hist @ [c])"

definition backend_unshare :: "syscalls \<Rightarrow> string \<Rightarrow> syscall list \<Rightarrow> op_result \<times> syscall list" where
  "backend_unshare sys ns hist = sys_check sys hist (SysUnshare (dict_get_or NAMESPACE_FLAGS ns 0))"

text \<open>\<open>_write_mapping\<close>: an optional file that is missing is no error.\<close>

definition write_mapping ::
  "syscalls \<Rightarrow> string \<Rightarrow> string \<Rightarrow> bool \<Rightarrow> syscall list \<Rightarrow> bool \<times> syscall list" where
  "write_mapping sys path v optional hist =
     (case sys hist (SysWrite path v) of
        SysOk \<Rightarrow> True | SysNotFound \<Rightarrow> optional | SysError \<Rightarrow> False, hist @ [SysWrite path v])"

definition enter_user_namespace ::
  "syscalls \<Rightarrow> int \<Rightarrow> int \<Rightarrow> syscall list \<Rightarrow> op_result \<times> syscall list" where
  "enter_user_namespace sys uid gid hist =
     (let (r, h1) = backend_unshare sys ''user'' hist in
      if r \<noteq> OpOk then (r, h1)
      else
        let (ok2, h2) = write_mapping sys ''/proc/self/setgroups'' (''deny'' @ [CHR 10]) True h1 in
        if \<not> ok2 then (OpPartial, h2)
        else
          let (ok3, h3) =
            write_mapping sys ''/proc/self/uid_map'' (''0 '' @ int_str uid @ '' 1'' @ [CHR 10]) False h2 in
          if \<not> ok3 then (OpPartial, h3)
          else
            let (ok4, h4) =
              write_mapping sys ''/proc/self/gid_map'' (''0 '' @ int_str gid @ '' 1'' @ [CHR 10]) False h3 in
            if \<not> ok4 then (OpPartial, h4) else (OpOk, h4))"

definition make_mounts_private :: "syscalls \<Rightarrow> syscall list \<Rightarrow> op_result \<times> syscall list" where
  "make_mounts_private sys hist = sys_check sys hist (SysMount (MS_REC + MS_PRIVATE))"

definition set_no_new_privs :: "syscalls \<Rightarrow> syscall list \<Rightarrow> op_result \<times> syscall list" where
  "set_no_new_privs sys hist = sys_check sys hist (SysPrctl PR_SET_NO_NEW_PRIVS 1)"

definition set_dumpable :: "syscalls \<Rightarrow> bool \<Rightarrow> syscall list \<Rightarrow> op_result \<times> syscall list" where
  "set_dumpable sys enabled hist = sys_check sys hist (SysPrctl PR_SET_DUMPABLE (if enabled then 1 else 0))"

definition set_rlimit ::
  "syscalls \<Rightarrow> string \<Rightarrow> rlimit_spec \<Rightarrow> syscall list \<Rightarrow> op_result \<times> syscall list" where
  "set_rlimit sys name limit hist = sys_check sys hist (SysSetrlimit name (rl_soft limit) (rl_hard limit))"

section \<open>The child-side sequence\<close>

record preexec_state =
  px_hist :: "syscall list"
  px_trace :: "(string \<times> op_result) list"
  px_diagnostics :: "(string \<times> string) list"

definition px_init :: preexec_state where
  "px_init = \<lparr>px_hist = [], px_trace = [], px_diagnostics = []\<rparr>"

type_synonym px_step = "preexec_state \<Rightarrow> (iso_error \<times> preexec_state, preexec_state) result"

definition iso_apply ::
  "isolation_spec \<Rightarrow> string \<Rightarrow> (syscall list \<Rightarrow> op_result \<times> syscall list) \<Rightarrow> preexec_state \<Rightarrow>
     (iso_error \<times> preexec_state, bool \<times> preexec_state) result" where
  "iso_apply spec label operation st =
     (let (r, hist) = operation (px_hist st);
          st' = st\<lparr>px_hist := hist, px_trace := px_trace st @ [(label, r)]\<rparr>;
          note = (\<lambda>d. st'\<lparr>px_diagnostics := px_diagnostics st' @ [(d, label)]\<rparr>) in
      case r of
        OpOk \<Rightarrow> Inr (True, st')
      | OpPartial \<Rightarrow> Inl (PartialIsolationError label, note ''aborting'')
      | OpFail \<Rightarrow>
          if iso_failure spec = FAIL_CLOSED
          then Inl (IsolationUnavailable label, note ''aborting'')
          else Inr (False, note ''best-effort skipped''))"

definition iso_apply_step :: "isolation_spec \<Rightarrow> string \<Rightarrow> (syscall list \<Rightarrow> op_result \<times> syscall list) \<Rightarrow> px_step" where
  "iso_apply_step spec label operation st = rbind (iso_apply spec label operation st) (\<lambda>(_, st). Inr st)"

definition px_when :: "bool \<Rightarrow> px_step \<Rightarrow> px_step" where
  "px_when c f st = (if c then f st else Inr st)"

definition preexec_namespace :: "isolation_spec \<Rightarrow> syscalls \<Rightarrow> string \<Rightarrow> px_step" where
  "preexec_namespace spec sys ns st =
     (if ns = ''user'' \<or> ns \<notin> set (iso_namespaces spec) then Inr st
      else rbind (iso_apply spec (''namespace:'' @ ns) (backend_unshare sys ns) st)
        (\<lambda>(entered, st).
           if ns = ''mount'' \<and> entered
           then iso_apply_step spec ''mount-propagation-private'' (make_mounts_private sys) st
           else Inr st))"

fun px_each :: "('a \<Rightarrow> px_step) \<Rightarrow> 'a list \<Rightarrow> px_step" where
  "px_each f [] st = Inr st"
| "px_each f (x # xs) st = rbind (f x st) (px_each f xs)"

definition preexec_call :: "isolation_spec \<Rightarrow> syscalls \<Rightarrow> int \<Rightarrow> int \<Rightarrow> px_step" where
  "preexec_call spec sys uid gid st =
     rbind (px_when (''user'' \<in> set (iso_namespaces spec))
              (iso_apply_step spec ''namespace:user'' (enter_user_namespace sys uid gid)) st)
     (\<lambda>st. rbind (px_each (preexec_namespace spec sys) NAMESPACE_ORDER st)
     (\<lambda>st. rbind (px_when (iso_no_new_privs spec)
              (iso_apply_step spec ''no_new_privs'' (set_no_new_privs sys)) st)
     (\<lambda>st. rbind (case iso_dumpable spec of
                None \<Rightarrow> Inr st
              | Some b \<Rightarrow> iso_apply_step spec ''dumpable'' (set_dumpable sys b) st)
     (\<lambda>st. px_each (\<lambda>(name, limit). iso_apply_step spec (''rlimit:'' @ name) (set_rlimit sys name limit))
              (sort_key fst (iso_rlimits spec)) st))))"

section \<open>Launch plans\<close>

record isolation_launch_plan =
  plan_argv :: "string list"
  plan_preexec :: "isolation_spec option"
  plan_spec :: isolation_spec
  plan_effective :: isolation_spec
  plan_skipped :: "string list"
  plan_seccomp_helper :: "string option"

definition plan_summary :: "isolation_launch_plan \<Rightarrow> json" where
  "plan_summary p =
     JObj
      [(''profile'', JStr (iso_profile (plan_spec p))),
       (''failure'', JStr (iso_failure (plan_spec p))),
       (''requested'', JBool (isolation_requested (plan_spec p))),
       (''namespaces'', json_strings (iso_namespaces (plan_effective p))),
       (''no_new_privs'', JBool (iso_no_new_privs (plan_effective p))),
       (''dumpable'', json_opt_bool (iso_dumpable (plan_effective p))),
       (''rlimits'', json_rlimits (iso_rlimits (plan_effective p))),
       (''seccomp'', JObj
          [(''mode'', JStr (sc_mode (iso_seccomp (plan_effective p)))),
           (''profile'', JStr (sc_profile (iso_seccomp (plan_effective p)))),
           (''helper'', json_opt_str (plan_seccomp_helper p))]),
       (''degraded'', JBool (plan_skipped p \<noteq> [])),
       (''skipped'', json_strings (plan_skipped p)),
       (''security_boundary'', JStr ''partial-not-a-filesystem-sandbox'')]"

definition plan_environment :: "isolation_launch_plan \<Rightarrow> (string, string) dict" where
  "plan_environment p =
     [(''MSYS_ISOLATION_PROFILE'', iso_profile (plan_spec p)),
      (''MSYS_ISOLATION_FAILURE_POLICY'', iso_failure (plan_spec p)),
      (''MSYS_ISOLATION_DEGRADED'', if plan_skipped p \<noteq> [] then ''1'' else ''0''),
      (''MSYS_ISOLATION_JSON'', json_dumps (plan_summary p))]"

definition iso_unavailable ::
  "isolation_spec \<Rightarrow> string \<Rightarrow> string list \<Rightarrow> (iso_error, string list) result" where
  "iso_unavailable spec feature skipped =
     (if iso_failure spec = FAIL_CLOSED then Inl (IsolationUnavailable feature)
      else Inr (skipped @ [feature]))"

text \<open>The two loops of the preflight: keep what is available, hand the rest to the policy.\<close>

fun keep_available ::
  "isolation_spec \<Rightarrow> ('a \<Rightarrow> bool) \<Rightarrow> ('a \<Rightarrow> string) \<Rightarrow> 'a list \<Rightarrow> string list \<Rightarrow>
     (iso_error, 'a list \<times> string list) result" where
  "keep_available spec available label [] skipped = Inr ([], skipped)"
| "keep_available spec available label (x # xs) skipped =
     (if available x then
        rbind (keep_available spec available label xs skipped) (\<lambda>(ys, sk). Inr (x # ys, sk))
      else rbind (iso_unavailable spec (label x) skipped) (keep_available spec available label xs))"

definition keep_flag ::
  "isolation_spec \<Rightarrow> bool \<Rightarrow> bool \<Rightarrow> string \<Rightarrow> 'a \<Rightarrow> 'a \<Rightarrow> string list \<Rightarrow> (iso_error, 'a \<times> string list) result" where
  "keep_flag spec wanted available feature off v skipped =
     (if wanted \<and> \<not> available
      then rbind (iso_unavailable spec feature skipped) (\<lambda>sk. Inr (off, sk))
      else Inr (v, skipped))"

definition prepare_seccomp ::
  "isolation_capabilities \<Rightarrow> isolation_spec \<Rightarrow> string list \<Rightarrow> string list \<Rightarrow>
     (iso_error, (seccomp_spec \<times> string option \<times> string list) \<times> string list) result" where
  "prepare_seccomp caps spec argv skipped =
     (let helper = cap_seccomp_helper caps in
      if sc_mode (iso_seccomp spec) = ''helper'' then
        (if \<not> cap_linux caps \<or> helper = None then
           rbind (iso_unavailable spec ''seccomp:helper'' skipped)
             (\<lambda>sk. Inr ((SeccompSpec, None, argv), sk))
         else Inr ((iso_seccomp spec, helper,
                    [the helper, ''--profile'', sc_profile (iso_seccomp spec), ''--''] @ argv), skipped))
      else Inr ((iso_seccomp spec, helper, argv), skipped))"

definition prepare_isolation_launch ::
  "isolation_capabilities \<Rightarrow> isolation_spec \<Rightarrow> string list \<Rightarrow> (iso_error, isolation_launch_plan) result" where
  "prepare_isolation_launch caps spec argv =
     rbind (keep_available spec
              (\<lambda>n. cap_linux caps \<and> cap_unshare caps \<and> n \<in> set (cap_namespaces caps))
              (\<lambda>n. ''namespace:'' @ n) (iso_namespaces spec) [])
     (\<lambda>(namespaces, skipped).
     rbind (keep_flag spec (iso_no_new_privs spec) (cap_linux caps \<and> cap_prctl caps)
              ''no_new_privs'' False (iso_no_new_privs spec) skipped)
     (\<lambda>(no_new_privs, skipped).
     rbind (keep_flag spec (iso_dumpable spec \<noteq> None) (cap_linux caps \<and> cap_prctl caps)
              ''dumpable'' None (iso_dumpable spec) skipped)
     (\<lambda>(dumpable, skipped).
     rbind (keep_available spec
              (\<lambda>(n, _). cap_linux caps \<and> n \<in> set (cap_rlimits caps))
              (\<lambda>(n, _). ''rlimit:'' @ n) (iso_rlimits spec) skipped)
     (\<lambda>(limits, skipped).
     rbind (prepare_seccomp caps spec argv skipped)
     (\<lambda>((seccomp, helper, launch_argv), skipped).
       let effective = spec\<lparr>iso_namespaces := namespaces, iso_no_new_privs := no_new_privs,
                            iso_dumpable := dumpable, iso_rlimits := limits, iso_seccomp := seccomp\<rparr>;
           needs_preexec = namespaces \<noteq> [] \<or> no_new_privs \<or> dumpable \<noteq> None \<or> limits \<noteq> [] in
       Inr \<lparr>plan_argv = launch_argv,
            plan_preexec = (if needs_preexec then Some effective else None),
            plan_spec = spec, plan_effective = effective, plan_skipped = skipped,
            plan_seccomp_helper = (if sc_mode seccomp = ''helper'' then helper else None)\<rparr>)))))"

section \<open>Well-formed declarations\<close>

definition rlimit_wf :: "string \<times> rlimit_spec \<Rightarrow> bool" where
  "rlimit_wf nl \<longleftrightarrow> fst nl \<in> set RLIMIT_RESOURCES \<and> 0 \<le> rl_soft (snd nl) \<and> rl_soft (snd nl) \<le> rl_hard (snd nl)"

definition seccomp_wf :: "seccomp_spec \<Rightarrow> bool" where
  "seccomp_wf s \<longleftrightarrow> sc_mode s \<in> {''off'', ''helper''} \<and> fullmatch seccomp_profile_rx (sc_profile s)"

definition isolation_wf :: "isolation_spec \<Rightarrow> bool" where
  "isolation_wf s \<longleftrightarrow>
     iso_profile s \<in> fst ` set PROFILE_DEFAULTS \<and>
     iso_failure s \<in> set FAILURE_POLICIES \<and>
     distinct (iso_namespaces s) \<and> set (iso_namespaces s) \<subseteq> set NAMESPACE_ORDER \<and>
     dict_wf (iso_rlimits s) \<and> list_all rlimit_wf (iso_rlimits s) \<and>
     seccomp_wf (iso_seccomp s) \<and>
     (sc_mode (iso_seccomp s) = ''helper'' \<longrightarrow> iso_no_new_privs s)"

lemma limit_value_nonneg: "limit_value v ctx = Inr i \<Longrightarrow> v = JInt i \<and> 0 \<le> i"
  by (auto simp: limit_value_def split: json.splits if_splits)

lemma parse_rlimit_wf: "parse_rlimit name v = Inr l \<Longrightarrow> rlimit_wf (name, l)"
  by (auto simp: parse_rlimit_def rlimit_wf_def Let_def result_simps dest!: limit_value_nonneg
      split: json.splits if_splits)

lemma seccomp_default_profile: "fullmatch seccomp_profile_rx ''default''"
  by code_simp

lemma parse_seccomp_wf: "parse_seccomp v = Inr s \<Longrightarrow> seccomp_wf s"
  by (auto simp: parse_seccomp_def seccomp_wf_def SeccompSpec_def Let_def seccomp_default_profile
      split: json.splits if_splits)

interpretation rlimit_parser: checked_parser
  "\<lambda>(name, limit). rbind (parse_rlimit name limit) (\<lambda>l. Inr (name, l))" rlimit_wf
  by unfold_locales (auto simp: result_simps parse_rlimit_wf)

interpretation seccomp_parser: checked_parser parse_seccomp seccomp_wf
  by unfold_locales (rule parse_seccomp_wf)

lemma parse_namespaces_wf:
  "parse_namespaces v = Inr ns \<Longrightarrow> distinct ns \<and> set ns \<subseteq> set NAMESPACE_ORDER"
  by (auto simp: parse_namespaces_def Let_def dict_has_def NAMESPACE_FLAGS_def NAMESPACE_ORDER_def
      filter_empty_conv split: json.splits if_splits)

lemma merge_limits_wf: "dict_wf d \<Longrightarrow> dict_wf (merge_limits d e)"
  by (induction d e rule: merge_limits.induct) auto

lemma parse_rlimits_wf:
  assumes "dict_wf defaults" and "parse_rlimits defaults v = Inr ls"
  shows "dict_wf ls \<and> list_all rlimit_wf ls"
proof -
  from assms(2) obtain d where t: "traverse (\<lambda>(name, limit). rbind (parse_rlimit name limit) (\<lambda>l. Inr (name, l)))
      (merge_limits defaults d) = Inr ls"
    by (auto simp: parse_rlimits_def split: json.splits)
  have "dict_wf ls"
    using traverse_keys [OF _ t] merge_limits_wf [OF assms(1), of d] by (auto simp: dict_wf_def result_simps)
  then show ?thesis using rlimit_parser.traverse_wf [OF t] by simp
qed

lemma profile_default_limits_wf:
  "map_of PROFILE_DEFAULTS p = Some d \<Longrightarrow> dict_wf (jobj_of (jget_or d ''rlimits'' (JObj [])))"
  by (auto simp: PROFILE_DEFAULTS_def jget_or_def jobj_of_def dict_wf_def split: if_splits)

lemma parse_isolation_object_InrE:
  assumes "parse_isolation_object raw = Inr s"
  obtains d where
    "map_of PROFILE_DEFAULTS (iso_profile s) = Some d" and
    "iso_failure s = py_str (jget_or raw ''failure'' (JStr FAIL_CLOSED))" and
    "iso_failure s \<in> set FAILURE_POLICIES" and
    "parse_namespaces (jget_or raw ''namespaces'' (jget_or d ''namespaces'' (JList []))) = Inr (iso_namespaces s)" and
    "parse_rlimits (jobj_of (jget_or d ''rlimits'' (JObj []))) (jget_or raw ''rlimits'' (JObj [])) = Inr (iso_rlimits s)" and
    "parse_seccomp (jget_or raw ''seccomp'' (jget_or d ''seccomp'' (JStr ''off''))) = Inr (iso_seccomp s)" and
    "sc_mode (iso_seccomp s) = ''helper'' \<longrightarrow> iso_no_new_privs s"
  using assms unfolding parse_isolation_object_def Let_def
  by (auto simp: result_simps split: if_splits option.splits)

lemma parse_isolation_object_wf:
  assumes "parse_isolation_object raw = Inr s"
  shows "isolation_wf s"
  using assms
proof (rule parse_isolation_object_InrE)
  fix d
  assume d: "map_of PROFILE_DEFAULTS (iso_profile s) = Some d"
    and f: "iso_failure s \<in> set FAILURE_POLICIES"
    and n: "parse_namespaces (jget_or raw ''namespaces'' (jget_or d ''namespaces'' (JList []))) = Inr (iso_namespaces s)"
    and l: "parse_rlimits (jobj_of (jget_or d ''rlimits'' (JObj []))) (jget_or raw ''rlimits'' (JObj [])) = Inr (iso_rlimits s)"
    and c: "parse_seccomp (jget_or raw ''seccomp'' (jget_or d ''seccomp'' (JStr ''off''))) = Inr (iso_seccomp s)"
    and h: "sc_mode (iso_seccomp s) = ''helper'' \<longrightarrow> iso_no_new_privs s"
  have "iso_profile s \<in> fst ` set PROFILE_DEFAULTS" using map_of_SomeD [OF d] by force
  then show ?thesis
    unfolding isolation_wf_def
    using f parse_namespaces_wf [OF n] h parse_seccomp_wf [OF c]
      parse_rlimits_wf [OF profile_default_limits_wf [OF d] l] by blast
qed

lemma IsolationSpec_wf: "isolation_wf IsolationSpec"
  by code_simp

text \<open>
  C32. Whatever JSON value a component declares, parsing either raises or yields a well-formed
  specification: a known profile and policy, distinct supported namespaces, supported limits with
  \<open>0 \<le> soft \<le> hard\<close>, a well-formed helper profile, and no helper without \<open>no_new_privs\<close>.
\<close>

theorem parse_isolation_sound: "parse_isolation v = Inr s \<Longrightarrow> isolation_wf s"
  by (auto simp: parse_isolation_def parse_isolation_object_wf IsolationSpec_wf split: json.splits)

theorem parse_isolation_sound_witness:
  "isolation_wf (projr (parse_isolation (JStr ''baseline'')))"
proof (rule parse_isolation_sound [of "JStr ''baseline''"])
  show "parse_isolation (JStr ''baseline'') = Inr (projr (parse_isolation (JStr ''baseline'')))"
    by code_simp
qed

text \<open>
  Opting in never weakens the policy silently: a declaration that omits \<open>failure\<close> is parsed
  as fail-closed, while a component without a declaration stays best-effort with nothing requested.
\<close>

lemma parse_isolation_default_policy:
  assumes "\<not> dict_has raw ''failure''"
  shows "(parse_isolation (JObj raw) = Inr s \<longrightarrow> iso_failure s = FAIL_CLOSED) \<and>
    parse_isolation JNull = Inr IsolationSpec \<and> \<not> isolation_requested IsolationSpec"
proof (intro conjI impI)
  assume "parse_isolation (JObj raw) = Inr s"
  then show "iso_failure s = FAIL_CLOSED"
    using assms
    by (auto simp: parse_isolation_def dict_has_def jget_or_def elim!: parse_isolation_object_InrE)
qed (simp_all add: parse_isolation_def isolation_requested_def IsolationSpec_def SeccompSpec_def)

section \<open>Launch plans keep the policy\<close>

text \<open>Under fail-closed a stage either goes on unchanged or reports the first missing feature.\<close>

definition refuse :: "string list \<Rightarrow> (iso_error, 'a) result \<Rightarrow> (iso_error, 'a) result" where
  "refuse missing r = (if missing = [] then r else Inl (IsolationUnavailable (hd missing)))"

lemma refuse_simps:
  "rbind (refuse m r) k = refuse m (rbind r k)"
  "refuse m (refuse m' r) = refuse (m @ m') r"
  by (auto simp: refuse_def hd_append)

lemma keep_available_fail_closed:
  assumes "iso_failure spec = FAIL_CLOSED"
  shows "keep_available spec av label xs sk = refuse (map label (filter (\<lambda>x. \<not> av x) xs)) (Inr (xs, sk))"
  using assms by (induction xs) (auto simp: iso_unavailable_def refuse_def)

lemma keep_available_best_effort:
  assumes "iso_failure spec \<noteq> FAIL_CLOSED"
  shows "keep_available spec av label xs sk =
    Inr (filter av xs, sk @ map label (filter (\<lambda>x. \<not> av x) xs))"
  using assms by (induction xs arbitrary: sk) (auto simp: iso_unavailable_def)

lemma keep_flag_fail_closed:
  "iso_failure spec = FAIL_CLOSED \<Longrightarrow> keep_flag spec w av f off v sk =
     refuse (if w \<and> \<not> av then [f] else []) (Inr (v, sk))"
  by (simp add: keep_flag_def iso_unavailable_def refuse_def)

lemma prepare_seccomp_fail_closed:
  "iso_failure spec = FAIL_CLOSED \<Longrightarrow> \<exists>argv'. prepare_seccomp caps spec argv sk =
     refuse (if sc_mode (iso_seccomp spec) = ''helper'' \<and> \<not> (cap_linux caps \<and> cap_seccomp_helper caps \<noteq> None)
             then [''seccomp:helper''] else [])
       (Inr ((iso_seccomp spec, cap_seccomp_helper caps, argv'), sk))"
  by (auto simp: prepare_seccomp_def iso_unavailable_def refuse_def Let_def)

lemma keep_flag_best_effort:
  "iso_failure spec \<noteq> FAIL_CLOSED \<Longrightarrow> keep_flag spec w av f off v sk =
     Inr (if w \<and> \<not> av then off else v, sk @ (if w \<and> \<not> av then [f] else []))"
  by (simp add: keep_flag_def iso_unavailable_def)

lemma prepare_seccomp_best_effort:
  "iso_failure spec \<noteq> FAIL_CLOSED \<Longrightarrow> \<exists>sc helper argv'. (\<forall>sk. prepare_seccomp caps spec argv sk =
     Inr ((sc, helper, argv'), sk @
       (if sc_mode (iso_seccomp spec) = ''helper'' \<and> \<not> (cap_linux caps \<and> cap_seccomp_helper caps \<noteq> None)
        then [''seccomp:helper''] else []))) \<and>
     (sc_mode sc = ''helper'' \<longrightarrow> sc = iso_seccomp spec) \<and> suffix argv argv'"
  by (cases "sc_mode (iso_seccomp spec) = ''helper''")
    (auto simp: prepare_seccomp_def iso_unavailable_def SeccompSpec_def Let_def intro: suffix_ConsI)

text \<open>The features of a specification that a host cannot provide, in the order of the preflight.\<close>

definition missing_features :: "isolation_capabilities \<Rightarrow> isolation_spec \<Rightarrow> string list" where
  "missing_features caps spec =
     map (\<lambda>n. ''namespace:'' @ n)
       (filter (\<lambda>n. \<not> (cap_linux caps \<and> cap_unshare caps \<and> n \<in> set (cap_namespaces caps))) (iso_namespaces spec)) @
     (if iso_no_new_privs spec \<and> \<not> (cap_linux caps \<and> cap_prctl caps) then [''no_new_privs''] else []) @
     (if iso_dumpable spec \<noteq> None \<and> \<not> (cap_linux caps \<and> cap_prctl caps) then [''dumpable''] else []) @
     map (\<lambda>(n, _). ''rlimit:'' @ n)
       (filter (\<lambda>x. \<not> (case x of (n, _) \<Rightarrow> cap_linux caps \<and> n \<in> set (cap_rlimits caps))) (iso_rlimits spec)) @
     (if sc_mode (iso_seccomp spec) = ''helper'' \<and> \<not> (cap_linux caps \<and> cap_seccomp_helper caps \<noteq> None)
      then [''seccomp:helper''] else [])"

definition spec_le :: "isolation_spec \<Rightarrow> isolation_spec \<Rightarrow> bool" where
  "spec_le a b \<longleftrightarrow>
     iso_profile a = iso_profile b \<and> iso_failure a = iso_failure b \<and>
     subseq (iso_namespaces a) (iso_namespaces b) \<and>
     (iso_no_new_privs a \<longrightarrow> iso_no_new_privs b) \<and>
     (iso_dumpable a = None \<or> iso_dumpable a = iso_dumpable b) \<and>
     subseq (iso_rlimits a) (iso_rlimits b) \<and>
     (sc_mode (iso_seccomp a) = ''helper'' \<longrightarrow> iso_seccomp a = iso_seccomp b)"

text \<open>
  Under the fail-closed policy a launch is planned exactly when the host provides every
  requested feature, and then nothing is skipped and the effective isolation is the declared one;
  otherwise the first missing feature is reported as unavailable.
\<close>

lemma prepare_fail_closed:
  assumes "iso_failure spec = FAIL_CLOSED"
  shows "case missing_features caps spec of
      [] \<Rightarrow> \<exists>p. prepare_isolation_launch caps spec argv = Inr p \<and> plan_skipped p = [] \<and>
              plan_effective p = spec \<and> plan_spec p = spec
    | f # _ \<Rightarrow> prepare_isolation_launch caps spec argv = Inl (IsolationUnavailable f)"
proof -
  obtain argv' where sc: "prepare_seccomp caps spec argv [] =
      refuse (if sc_mode (iso_seccomp spec) = ''helper'' \<and> \<not> (cap_linux caps \<and> cap_seccomp_helper caps \<noteq> None)
              then [''seccomp:helper''] else [])
        (Inr ((iso_seccomp spec, cap_seccomp_helper caps, argv'), []))"
    using prepare_seccomp_fail_closed [OF assms] by blast
  have "\<exists>p. prepare_isolation_launch caps spec argv = refuse (missing_features caps spec) (Inr p) \<and>
      plan_skipped p = [] \<and> plan_effective p = spec \<and> plan_spec p = spec"
    unfolding prepare_isolation_launch_def missing_features_def Let_def
    unfolding keep_available_fail_closed [OF assms] keep_flag_fail_closed [OF assms] refuse_simps
      rbind_simps prod.case sc append_assoc
    by (rule exI, rule conjI, rule refl) simp
  then show ?thesis by (auto simp: refuse_def split: list.splits)
qed

text \<open>
  Under the best-effort policy planning never raises: the plan skips exactly the missing
  features, in order, the effective isolation is a part of the declared one, and the child runs
  the effective isolation whenever anything is left to apply.
\<close>

lemma prepare_best_effort:
  assumes "iso_failure spec \<noteq> FAIL_CLOSED"
  shows "\<exists>p. prepare_isolation_launch caps spec argv = Inr p \<and>
      plan_skipped p = missing_features caps spec \<and> spec_le (plan_effective p) spec \<and>
      (plan_preexec p = None \<or> plan_preexec p = Some (plan_effective p)) \<and>
      suffix argv (plan_argv p)"
proof -
  obtain sc helper argv' where
    sc: "\<And>sk. prepare_seccomp caps spec argv sk = Inr ((sc, helper, argv'), sk @
      (if sc_mode (iso_seccomp spec) = ''helper'' \<and> \<not> (cap_linux caps \<and> cap_seccomp_helper caps \<noteq> None)
       then [''seccomp:helper''] else []))"
    and le: "sc_mode sc = ''helper'' \<longrightarrow> sc = iso_seccomp spec" and pre: "suffix argv argv'"
    using prepare_seccomp_best_effort [OF assms, of caps argv] by blast
  show ?thesis
    unfolding prepare_isolation_launch_def missing_features_def Let_def
    unfolding keep_available_best_effort [OF assms] keep_flag_best_effort [OF assms] sc
      rbind_simps prod.case append_assoc append_Nil
    by (rule exI, rule conjI, rule refl) (use le pre in \<open>simp add: spec_le_def\<close>)
qed

text \<open>
  C38. The parser rejects a seccomp helper without \<open>no_new_privs\<close>, but degrading a best-effort
  launch can produce exactly that combination: on a host whose libc lacks \<open>prctl\<close> the plan drops
  \<open>no_new_privs\<close> and still runs the program under the helper.
\<close>

theorem degraded_plan_keeps_helper:
  "\<exists>v caps s p. parse_isolation v = Inr s \<and> isolation_wf s \<and>
     prepare_isolation_launch caps s argv = Inr p \<and>
     sc_mode (iso_seccomp (plan_effective p)) = ''helper'' \<and>
     \<not> iso_no_new_privs (plan_effective p) \<and> \<not> isolation_wf (plan_effective p)"
proof -
  let ?v = "JObj [(''profile'', JStr ''baseline''), (''failure'', JStr ''best-effort''), (''seccomp'', JStr ''helper'')]"
  let ?caps = "\<lparr>cap_linux = True, cap_prctl = False, cap_unshare = True, cap_namespaces = [],
               cap_rlimits = RLIMIT_RESOURCES, cap_seccomp_helper = Some ''/h''\<rparr>"
  let ?s = "projr (parse_isolation ?v)"
  have s: "parse_isolation ?v = Inr ?s" by code_simp
  have w: "isolation_wf ?s" by code_simp
  have f: "iso_failure ?s \<noteq> FAIL_CLOSED" and n: "sc_mode (iso_seccomp ?s) = ''helper''" by code_simp+
  obtain p where p: "prepare_isolation_launch ?caps ?s argv = Inr p"
      "sc_mode (iso_seccomp (plan_effective p)) = ''helper''" "\<not> iso_no_new_privs (plan_effective p)"
    using f n
    by (simp add: prepare_isolation_launch_def prepare_seccomp_def keep_available_best_effort
        keep_flag_best_effort Let_def)
  then have "\<not> isolation_wf (plan_effective p)" by (simp add: isolation_wf_def)
  with s w p show ?thesis by blast
qed

section \<open>The child applies the plan in order\<close>

text \<open>The labels of the steps a specification asks for, in the order of \<open>__call__\<close>.\<close>

definition namespace_labels :: "isolation_spec \<Rightarrow> string \<Rightarrow> string list" where
  "namespace_labels spec ns =
     (if ns = ''user'' \<or> ns \<notin> set (iso_namespaces spec) then []
      else (''namespace:'' @ ns) # (if ns = ''mount'' then [''mount-propagation-private''] else []))"

definition preexec_labels :: "isolation_spec \<Rightarrow> string list" where
  "preexec_labels spec =
     (if ''user'' \<in> set (iso_namespaces spec) then [''namespace:user''] else []) @
     concat (map (namespace_labels spec) NAMESPACE_ORDER) @
     (if iso_no_new_privs spec then [''no_new_privs''] else []) @
     (case iso_dumpable spec of None \<Rightarrow> [] | Some _ \<Rightarrow> [''dumpable'']) @
     map (\<lambda>(n, _). ''rlimit:'' @ n) (sort_key fst (iso_rlimits spec))"

definition px_tolerated :: "isolation_spec \<Rightarrow> string \<times> op_result \<Rightarrow> bool" where
  "px_tolerated spec lr \<longleftrightarrow> snd lr = OpOk \<or> snd lr = OpFail \<and> iso_failure spec \<noteq> FAIL_CLOSED"

text \<open>The contract of a part of the sequence that is asked to run the steps \<open>ls\<close>.\<close>

definition px_runs :: "isolation_spec \<Rightarrow> px_step \<Rightarrow> string list \<Rightarrow> bool" where
  "px_runs spec f ls \<longleftrightarrow> (\<forall>st. case f st of
       Inr st' \<Rightarrow> \<exists>es. px_trace st' = px_trace st @ es \<and> list_all (px_tolerated spec) es \<and>
         subseq (map fst es) ls \<and> (iso_failure spec = FAIL_CLOSED \<longrightarrow> map fst es = ls)
     | Inl (e, st') \<Rightarrow> \<exists>es l r. px_trace st' = px_trace st @ es @ [(l, r)] \<and> list_all (px_tolerated spec) es \<and>
         subseq (map fst es @ [l]) ls \<and>
         (r = OpPartial \<and> l = ''namespace:user'' \<and> e = PartialIsolationError l \<or>
          r = OpFail \<and> iso_failure spec = FAIL_CLOSED \<and> e = IsolationUnavailable l))"

lemma px_runs_skip: "px_runs spec Inr []"
  by (simp add: px_runs_def)

lemma px_runsI:
  assumes "\<And>st st'. f st = Inr st' \<Longrightarrow> \<exists>es. px_trace st' = px_trace st @ es \<and> list_all (px_tolerated spec) es \<and>
      subseq (map fst es) ls \<and> (iso_failure spec = FAIL_CLOSED \<longrightarrow> map fst es = ls)"
    and "\<And>st st' e. f st = Inl (e, st') \<Longrightarrow> \<exists>es l r. px_trace st' = px_trace st @ es @ [(l, r)] \<and>
      list_all (px_tolerated spec) es \<and> subseq (map fst es @ [l]) ls \<and>
      (r = OpPartial \<and> l = ''namespace:user'' \<and> e = PartialIsolationError l \<or>
       r = OpFail \<and> iso_failure spec = FAIL_CLOSED \<and> e = IsolationUnavailable l)"
  shows "px_runs spec f ls"
  unfolding px_runs_def using assms by (simp split: sum.split prod.split)

lemma px_runs_InrD:
  assumes "px_runs spec f ls" and "f st = Inr st'"
  obtains es where "px_trace st' = px_trace st @ es" "list_all (px_tolerated spec) es"
    "subseq (map fst es) ls" "iso_failure spec = FAIL_CLOSED \<longrightarrow> map fst es = ls"
  using assms(1) [unfolded px_runs_def, rule_format, of st] assms(2) by auto

lemma px_runs_InlD:
  assumes "px_runs spec f ls" and "f st = Inl (e, st')"
  obtains es l r where "px_trace st' = px_trace st @ es @ [(l, r)]" "list_all (px_tolerated spec) es"
    "subseq (map fst es @ [l]) ls"
    "r = OpPartial \<and> l = ''namespace:user'' \<and> e = PartialIsolationError l \<or>
     r = OpFail \<and> iso_failure spec = FAIL_CLOSED \<and> e = IsolationUnavailable l"
  using assms(1) [unfolded px_runs_def, rule_format, of st] assms(2) by auto

lemma px_runs_seq:
  assumes f: "px_runs spec f ls" and g: "px_runs spec g ks"
  shows "px_runs spec (\<lambda>st. rbind (f st) g) (ls @ ks)"
proof (rule px_runsI)
  fix st st'
  assume "rbind (f st) g = Inr st'"
  then obtain m where m: "f st = Inr m" "g m = Inr st'" by (auto simp: result_simps)
  from px_runs_InrD [OF f m(1)] obtain es where es: "px_trace m = px_trace st @ es"
    "list_all (px_tolerated spec) es" "subseq (map fst es) ls" "iso_failure spec = FAIL_CLOSED \<longrightarrow> map fst es = ls" .
  from px_runs_InrD [OF g m(2)] obtain fs where "px_trace st' = px_trace m @ fs"
    "list_all (px_tolerated spec) fs" "subseq (map fst fs) ks" "iso_failure spec = FAIL_CLOSED \<longrightarrow> map fst fs = ks" .
  with es show "\<exists>es. px_trace st' = px_trace st @ es \<and> list_all (px_tolerated spec) es \<and>
      subseq (map fst es) (ls @ ks) \<and> (iso_failure spec = FAIL_CLOSED \<longrightarrow> map fst es = ls @ ks)"
    by (intro exI [of _ "es @ fs"]) (auto intro: list_emb_append_mono)
next
  fix st st' e
  assume "rbind (f st) g = Inl (e, st')"
  then consider "f st = Inl (e, st')" | m where "f st = Inr m" "g m = Inl (e, st')"
    by (auto simp: result_simps)
  then show "\<exists>es l r. px_trace st' = px_trace st @ es @ [(l, r)] \<and> list_all (px_tolerated spec) es \<and>
      subseq (map fst es @ [l]) (ls @ ks) \<and>
      (r = OpPartial \<and> l = ''namespace:user'' \<and> e = PartialIsolationError l \<or>
       r = OpFail \<and> iso_failure spec = FAIL_CLOSED \<and> e = IsolationUnavailable l)"
  proof cases
    case 1
    from px_runs_InlD [OF f 1] obtain es l r where "px_trace st' = px_trace st @ es @ [(l, r)]"
      "list_all (px_tolerated spec) es" "subseq (map fst es @ [l]) ls"
      "r = OpPartial \<and> l = ''namespace:user'' \<and> e = PartialIsolationError l \<or>
       r = OpFail \<and> iso_failure spec = FAIL_CLOSED \<and> e = IsolationUnavailable l" .
    then show ?thesis by (intro exI [of _ es] exI [of _ l] exI [of _ r]) (simp add: subseq_rev_drop_many)
  next
    case 2
    from px_runs_InrD [OF f 2(1)] obtain es where es: "px_trace m = px_trace st @ es"
      "list_all (px_tolerated spec) es" "subseq (map fst es) ls" .
    from px_runs_InlD [OF g 2(2)] obtain fs l r where "px_trace st' = px_trace m @ fs @ [(l, r)]"
      "list_all (px_tolerated spec) fs" "subseq (map fst fs @ [l]) ks"
      "r = OpPartial \<and> l = ''namespace:user'' \<and> e = PartialIsolationError l \<or>
       r = OpFail \<and> iso_failure spec = FAIL_CLOSED \<and> e = IsolationUnavailable l" .
    with es show ?thesis
      by (intro exI [of _ "es @ fs"] exI [of _ l] exI [of _ r]) (auto intro: list_emb_append_mono)
  qed
qed

lemma iso_apply_cases:
  "iso_apply spec label op st = Inr (b, st') \<Longrightarrow>
     \<exists>r. px_trace st' = px_trace st @ [(label, r)] \<and> px_tolerated spec (label, r) \<and> (b \<longleftrightarrow> r = OpOk)"
  "iso_apply spec label op st = Inl (e, st') \<Longrightarrow>
     \<exists>r. px_trace st' = px_trace st @ [(label, r)] \<and>
       (r = OpPartial \<and> fst (op (px_hist st)) = OpPartial \<and> e = PartialIsolationError label \<or>
        r = OpFail \<and> iso_failure spec = FAIL_CLOSED \<and> e = IsolationUnavailable label)"
  by (auto simp: iso_apply_def px_tolerated_def Let_def split: prod.splits op_result.splits if_splits)

lemma px_runs_apply:
  assumes "\<And>h. fst (op h) = OpPartial \<Longrightarrow> label = ''namespace:user''"
  shows "px_runs spec (iso_apply_step spec label op) [label]"
proof (rule px_runsI)
  fix st st'
  assume "iso_apply_step spec label op st = Inr st'"
  then obtain b where "iso_apply spec label op st = Inr (b, st')"
    by (auto simp: iso_apply_step_def result_simps)
  from iso_apply_cases(1) [OF this] obtain r where
    "px_trace st' = px_trace st @ [(label, r)]" "px_tolerated spec (label, r)" by blast
  then show "\<exists>es. px_trace st' = px_trace st @ es \<and>
      list_all (px_tolerated spec) es \<and> subseq (map fst es) [label] \<and>
      (iso_failure spec = FAIL_CLOSED \<longrightarrow> map fst es = [label])"
    by (intro exI [of _ "[(label, r)]"]) simp
next
  fix st st' e
  assume "iso_apply_step spec label op st = Inl (e, st')"
  then have "iso_apply spec label op st = Inl (e, st')"
    by (auto simp: iso_apply_step_def result_simps)
  from iso_apply_cases(2) [OF this] assms show "\<exists>es l r. px_trace st' = px_trace st @ es @ [(l, r)] \<and>
      list_all (px_tolerated spec) es \<and> subseq (map fst es @ [l]) [label] \<and>
      (r = OpPartial \<and> l = ''namespace:user'' \<and> e = PartialIsolationError l \<or>
       r = OpFail \<and> iso_failure spec = FAIL_CLOSED \<and> e = IsolationUnavailable l)"
    by (intro exI [of _ "[]"] exI [of _ label]) auto
qed

lemma sys_check_no_partial [simp]: "fst (sys_check sys h c) \<noteq> OpPartial"
  by (simp add: sys_check_def)

text \<open>A follow-up step that runs only when the first one succeeded.\<close>

lemma px_runs_then_if:
  assumes op: "\<And>h. fst (op h) = OpPartial \<Longrightarrow> label = ''namespace:user''" and m: "px_runs spec m ks"
  shows "px_runs spec (\<lambda>st. rbind (iso_apply spec label op st) (\<lambda>(b, st). if b then m st else Inr st)) (label # ks)"
proof (rule px_runsI)
  fix st st'
  assume "rbind (iso_apply spec label op st) (\<lambda>(b, st). if b then m st else Inr st) = Inr st'"
  then obtain b s1 where s1: "iso_apply spec label op st = Inr (b, s1)"
    and b: "(if b then m s1 else Inr s1) = Inr st'" by (auto simp: result_simps)
  from iso_apply_cases(1) [OF s1] obtain r where r: "px_trace s1 = px_trace st @ [(label, r)]"
    "px_tolerated spec (label, r)" "b \<longleftrightarrow> r = OpOk" by blast
  show "\<exists>es. px_trace st' = px_trace st @ es \<and> list_all (px_tolerated spec) es \<and>
      subseq (map fst es) (label # ks) \<and> (iso_failure spec = FAIL_CLOSED \<longrightarrow> map fst es = label # ks)"
  proof (cases b)
    case True
    with b have "m s1 = Inr st'" by simp
    from px_runs_InrD [OF m this] obtain es where "px_trace st' = px_trace s1 @ es"
      "list_all (px_tolerated spec) es" "subseq (map fst es) ks"
      "iso_failure spec = FAIL_CLOSED \<longrightarrow> map fst es = ks" .
    with r show ?thesis by (intro exI [of _ "(label, r) # es"]) simp
  next
    case False
    with b r show ?thesis by (intro exI [of _ "[(label, r)]"]) (auto simp: px_tolerated_def)
  qed
next
  fix st st' e
  assume "rbind (iso_apply spec label op st) (\<lambda>(b, st). if b then m st else Inr st) = Inl (e, st')"
  then have "rbind (iso_apply_step spec label op st) m = Inl (e, st')"
    by (auto simp: iso_apply_step_def result_simps split: if_splits)
  from px_runs_InlD [OF px_runs_seq [OF px_runs_apply [of op label spec] m] this] op
  show "\<exists>es l r. px_trace st' = px_trace st @ es @ [(l, r)] \<and> list_all (px_tolerated spec) es \<and>
      subseq (map fst es @ [l]) (label # ks) \<and>
      (r = OpPartial \<and> l = ''namespace:user'' \<and> e = PartialIsolationError l \<or>
       r = OpFail \<and> iso_failure spec = FAIL_CLOSED \<and> e = IsolationUnavailable l)"
    by simp blast
qed

lemma px_runs_namespace: "px_runs spec (preexec_namespace spec sys ns) (namespace_labels spec ns)"
proof -
  let ?u = "iso_apply_step spec (''namespace:'' @ ns) (backend_unshare sys ns)"
  let ?m = "iso_apply_step spec ''mount-propagation-private'' (make_mounts_private sys)"
  have u: "px_runs spec ?u [''namespace:'' @ ns]"
    by (rule px_runs_apply) (simp add: backend_unshare_def)
  have m: "px_runs spec ?m [''mount-propagation-private'']"
    by (rule px_runs_apply) (simp add: make_mounts_private_def)
  consider "ns = ''user'' \<or> ns \<notin> set (iso_namespaces spec)"
    | "ns = ''mount''" "ns \<in> set (iso_namespaces spec)"
    | "ns \<noteq> ''user''" "ns \<noteq> ''mount''" "ns \<in> set (iso_namespaces spec)" by auto
  then show ?thesis
  proof cases
    case 1
    then have "preexec_namespace spec sys ns = Inr" by (auto simp: preexec_namespace_def fun_eq_iff)
    with 1 show ?thesis by (simp add: namespace_labels_def px_runs_skip)
  next
    case 2
    then have "preexec_namespace spec sys ns = (\<lambda>st. rbind (iso_apply spec (''namespace:'' @ ns)
        (backend_unshare sys ns) st) (\<lambda>(b, st). if b then ?m st else Inr st))"
      by (auto simp: preexec_namespace_def fun_eq_iff)
    moreover have "px_runs spec \<dots> ((''namespace:'' @ ns) # [''mount-propagation-private''])"
      by (rule px_runs_then_if [OF _ m]) (simp add: backend_unshare_def)
    ultimately show ?thesis using 2 by (simp add: namespace_labels_def)
  next
    case 3
    then have "preexec_namespace spec sys ns = ?u"
      by (auto simp: preexec_namespace_def iso_apply_step_def fun_eq_iff)
    with 3 u show ?thesis by (simp add: namespace_labels_def)
  qed
qed

lemma px_runs_each:
  "(\<And>x. px_runs spec (f x) (g x)) \<Longrightarrow> px_runs spec (px_each f xs) (concat (map g xs))"
proof (induction xs)
  case Nil
  have "px_each f [] = Inr" by (simp add: fun_eq_iff)
  then show ?case by (simp add: px_runs_skip)
next
  case (Cons x xs)
  have "px_each f (x # xs) = (\<lambda>st. rbind (f x st) (px_each f xs))" by (simp add: fun_eq_iff)
  with px_runs_seq [OF Cons.prems Cons.IH [OF Cons.prems]] show ?case by simp
qed

lemma px_runs_when: "px_runs spec f ls \<Longrightarrow> px_runs spec (px_when c f) (if c then ls else [])"
proof -
  have "px_when c f = (if c then f else Inr)" by (simp add: px_when_def fun_eq_iff)
  then show "px_runs spec f ls \<Longrightarrow> ?thesis" by (simp add: px_runs_skip)
qed

lemma px_runs_dumpable:
  "px_runs spec (\<lambda>st. case d of None \<Rightarrow> Inr st | Some b \<Rightarrow> iso_apply_step spec ''dumpable'' (set_dumpable sys b) st)
     (case d of None \<Rightarrow> [] | Some _ \<Rightarrow> [''dumpable''])"
  by (cases d) (auto intro!: px_runs_skip px_runs_apply simp: set_dumpable_def)

lemma px_runs_call: "px_runs spec (preexec_call spec sys uid gid) (preexec_labels spec)"
proof -
  have u: "px_runs spec (iso_apply_step spec ''namespace:user'' (enter_user_namespace sys uid gid)) [''namespace:user'']"
    by (rule px_runs_apply) simp
  have n: "px_runs spec (iso_apply_step spec ''no_new_privs'' (set_no_new_privs sys)) [''no_new_privs'']"
    by (rule px_runs_apply) (simp add: set_no_new_privs_def)
  have l: "px_runs spec (case x of (name, limit) \<Rightarrow> iso_apply_step spec (''rlimit:'' @ name) (set_rlimit sys name limit))
      [case x of (n, _) \<Rightarrow> ''rlimit:'' @ n]" for x
    by (cases x) (simp, rule px_runs_apply, simp add: set_rlimit_def)
  have c: "concat (map (\<lambda>x. [case x of (n, _) \<Rightarrow> ''rlimit:'' @ n]) xs) = map (\<lambda>(n, _). ''rlimit:'' @ n) xs" for xs :: "(string \<times> rlimit_spec) list"
    by (induction xs) auto
  have e: "px_runs spec (px_each (\<lambda>(name, limit). iso_apply_step spec (''rlimit:'' @ name) (set_rlimit sys name limit)) xs)
      (map (\<lambda>(n, _). ''rlimit:'' @ n) xs)" for xs
    unfolding c [symmetric] by (rule px_runs_each) (rule l)
  show ?thesis
    using px_runs_seq [OF px_runs_when [OF u] px_runs_seq [OF px_runs_each [OF px_runs_namespace]
        px_runs_seq [OF px_runs_when [OF n] px_runs_seq [OF px_runs_dumpable e]]]]
    unfolding preexec_call_def [abs_def] preexec_labels_def .
qed



end
