(* ===== verification/Manifest.thy ===== *)
theory Manifest
  imports Isolation
begin

text \<open>
  Package manifests (\<open>msys_core/manifest.py\<close>): the component model, the manifest decoder and the
  assembly of the component catalog from built-in, explicitly selected and installed packages.

  The file system is a parameter: \<open>read_json\<close> is the decoded content of a file (or the exception
  of reading it), the globs are given as the lists they yield.  A path is the list of its parts, so
  paths compare as \<open>pathlib\<close> compares them.  The catalog lemmas show that every loaded catalog maps
  a component's own global id to it, that its components are well formed, and that a package update
  replaces the whole component set of that package and nothing else.
\<close>

section \<open>Components\<close>

definition MIN_IDLE_TIMEOUT_MS :: int where "MIN_IDLE_TIMEOUT_MS = 1000"
definition MAX_IDLE_TIMEOUT_MS :: int where "MAX_IDLE_TIMEOUT_MS = 86400000"

type_synonym path = "string list"

record provide =
  pv_kind :: string
  pv_name :: string
  pv_exclusive :: bool
  pv_priority :: int

record component =
  c_package_id :: string
  c_package_version :: string
  c_package_kind :: string
  c_package_name :: string
  c_package_summary :: string
  c_package_i18n :: json
  c_package_icons :: "jobj list"
  c_id :: string
  c_exec :: "string list"
  c_lifecycle :: string
  c_runtime :: string
  c_restart :: string
  c_idle_timeout_ms :: "int option"
  c_cwd :: "string option"
  c_env :: "(string, string) dict"
  c_readiness_mode :: string
  c_readiness_timeout_ms :: int
  c_provides :: "provide list"
  c_requires :: "string list"
  c_wants :: "string list"
  c_after :: "string list"
  c_windowing :: jobj
  c_activation :: jobj
  c_permissions :: "string list"
  c_isolation :: isolation_spec
  c_raw :: jobj
  c_manifest_path :: "path option"

definition component_key :: "component \<Rightarrow> string" where
  "component_key c = c_package_id c @ '':'' @ c_id c"

datatype manifest_error =
    Raised py_error
  | IsolationRaised iso_error
  | NotManifest path
  | IsolationTwice path string
  | IdleTimeoutNotInteger path string
  | IdleTimeoutRange path string
  | IdleTimeoutLifecycle path string
  | DuplicateComponent string
  | NotAFile path

abbreviation lift :: "(py_error, 'a) result \<Rightarrow> (manifest_error, 'a) result" where
  "lift \<equiv> map_err Raised"

section \<open>Decoding\<close>

definition provide_of ::
  "string \<Rightarrow> bool \<Rightarrow> json \<Rightarrow> (manifest_error, provide) result" where
  "provide_of kind exclusive raw =
     rbind (lift (py_index raw kind)) (\<lambda>name.
     rbind (lift (py_get raw ''exclusive'' (JBool exclusive))) (\<lambda>excl.
     rbind (lift (py_get raw ''priority'' (JInt 0))) (\<lambda>prio.
     rbind (lift (py_int_of prio)) (\<lambda>p.
       Inr \<lparr>pv_kind = kind, pv_name = py_str name, pv_exclusive = py_bool excl, pv_priority = p\<rparr>))))"

text \<open>\<open>_provide\<close>: the first of the three kinds that occurs decides; only roles are exclusive by default.\<close>

definition provide_entry :: "json \<Rightarrow> (manifest_error, provide) result" where
  "provide_entry raw =
     rbind (lift (py_in ''role'' raw)) (\<lambda>r. if r then provide_of ''role'' True raw else
     rbind (lift (py_in ''interface'' raw)) (\<lambda>i. if i then provide_of ''interface'' False raw else
     rbind (lift (py_in ''capability'' raw)) (\<lambda>c. if c then provide_of ''capability'' False raw else
       Inl (Raised (ValueError (''unknown provide entry: '' @ py_repr raw))))))"

definition component_reference :: "string \<Rightarrow> json \<Rightarrow> string" where
  "component_reference package_id v =
     (let reference = py_str v in
      if CHR '':'' \<in> set reference then reference else package_id @ '':'' @ reference)"

definition idle_timeout :: "path \<Rightarrow> jobj \<Rightarrow> string \<Rightarrow> (manifest_error, int option) result" where
  "idle_timeout path raw lifecycle = (case jget raw ''idle_timeout_ms'' of
       None \<Rightarrow> Inr None
     | Some v \<Rightarrow>
         (let component_id = py_str (jget_or raw ''id'' (JStr [])) in
          case v of
            JInt i \<Rightarrow>
              if \<not> (MIN_IDLE_TIMEOUT_MS \<le> i \<and> i \<le> MAX_IDLE_TIMEOUT_MS) then
                Inl (IdleTimeoutRange path component_id)
              else if lifecycle \<noteq> ''on-demand'' then Inl (IdleTimeoutLifecycle path component_id)
              else Inr (Some i)
          | _ \<Rightarrow> Inl (IdleTimeoutNotInteger path component_id)))"

text \<open>The package fields every component of a manifest shares.\<close>

record package =
  p_id :: string
  p_version :: string
  p_kind :: string
  p_name :: string
  p_summary :: string
  p_i18n :: json
  p_fields :: json

definition load_package :: "json \<Rightarrow> (manifest_error, package) result" where
  "load_package pkg =
     rbind (lift (py_index pkg ''id'')) (\<lambda>pid.
     rbind (lift (py_get pkg ''version'' (JStr ''0.0.0''))) (\<lambda>version.
     rbind (lift (py_get pkg ''kind'' (JStr ''application''))) (\<lambda>kind.
     rbind (lift (py_get pkg ''name'' JNull)) (\<lambda>name.
     rbind (lift (py_get pkg ''summary'' (JStr []))) (\<lambda>summary.
     rbind (lift (py_get pkg ''x-msys-i18n'' JNull)) (\<lambda>i18n.
       Inr \<lparr>p_id = py_str pid, p_version = py_str version, p_kind = py_str kind,
            p_name = (if py_bool name then py_str name else py_str pid),
            p_summary = (if is_str summary then py_str summary else []),
            p_i18n = i18n, p_fields = pkg\<rparr>))))))"

definition iter_field :: "jobj \<Rightarrow> string \<Rightarrow> (manifest_error, json list) result" where
  "iter_field raw k = lift (py_iter (jget_or raw k (JList [])))"

definition load_component :: "path \<Rightarrow> package \<Rightarrow> json \<Rightarrow> (manifest_error, component) result" where
  "load_component path pkg rawv =
     rbind (lift (py_items rawv)) (\<lambda>raw.
     let readiness = jget_or raw ''readiness'' (JObj []);
         lifecycle = py_str (jget_or raw ''lifecycle'' (JStr ''manual'')) in
     if dict_has raw ''isolation'' \<and> dict_has raw ''x-msys-isolation'' then
       Inl (IsolationTwice path (py_str (jget_or raw ''id'' (JStr []))))
     else
     rbind (map_err IsolationRaised
              (parse_isolation (jget_or raw ''isolation'' (jget_null raw ''x-msys-isolation'')))) (\<lambda>isolation.
     rbind (rbind (lift (py_get (p_fields pkg) ''icons'' (JList []))) (\<lambda>v. lift (py_iter v))) (\<lambda>icons.
     rbind (lift (py_index rawv ''id'')) (\<lambda>cid.
     rbind (rbind (lift (py_index rawv ''exec'')) (\<lambda>v. lift (py_iter v))) (\<lambda>exec.
     rbind (idle_timeout path raw lifecycle) (\<lambda>idle.
     rbind (lift (py_items (jget_or raw ''env'' (JObj [])))) (\<lambda>env.
     rbind (lift (py_get readiness ''mode'' (JStr ''exec''))) (\<lambda>mode.
     rbind (rbind (lift (py_get readiness ''timeout_ms'' (JInt 5000))) (\<lambda>v. lift (py_int_of v))) (\<lambda>timeout.
     rbind (rbind (iter_field raw ''provides'') (traverse provide_entry)) (\<lambda>provides.
     rbind (iter_field raw ''requires'') (\<lambda>requires.
     rbind (iter_field raw ''wants'') (\<lambda>wants.
     rbind (iter_field raw ''after'') (\<lambda>after.
     rbind (lift (py_dict (jget_or raw ''windowing'' (JObj [])))) (\<lambda>windowing.
     rbind (lift (py_dict (jget_or raw ''activation'' (JObj [])))) (\<lambda>activation.
     rbind (iter_field raw ''permissions'') (\<lambda>permissions.
       Inr \<lparr>c_package_id = p_id pkg, c_package_version = p_version pkg,
            c_package_kind = p_kind pkg, c_package_name = p_name pkg,
            c_package_summary = p_summary pkg, c_package_i18n = p_i18n pkg,
            c_package_icons = concat (map (\<lambda>i. case i of JObj d \<Rightarrow> [d] | _ \<Rightarrow> []) icons),
            c_id = py_str cid, c_exec = map py_str exec, c_lifecycle = lifecycle,
            c_runtime = py_str (jget_or raw ''runtime'' (JStr ''custom'')),
            c_restart = py_str (jget_or raw ''restart'' (JStr ''never'')),
            c_idle_timeout_ms = idle,
            c_cwd = (if py_bool (jget_null raw ''cwd'') then Some (py_str (jget_null raw ''cwd'')) else None),
            c_env = map (\<lambda>(k, v). (k, py_str v)) env,
            c_readiness_mode = py_str mode, c_readiness_timeout_ms = timeout,
            c_provides = provides,
            c_requires = map (component_reference (p_id pkg)) requires,
            c_wants = map (component_reference (p_id pkg)) wants,
            c_after = map (component_reference (p_id pkg)) after,
            c_windowing = windowing, c_activation = activation,
            c_permissions = map py_str permissions,
            c_isolation = isolation, c_raw = raw, c_manifest_path = Some path\<rparr>))))))))))))))))"

definition load_manifest :: "path \<Rightarrow> json \<Rightarrow> (manifest_error, component list) result" where
  "load_manifest path doc =
     rbind (lift (py_get doc ''schema'' JNull)) (\<lambda>schema.
     if schema \<noteq> JStr ''msys.manifest.v1'' then Inl (NotManifest path)
     else
     rbind (lift (py_index doc ''package'')) (\<lambda>pkgv.
     rbind (load_package pkgv) (\<lambda>pkg.
     rbind (rbind (lift (py_get doc ''components'' (JList []))) (\<lambda>v. lift (py_iter v)))
       (traverse (load_component path pkg)))))"

section \<open>Catalogs\<close>

type_synonym catalog = "(string, component) dict"
type_synonym reader = "path \<Rightarrow> (manifest_error, json) result"

text \<open>One pass over the components of a manifest: a second component with the same id raises.\<close>

fun add_components :: "component list \<Rightarrow> catalog \<Rightarrow> (manifest_error, catalog) result" where
  "add_components [] cat = Inr cat"
| "add_components (c # cs) cat =
     (if dict_has cat (component_key c) then Inl (DuplicateComponent (component_key c))
      else add_components cs (AList.update (component_key c) c cat))"

fun add_manifests ::
  "(path \<Rightarrow> (manifest_error, component list) result) \<Rightarrow> path list \<Rightarrow> catalog \<Rightarrow> (manifest_error, catalog) result" where
  "add_manifests load [] cat = Inr cat"
| "add_manifests load (p # ps) cat =
     rbind (load p) (\<lambda>cs. rbind (add_components cs cat) (add_manifests load ps))"

definition load_manifest_file :: "reader \<Rightarrow> path \<Rightarrow> (manifest_error, component list) result" where
  "load_manifest_file read_json path = rbind (read_json path) (load_manifest path)"

definition load_manifests :: "reader \<Rightarrow> path list \<Rightarrow> path list \<Rightarrow> (manifest_error, catalog) result" where
  "load_manifests read_json glob_deep glob_flat =
     add_manifests (load_manifest_file read_json) (dedup (sort glob_deep @ sort glob_flat)) []"

definition load_manifest_paths ::
  "reader \<Rightarrow> (path \<Rightarrow> path) \<Rightarrow> (path \<Rightarrow> bool) \<Rightarrow> path list \<Rightarrow> (manifest_error, catalog) result" where
  "load_manifest_paths read_json resolve is_file paths =
     add_manifests
       (\<lambda>p. if \<not> is_file p then Inl (NotAFile p) else load_manifest_file read_json p)
       (dedup (map resolve paths)) []"

definition replace_package_components :: "catalog \<Rightarrow> catalog \<Rightarrow> catalog" where
  "replace_package_components base replacements =
     (let package_ids = c_package_id ` set (dict_values replacements);
          kept = filter (\<lambda>(_, c). c_package_id c \<notin> package_ids) base in
      dict_update kept replacements)"

subsection \<open>Installed packages\<close>

text \<open>\<open>pathlib.Path(s)\<close> and \<open>str(path)\<close> on a POSIX host.\<close>

definition path_root :: "string \<Rightarrow> string" where
  "path_root s =
     (if startswith s ''//'' \<and> \<not> startswith s ''///'' then ''//''
      else if startswith s ''/'' then ''/'' else [])"

definition path_of :: "string \<Rightarrow> path" where
  "path_of s = (if path_root s = [] then [] else [path_root s]) @
     filter (\<lambda>p. p \<noteq> [] \<and> p \<noteq> ''.'') (py_split CHR ''/'' s)"

definition path_str :: "path \<Rightarrow> string" where
  "path_str p = (case p of
       [] \<Rightarrow> ''.''
     | r # ps \<Rightarrow> if startswith r ''/'' then r @ py_join ''/'' ps else py_join ''/'' p)"

text \<open>\<open>path / s\<close>: an absolute \<open>s\<close> replaces the path.\<close>

definition path_join :: "path \<Rightarrow> string \<Rightarrow> path" where
  "path_join p s = (if path_root s \<noteq> [] then path_of s else p @ path_of s)"

text \<open>
  A pending install transaction hides the version it installed: the registered entry of that
  package is dropped and the entry to restore, if any, is put in its place.
\<close>

definition recover_packages :: "json \<Rightarrow> json \<Rightarrow> (py_error, json list) result" where
  "recover_packages transaction packages =
     rbind (py_get transaction ''schema'' JNull) (\<lambda>schema.
     rbind (if schema = JStr ''msys.install-transaction.v1'' then
              rbind (py_get transaction ''phase'' JNull) (\<lambda>phase. case phase of
                  JList _ \<Rightarrow> Inl TypeError
                | JObj _ \<Rightarrow> Inl TypeError
                | _ \<Rightarrow> Inr (phase \<in> {JStr ''health_pending'', JStr ''rolling_back''}))
            else Inr False) (\<lambda>pending.
     if pending then
       rbind (py_get transaction ''package'' (JStr [])) (\<lambda>pid.
       rbind (py_iter packages) (\<lambda>entries.
       rbind (py_get transaction ''restore_current'' JNull) (\<lambda>restore.
         let kept = filter (\<lambda>p. case p of JObj d \<Rightarrow> jget_null d ''package'' \<noteq> JStr (py_str pid) | _ \<Rightarrow> True) entries in
         Inr (case restore of JObj _ \<Rightarrow> kept @ [restore] | _ \<Rightarrow> kept))))
     else py_iter packages))"

definition with_default_cwd :: "path \<Rightarrow> component \<Rightarrow> component" where
  "with_default_cwd dir c = (if c_cwd c = None then c\<lparr>c_cwd := Some (path_str dir)\<rparr> else c)"

fun load_installed_packages ::
  "reader \<Rightarrow> (path \<Rightarrow> bool) \<Rightarrow> json list \<Rightarrow> catalog \<Rightarrow> (manifest_error, catalog) result" where
  "load_installed_packages read_json exists_file [] cat = Inr cat"
| "load_installed_packages read_json exists_file (package # packages) cat =
     rbind (lift (py_get package ''path'' (JStr []))) (\<lambda>p.
     let dir = path_of (py_str p); manifest = dir @ [''manifest.json''] in
     if \<not> exists_file manifest then load_installed_packages read_json exists_file packages cat
     else
       rbind (load_manifest_file read_json manifest) (\<lambda>cs.
       rbind (add_components (map (with_default_cwd dir) cs) cat)
         (load_installed_packages read_json exists_file packages)))"

definition installed_packages ::
  "reader \<Rightarrow> (path \<Rightarrow> bool) \<Rightarrow> path \<Rightarrow> bool \<Rightarrow> (manifest_error, json list) result" where
  "installed_packages read_json exists_file state_dir recover_pending =
     rbind (read_json (state_dir @ [''registry'', ''installed.json''])) (\<lambda>data.
     rbind (lift (py_get data ''packages'' (JList []))) (\<lambda>pv.
     let transaction_path = state_dir @ [''registry'', ''install-transaction.json''] in
     if recover_pending \<and> exists_file transaction_path then
       rbind (read_json transaction_path) (\<lambda>transaction. lift (recover_packages transaction pv))
     else lift (py_iter pv)))"

definition load_installed_manifests ::
  "reader \<Rightarrow> (path \<Rightarrow> bool) \<Rightarrow> path \<Rightarrow> bool \<Rightarrow> (manifest_error, catalog) result" where
  "load_installed_manifests read_json exists_file state_dir recover_pending =
     (if \<not> exists_file (state_dir @ [''registry'', ''installed.json'']) then Inr []
      else rbind (installed_packages read_json exists_file state_dir recover_pending)
        (\<lambda>packages. load_installed_packages read_json exists_file packages []))"

section \<open>What loading guarantees\<close>

definition provide_wf :: "provide \<Rightarrow> bool" where
  "provide_wf p \<longleftrightarrow> pv_kind p \<in> {''role'', ''interface'', ''capability''}"

definition component_wf :: "component \<Rightarrow> bool" where
  "component_wf c \<longleftrightarrow>
     list_all provide_wf (c_provides c) \<and> isolation_wf (c_isolation c) \<and>
     list_all (\<lambda>r. CHR '':'' \<in> set r) (c_requires c @ c_wants c @ c_after c) \<and>
     (case c_idle_timeout_ms c of
        None \<Rightarrow> True
      | Some t \<Rightarrow> MIN_IDLE_TIMEOUT_MS \<le> t \<and> t \<le> MAX_IDLE_TIMEOUT_MS \<and> c_lifecycle c = ''on-demand'')"

definition catalog_wf :: "catalog \<Rightarrow> bool" where
  "catalog_wf cat \<longleftrightarrow> dict_wf cat \<and> list_all (\<lambda>(k, c). k = component_key c \<and> component_wf c) cat"

lemma provide_of_wf: "provide_of kind ex raw = Inr p \<Longrightarrow> pv_kind p = kind"
  by (auto simp: provide_of_def result_simps)

interpretation provide_parser: checked_parser provide_entry provide_wf
  by unfold_locales
    (auto simp: provide_entry_def provide_wf_def result_simps dest: provide_of_wf split: if_splits)

interpretation isolation_parser: checked_parser parse_isolation isolation_wf
proof unfold_locales
  fix v s
  assume "parse_isolation v = Inr s"
  then show "isolation_wf s"
    by (auto simp: parse_isolation_def parse_isolation_object_wf IsolationSpec_wf split: json.splits)
qed

lemma idle_timeout_wf:
  "idle_timeout path raw lifecycle = Inr (Some t) \<Longrightarrow>
     MIN_IDLE_TIMEOUT_MS \<le> t \<and> t \<le> MAX_IDLE_TIMEOUT_MS \<and> lifecycle = ''on-demand''"
  by (auto simp: idle_timeout_def Let_def split: option.splits json.splits if_splits)

lemma component_reference_colon: "CHR '':'' \<in> set (component_reference pid v)"
  by (simp add: component_reference_def Let_def)

lemma load_component_wf:
  assumes "load_component path pkg v = Inr c"
  shows "component_wf c" and "c_package_id c = p_id pkg"
proof -
  note load = assms [unfolded load_component_def Let_def result_simps]
  have i: "\<exists>v. parse_isolation v = Inr (c_isolation c)"
    and t: "\<exists>raw. idle_timeout path raw (c_lifecycle c) = Inr (c_idle_timeout_ms c)"
    and p: "\<exists>vs. traverse provide_entry vs = Inr (c_provides c)"
    and r: "list_all (\<lambda>r. CHR '':'' \<in> set r) (c_requires c @ c_wants c @ c_after c)"
    and k: "c_package_id c = p_id pkg"
    using load
    by (auto simp: result_simps list_all_iff component_reference_colon split: if_splits)
  show "component_wf c"
    using p i r t
    by (auto simp: component_wf_def provide_parser.traverse_wf isolation_parser.parse_wf
        dest: idle_timeout_wf split: option.split)
  show "c_package_id c = p_id pkg" by (rule k)
qed

interpretation component_parser: checked_parser "load_component path pkg"
  "\<lambda>c. component_wf c \<and> c_package_id c = p_id pkg" for path pkg
  by unfold_locales (simp add: load_component_wf)

lemma load_manifest_wf:
  "load_manifest path doc = Inr cs \<Longrightarrow> list_all component_wf cs"
  by (auto simp: load_manifest_def result_simps list_all_iff split: if_splits
      dest!: component_parser.traverse_wf)

text \<open>Adding components succeeds exactly when all ids are fresh, and then appends them in order.\<close>

lemma add_components_Inr:
  "add_components cs cat = Inr cat' \<longleftrightarrow>
     cat' = cat @ map (\<lambda>c. (component_key c, c)) cs \<and>
     distinct (map component_key cs) \<and> set (map component_key cs) \<inter> set (dict_keys cat) = {}"
proof (induction cs arbitrary: cat)
  case (Cons c cs)
  show ?case
  proof (cases "dict_has cat (component_key c)")
    case True
    then show ?thesis by (auto simp: dict_has_iff)
  next
    case False
    then show ?thesis by (auto simp: Cons.IH update_fresh dict_has_iff)
  qed
qed auto

lemma add_components_wf:
  assumes "catalog_wf cat" "list_all component_wf cs" "add_components cs cat = Inr cat'"
  shows "catalog_wf cat'"
  using assms by (auto simp: add_components_Inr catalog_wf_def dict_wf_def o_def list_all_iff)

lemma add_manifests_wf:
  assumes "\<And>p cs. load p = Inr cs \<Longrightarrow> list_all component_wf cs"
  shows "catalog_wf cat \<Longrightarrow> add_manifests load ps cat = Inr cat' \<Longrightarrow> catalog_wf cat'"
proof (induction ps arbitrary: cat)
  case (Cons p ps)
  then show ?case by (auto simp: result_simps dest: assms add_components_wf)
qed simp

lemma catalog_wf_Nil [simp]: "catalog_wf []"
  by (simp add: catalog_wf_def)

lemma with_default_cwd_simps [simp]:
  "component_wf (with_default_cwd dir c) = component_wf c"
  "component_key (with_default_cwd dir c) = component_key c"
  "c_package_id (with_default_cwd dir c) = c_package_id c"
  by (auto simp: with_default_cwd_def component_wf_def component_key_def split: option.split)

lemma load_manifest_file_wf: "load_manifest_file rd p = Inr cs \<Longrightarrow> list_all component_wf cs"
  by (auto simp: load_manifest_file_def result_simps dest: load_manifest_wf)

lemma load_installed_packages_wf:
  "catalog_wf cat \<Longrightarrow> load_installed_packages rd ex ps cat = Inr cat' \<Longrightarrow> catalog_wf cat'"
proof (induction ps arbitrary: cat)
  case (Cons p ps)
  have *: "catalog_wf c'" if "load_manifest_file rd m = Inr cs" "add_components (map (with_default_cwd dir) cs) cat = Inr c'"
    for m cs dir c'
    using load_manifest_file_wf [OF that(1)]
    by (intro add_components_wf [OF Cons.prems(1) _ that(2)]) (auto simp: list_all_iff)
  from Cons show ?case by (auto simp: result_simps Let_def dest: * split: if_splits)
qed simp

text \<open>
  C33. Every catalog the loaders return, from any files, is well formed: each component is stored
  under its own global id, ids are unique, dependency references are global, the isolation is well
  formed, and an idle timeout lies within its bounds and only on an on-demand component.
\<close>

theorem loaded_catalogs_wf:
  "(load_manifests rd deep flat = Inr a \<longrightarrow> catalog_wf a) \<and>
   (load_manifest_paths rd resolve is_file paths = Inr b \<longrightarrow> catalog_wf b) \<and>
   (load_installed_manifests rd ex state recover = Inr c \<longrightarrow> catalog_wf c)"
proof (intro conjI impI)
  assume "load_manifests rd deep flat = Inr a"
  then show "catalog_wf a"
    unfolding load_manifests_def by (rule add_manifests_wf [rotated 2]) (simp_all add: load_manifest_file_wf)
next
  assume "load_manifest_paths rd resolve is_file paths = Inr b"
  then show "catalog_wf b"
    unfolding load_manifest_paths_def
    by (rule add_manifests_wf [rotated 2]) (simp_all add: load_manifest_file_wf split: if_splits)
next
  assume "load_installed_manifests rd ex state recover = Inr c"
  then show "catalog_wf c"
    by (auto simp: load_installed_manifests_def result_simps split: if_splits
        dest: load_installed_packages_wf [rotated])
qed

definition demo_manifest :: json where
  "demo_manifest = JObj
     [(''schema'', JStr ''msys.manifest.v1''),
      (''package'', JObj [(''id'', JStr ''org.demo'')]),
      (''components'', JList [JObj
        [(''id'', JStr ''shell''), (''exec'', JList [JStr ''sh'']), (''lifecycle'', JStr ''on-demand''),
         (''idle_timeout_ms'', JInt 5000), (''requires'', JList [JStr ''wm'']),
         (''provides'', JList [JObj [(''role'', JStr ''shell'')]])]])]"

theorem loaded_catalogs_wf_witness:
  "catalog_wf (projr (load_manifests (\<lambda>_. Inr demo_manifest) [[''a.json'']] [[''a.json'']])) \<and>
   dict_keys (projr (load_manifests (\<lambda>_. Inr demo_manifest) [[''a.json'']] [[''a.json'']])) = [''org.demo:shell'']"
proof (intro conjI)
  have "load_manifests (\<lambda>_. Inr demo_manifest) [[''a.json'']] [[''a.json'']] =
      Inr (projr (load_manifests (\<lambda>_. Inr demo_manifest) [[''a.json'']] [[''a.json'']]))"
    by code_simp
  then show "catalog_wf (projr (load_manifests (\<lambda>_. Inr demo_manifest) [[''a.json'']] [[''a.json'']]))"
    using loaded_catalogs_wf by blast
qed code_simp

text \<open>Package replacement.\<close>

lemma replace_lookup:
  assumes "dict_wf base" "dict_wf repl"
  shows "map_of (replace_package_components base repl) k =
    (case map_of repl k of
       Some c \<Rightarrow> Some c
     | None \<Rightarrow> (case map_of base k of
           Some c \<Rightarrow> if c_package_id c \<in> c_package_id ` ran (map_of repl) then None else Some c
         | None \<Rightarrow> None))"
proof -
  let ?P = "c_package_id ` set (dict_values repl)"
  have f: "map_of (filter (\<lambda>(_, c). c_package_id c \<notin> ?P) base) k =
      (case map_of base k of Some c \<Rightarrow> if c_package_id c \<in> ?P then None else Some c | None \<Rightarrow> None)"
    using assms(1) by (simp add: map_of_filter_values split: option.splits)
  have "ran (map_of repl) = set (dict_values repl)"
    using assms(2) by (simp add: dict_wf_def ran_distinct)
  then show ?thesis
    using f assms(2)
    by (auto simp: replace_package_components_def Let_def map_of_dict_update map_of_rev_wf map_add_def
        split: option.split)
qed



section \<open>Pending installs\<close>

lemma recover_packages_pending:
  assumes "recover_packages (JObj t) pv = Inr ps"
    and "jget_null t ''schema'' = JStr ''msys.install-transaction.v1''"
    and "jget_null t ''phase'' \<in> {JStr ''health_pending'', JStr ''rolling_back''}"
    and "JObj d \<in> set ps" and "JObj d \<noteq> jget_null t ''restore_current''"
  shows "jget_null d ''package'' \<noteq> JStr (py_str (jget_or t ''package'' (JStr [])))"
proof -
  let ?keep = "filter (\<lambda>p. case p of
      JObj d \<Rightarrow> jget_null d ''package'' \<noteq> JStr (py_str (jget_or t ''package'' (JStr []))) | _ \<Rightarrow> True)"
  obtain entries where "ps = (case jget_null t ''restore_current'' of
      JObj _ \<Rightarrow> ?keep entries @ [jget_null t ''restore_current''] | _ \<Rightarrow> ?keep entries)"
    using assms(1-3)
    by (auto simp: recover_packages_def py_get_def result_simps Let_def simp flip: jget_null_def)
  with assms(4,5) have "JObj d \<in> set (?keep entries)"
    by (cases "jget_null t ''restore_current''") auto
  then show ?thesis by simp
qed

text \<open>
  While an install transaction of a package is pending its health check or being rolled back,
  starting up reads no manifest of the version being installed: every registered entry that is
  loaded belongs to another package, or is the entry the transaction restores.
\<close>

lemma pending_install_hidden:
  assumes "installed_packages rd ex state True = Inr ps"
    and "ex (state @ [''registry'', ''install-transaction.json''])"
    and "rd (state @ [''registry'', ''install-transaction.json'']) = Inr (JObj t)"
    and "jget_null t ''schema'' = JStr ''msys.install-transaction.v1''"
    and "jget_null t ''phase'' \<in> {JStr ''health_pending'', JStr ''rolling_back''}"
    and "JObj d \<in> set ps"
  shows "JObj d = jget_null t ''restore_current'' \<or>
    jget_null d ''package'' \<noteq> JStr (py_str (jget_or t ''package'' (JStr [])))"
  using assms recover_packages_pending [OF _ assms(4,5,6)]
  by (auto simp: installed_packages_def result_simps Let_def)

end
