(* ===== verification/Roles.thy ===== *)
theory Roles
  imports Manifest
begin

text \<open>
  The role registry (\<open>msys_core/roles.py\<close>): candidate selection from the profile and the component
  catalog, preferences, and active leases.  The registry is a record with the fields of
  \<open>RoleRegistry\<close>; each method is a function on it that returns the new registry or the exception.

  The lemmas show how candidates are ordered, that every method keeps the registry invariant
  (tokens unique and never reused, every lease indexed under its role, an exclusive role with at
  most one lease, providers always candidates), and what each method does on every branch.
\<close>

section \<open>Data\<close>

datatype role_error =
    UnknownRoleError string
  | UnknownCandidateError string string
  | NoCandidateError string
  | LeaseConflictError string string
  | UnknownLeaseError int
  | RoleTypeError
  | RoleKeyError

record role_candidate =
  rc_role :: string
  rc_provider_id :: string
  rc_priority :: int
  rc_exclusive :: bool
  rc_profile_rank :: "nat option"
  rc_declared :: bool

definition candidate_explicit :: "role_candidate \<Rightarrow> bool" where
  "candidate_explicit c \<longleftrightarrow> rc_profile_rank c \<noteq> None"

record role_lease =
  ls_token :: int
  ls_role :: string
  ls_provider_id :: string
  ls_holder :: "string option"

record role_info =
  ri_name :: string
  ri_exclusive :: bool
  ri_candidates :: "role_candidate list"
  ri_preferred_provider :: "string option"
  ri_active_provider :: "string option"
  ri_active_providers :: "string list"
  ri_lease_count :: nat

record role_state =
  rs_candidates :: "role_candidate list"
  rs_exclusive :: bool

record role_registry =
  rg_components :: catalog
  rg_profile_roles :: jobj
  rg_disabled_roles :: "string list"
  rg_roles :: "(string, role_state) dict"
  rg_preferred :: "(string, string) dict"
  rg_leases :: "(int, role_lease) dict"
  rg_role_leases :: "(string, int list) dict"
  rg_next_lease_token :: int

section \<open>Candidates\<close>

definition profile_candidate_ids :: "json \<Rightarrow> (role_error, string list) result" where
  "profile_candidate_ids v = (case v of
       JNull \<Rightarrow> Inr []
     | JStr s \<Rightarrow> Inr [s]
     | JList xs \<Rightarrow> Inr (map py_str xs)
     | _ \<Rightarrow> Inl RoleTypeError)"

type_synonym metadata = "(string, int \<times> bool) dict"

text \<open>Duplicate declarations of one component fold into one: highest priority, strictest exclusivity.\<close>

definition declare_provide ::
  "string list \<Rightarrow> string \<Rightarrow> provide \<Rightarrow> (string, metadata) dict \<Rightarrow> (string, metadata) dict" where
  "declare_provide disabled provider_id p declared =
     (if pv_kind p \<noteq> ''role'' \<or> pv_name p \<in> set disabled then declared
      else
        let per_role = dict_get_or declared (pv_name p) [];
            entry = (case map_of per_role provider_id of
                None \<Rightarrow> (pv_priority p, pv_exclusive p)
              | Some previous \<Rightarrow> (max (fst previous) (pv_priority p), snd previous \<or> pv_exclusive p))
        in AList.update (pv_name p) (AList.update provider_id entry per_role) declared)"

definition declared_roles :: "catalog \<Rightarrow> string list \<Rightarrow> (string, metadata) dict" where
  "declared_roles components disabled =
     fold (\<lambda>(provider_id, component). fold (declare_provide disabled provider_id) (c_provides component))
       components []"

definition role_names :: "jobj \<Rightarrow> string list \<Rightarrow> (string, metadata) dict \<Rightarrow> string list" where
  "role_names profile_roles disabled declared =
     (let configured = filter (\<lambda>r. r \<notin> set disabled) (dict_keys profile_roles) in
      configured @ sort (filter (\<lambda>r. r \<notin> set configured) (dict_keys declared)))"

definition explicit_candidate :: "string \<Rightarrow> metadata \<Rightarrow> nat \<Rightarrow> string \<Rightarrow> role_candidate" where
  "explicit_candidate role metadata rank provider_id =
     (let provided = map_of metadata provider_id in
      \<lparr>rc_role = role, rc_provider_id = provider_id,
       rc_priority = (case provided of Some e \<Rightarrow> fst e | None \<Rightarrow> 0),
       rc_exclusive = (case provided of Some e \<Rightarrow> snd e | None \<Rightarrow> True),
       rc_profile_rank = Some rank, rc_declared = (provided \<noteq> None)\<rparr>)"

fun explicit_candidates ::
  "catalog \<Rightarrow> string \<Rightarrow> metadata \<Rightarrow> nat \<Rightarrow> string list \<Rightarrow> string list \<Rightarrow> role_candidate list" where
  "explicit_candidates components role metadata rank seen [] = []"
| "explicit_candidates components role metadata rank seen (provider_id # ids) =
     (if provider_id \<in> set seen \<or> \<not> dict_has components provider_id then
        explicit_candidates components role metadata (Suc rank) seen ids
      else
        explicit_candidate role metadata rank provider_id #
        explicit_candidates components role metadata (Suc rank) (provider_id # seen) ids)"

definition declared_candidate :: "string \<Rightarrow> string \<times> int \<times> bool \<Rightarrow> role_candidate" where
  "declared_candidate role entry = (case entry of (provider_id, priority, exclusive) \<Rightarrow>
     \<lparr>rc_role = role, rc_provider_id = provider_id, rc_priority = priority,
      rc_exclusive = exclusive, rc_profile_rank = None, rc_declared = True\<rparr>)"

definition remaining_entries :: "metadata \<Rightarrow> string list \<Rightarrow> (string \<times> int \<times> bool) list" where
  "remaining_entries metadata seen =
     sort_key (\<lambda>(provider_id, priority, _). (- priority, provider_id))
       (filter (\<lambda>(provider_id, _). provider_id \<notin> set seen) metadata)"

definition build_role ::
  "catalog \<Rightarrow> jobj \<Rightarrow> (string, metadata) dict \<Rightarrow> string \<Rightarrow> (role_error, role_state) result" where
  "build_role components profile_roles declared role =
     (let metadata = dict_get_or declared role [] in
      rbind (profile_candidate_ids (jget_null profile_roles role)) (\<lambda>explicit_ids.
        let explicit = explicit_candidates components role metadata 0 [] explicit_ids;
            candidates = explicit @
              map (declared_candidate role) (remaining_entries metadata (map rc_provider_id explicit))
        in Inr \<lparr>rs_candidates = candidates, rs_exclusive = list_ex rc_exclusive candidates\<rparr>))"

definition build_roles ::
  "catalog \<Rightarrow> jobj \<Rightarrow> string list \<Rightarrow> (role_error, (string, role_state) dict) result" where
  "build_roles components profile_roles disabled =
     (let declared = declared_roles components disabled in
      traverse (\<lambda>role. rbind (build_role components profile_roles declared role) (\<lambda>st. Inr (role, st)))
        (role_names profile_roles disabled declared))"

definition RoleRegistry :: "catalog \<Rightarrow> jobj \<Rightarrow> string list \<Rightarrow> (role_error, role_registry) result" where
  "RoleRegistry components profile_roles disabled =
     rbind (build_roles components profile_roles disabled) (\<lambda>roles.
       Inr \<lparr>rg_components = components, rg_profile_roles = profile_roles,
            rg_disabled_roles = disabled, rg_roles = roles, rg_preferred = [], rg_leases = [],
            rg_role_leases = map (\<lambda>(role, _). (role, [])) roles, rg_next_lease_token = 1\<rparr>)"

definition from_profile :: "catalog \<Rightarrow> jobj \<Rightarrow> (role_error, role_registry) result" where
  "from_profile components profile = (case jget_or profile ''roles'' (JObj []) of
       JObj roles \<Rightarrow> (case jget_or profile ''disabled_roles'' (JList []) of
           JList disabled \<Rightarrow> RoleRegistry components roles (map py_str disabled)
         | _ \<Rightarrow> Inl RoleTypeError)
     | _ \<Rightarrow> Inl RoleTypeError)"

section \<open>Queries\<close>

definition rg_state :: "role_registry \<Rightarrow> string \<Rightarrow> (role_error, role_state) result" where
  "rg_state rg role = (case map_of (rg_roles rg) role of
       Some st \<Rightarrow> Inr st | None \<Rightarrow> Inl (UnknownRoleError role))"

definition list_roles :: "role_registry \<Rightarrow> string list" where
  "list_roles rg = dict_keys (rg_roles rg)"

definition disabled_roles :: "role_registry \<Rightarrow> string list" where
  "disabled_roles rg = sort (dedup (rg_disabled_roles rg))"

definition list_candidates :: "role_registry \<Rightarrow> string \<Rightarrow> (role_error, role_candidate list) result" where
  "list_candidates rg role = rbind (rg_state rg role) (\<lambda>st. Inr (rs_candidates st))"

definition candidate_ids :: "role_registry \<Rightarrow> string \<Rightarrow> (role_error, string list) result" where
  "candidate_ids rg role = rbind (list_candidates rg role) (\<lambda>cs. Inr (map rc_provider_id cs))"

definition is_candidate :: "role_registry \<Rightarrow> string \<Rightarrow> string \<Rightarrow> (role_error, bool) result" where
  "is_candidate rg role provider_id =
     rbind (list_candidates rg role) (\<lambda>cs. Inr (list_ex (\<lambda>c. rc_provider_id c = provider_id) cs))"

definition get_candidate :: "role_registry \<Rightarrow> string \<Rightarrow> string \<Rightarrow> (role_error, role_candidate) result" where
  "get_candidate rg role provider_id =
     rbind (list_candidates rg role) (\<lambda>cs.
       case find (\<lambda>c. rc_provider_id c = provider_id) cs of
         Some c \<Rightarrow> Inr c
       | None \<Rightarrow> Inl (UnknownCandidateError provider_id role))"

definition preferred_provider :: "role_registry \<Rightarrow> string \<Rightarrow> (role_error, string option) result" where
  "preferred_provider rg role =
     rbind (rg_state rg role) (\<lambda>st.
       case map_of (rg_preferred rg) role of
         Some selected \<Rightarrow> Inr (Some selected)
       | None \<Rightarrow> (case rs_candidates st of [] \<Rightarrow> Inr None | c # _ \<Rightarrow> Inr (Some (rc_provider_id c))))"

definition select_preferred ::
  "string \<Rightarrow> string \<Rightarrow> role_registry \<Rightarrow> (role_error, string \<times> role_registry) result" where
  "select_preferred role provider_id rg =
     rbind (get_candidate rg role provider_id) (\<lambda>_.
       Inr (provider_id, rg\<lparr>rg_preferred := AList.update role provider_id (rg_preferred rg)\<rparr>))"

definition reset_preferred ::
  "string \<Rightarrow> role_registry \<Rightarrow> (role_error, string option \<times> role_registry) result" where
  "reset_preferred role rg =
     rbind (rg_state rg role) (\<lambda>_.
       let rg' = rg\<lparr>rg_preferred := AList.delete role (rg_preferred rg)\<rparr> in
       rbind (preferred_provider rg' role) (\<lambda>p. Inr (p, rg')))"

definition resolve_candidate :: "role_registry \<Rightarrow> string \<Rightarrow> (role_error, role_candidate) result" where
  "resolve_candidate rg role =
     rbind (preferred_provider rg role) (\<lambda>p. case p of
         None \<Rightarrow> Inl (NoCandidateError role)
       | Some provider_id \<Rightarrow> get_candidate rg role provider_id)"

definition resolve_role :: "role_registry \<Rightarrow> string \<Rightarrow> (role_error, string) result" where
  "resolve_role rg role = rbind (resolve_candidate rg role) (\<lambda>c. Inr (rc_provider_id c))"

section \<open>Leases\<close>

definition lease_of :: "role_registry \<Rightarrow> int \<Rightarrow> (role_error, role_lease) result" where
  "lease_of rg token = (case map_of (rg_leases rg) token of Some l \<Rightarrow> Inr l | None \<Rightarrow> Inl RoleKeyError)"

definition role_tokens :: "role_registry \<Rightarrow> string \<Rightarrow> (role_error, int list) result" where
  "role_tokens rg role =
     (case map_of (rg_role_leases rg) role of Some ts \<Rightarrow> Inr ts | None \<Rightarrow> Inl RoleKeyError)"

definition acquire ::
  "string \<Rightarrow> string option \<Rightarrow> string option \<Rightarrow> role_registry \<Rightarrow> (role_error, role_lease \<times> role_registry) result" where
  "acquire role provider_id holder rg =
     rbind (rg_state rg role) (\<lambda>st.
     rbind (case provider_id of None \<Rightarrow> resolve_candidate rg role | Some p \<Rightarrow> get_candidate rg role p) (\<lambda>candidate.
     rbind (role_tokens rg role) (\<lambda>active_tokens.
     if rs_exclusive st \<and> active_tokens \<noteq> [] then
       rbind (lease_of rg (hd active_tokens)) (\<lambda>active.
         Inl (LeaseConflictError role (ls_provider_id active)))
     else
       let token = rg_next_lease_token rg;
           lease = \<lparr>ls_token = token, ls_role = role, ls_provider_id = rc_provider_id candidate, ls_holder = holder\<rparr>
       in Inr (lease,
            rg\<lparr>rg_next_lease_token := token + 1,
               rg_leases := AList.update token lease (rg_leases rg),
               rg_role_leases := AList.update role (active_tokens @ [token]) (rg_role_leases rg)\<rparr>))))"

datatype lease_ref = ByLease role_lease | ByToken int

definition ref_token :: "lease_ref \<Rightarrow> int" where
  "ref_token ref = (case ref of ByLease l \<Rightarrow> ls_token l | ByToken t \<Rightarrow> t)"

definition release :: "lease_ref \<Rightarrow> role_registry \<Rightarrow> (role_error, role_lease \<times> role_registry) result" where
  "release ref rg =
     (let token = ref_token ref in
      case map_of (rg_leases rg) token of
        None \<Rightarrow> Inl (UnknownLeaseError token)
      | Some stored \<Rightarrow>
          if (case ref of ByLease l \<Rightarrow> stored \<noteq> l | ByToken _ \<Rightarrow> False) then Inl (UnknownLeaseError token)
          else rbind (role_tokens rg (ls_role stored)) (\<lambda>ts.
            Inr (stored,
              rg\<lparr>rg_leases := AList.delete token (rg_leases rg),
                 rg_role_leases := AList.update (ls_role stored) (remove1 token ts) (rg_role_leases rg)\<rparr>)))"

fun release_all :: "role_lease list \<Rightarrow> role_registry \<Rightarrow> (role_error, role_registry) result" where
  "release_all [] rg = Inr rg"
| "release_all (l # ls) rg = rbind (release (ByLease l) rg) (\<lambda>(_, rg). release_all ls rg)"

definition release_provider ::
  "string \<Rightarrow> role_registry \<Rightarrow> (role_error, role_lease list \<times> role_registry) result" where
  "release_provider provider_id rg =
     (let matching = filter (\<lambda>l. ls_provider_id l = provider_id) (dict_values (rg_leases rg)) in
      rbind (release_all matching rg) (\<lambda>rg'. Inr (matching, rg')))"

definition active_leases :: "role_registry \<Rightarrow> string \<Rightarrow> (role_error, role_lease list) result" where
  "active_leases rg role =
     rbind (rg_state rg role) (\<lambda>_. rbind (role_tokens rg role) (traverse (lease_of rg)))"

definition active_providers :: "role_registry \<Rightarrow> string \<Rightarrow> (role_error, string list) result" where
  "active_providers rg role = rbind (active_leases rg role) (\<lambda>ls. Inr (dedup (map ls_provider_id ls)))"

definition active_provider :: "role_registry \<Rightarrow> string \<Rightarrow> (role_error, string option) result" where
  "active_provider rg role =
     rbind (active_providers rg role) (\<lambda>ps. Inr (case ps of [] \<Rightarrow> None | p # _ \<Rightarrow> Some p))"

definition role_info_of :: "role_registry \<Rightarrow> string \<Rightarrow> (role_error, role_info) result" where
  "role_info_of rg role =
     rbind (rg_state rg role) (\<lambda>st.
     rbind (active_leases rg role) (\<lambda>leases.
     rbind (active_providers rg role) (\<lambda>providers.
     rbind (preferred_provider rg role) (\<lambda>preferred.
       Inr \<lparr>ri_name = role, ri_exclusive = rs_exclusive st, ri_candidates = rs_candidates st,
            ri_preferred_provider = preferred,
            ri_active_provider = (case providers of [] \<Rightarrow> None | p # _ \<Rightarrow> Some p),
            ri_active_providers = providers, ri_lease_count = length leases\<rparr>))))"

definition list_role_info :: "role_registry \<Rightarrow> (role_error, role_info list) result" where
  "list_role_info rg = traverse (role_info_of rg) (list_roles rg)"

section \<open>What the catalog declares\<close>

text \<open>
  The specification of a declared candidate: all \<open>provides\<close> entries of one component for a role
  count as one, with the highest priority and the strictest exclusivity among them.
\<close>

definition role_provides :: "string \<Rightarrow> provide list \<Rightarrow> provide list" where
  "role_provides role = filter (\<lambda>p. pv_kind p = ''role'' \<and> pv_name p = role)"

definition declared_entry :: "string \<Rightarrow> provide list \<Rightarrow> (int \<times> bool) option" where
  "declared_entry role ps =
     (let qs = role_provides role ps in
      if qs = [] then None else Some (Max (pv_priority ` set qs), list_ex pv_exclusive qs))"

definition entry_join :: "(int \<times> bool) option \<Rightarrow> (int \<times> bool) option \<Rightarrow> (int \<times> bool) option" where
  "entry_join a b = (case a of None \<Rightarrow> b | Some (p, e) \<Rightarrow>
     (case b of None \<Rightarrow> a | Some (q, f) \<Rightarrow> Some (max p q, e \<or> f)))"

definition declared_lookup :: "(string, metadata) dict \<Rightarrow> string \<Rightarrow> string \<Rightarrow> (int \<times> bool) option" where
  "declared_lookup declared role provider_id = map_of (dict_get_or declared role []) provider_id"

lemma entry_join_simps [simp]: "entry_join None b = b" "entry_join a None = a"
  by (simp_all add: entry_join_def split: option.split)

lemma entry_join_assoc: "entry_join (entry_join a b) c = entry_join a (entry_join b c)"
  by (auto simp: entry_join_def max.assoc split: option.split)

lemma declared_entry_Cons:
  "declared_entry role (p # ps) =
     entry_join (if pv_kind p = ''role'' \<and> pv_name p = role then Some (pv_priority p, pv_exclusive p) else None)
       (declared_entry role ps)"
proof -
  have c: "role_provides role (p # ps) =
      (if pv_kind p = ''role'' \<and> pv_name p = role then p # role_provides role ps else role_provides role ps)"
    by (simp add: role_provides_def)
  then show ?thesis
    by (cases "role_provides role ps = []") (auto simp: declared_entry_def Let_def entry_join_def c)
qed

lemma declare_provide_lookup:
  "declared_lookup (declare_provide disabled pid p d) role q =
     entry_join (declared_lookup d role q)
       (if q = pid \<and> role \<notin> set disabled \<and> pv_kind p = ''role'' \<and> pv_name p = role
        then Some (pv_priority p, pv_exclusive p) else None)"
  by (auto simp: declare_provide_def declared_lookup_def dict_get_or_def dict_simps Let_def entry_join_def
      split: option.splits)

lemma declare_provides_lookup:
  "declared_lookup (fold (declare_provide disabled pid) ps d) role q =
     entry_join (declared_lookup d role q)
       (if q = pid \<and> role \<notin> set disabled then declared_entry role ps else None)"
proof (induction ps arbitrary: d)
  case Nil
  then show ?case by (simp add: declared_entry_def role_provides_def)
next
  case (Cons p ps)
  then show ?case
    by (simp add: declare_provide_lookup declared_entry_Cons entry_join_assoc)
qed

lemma declared_fold_lookup:
  "dict_wf comps \<Longrightarrow>
   declared_lookup (fold (\<lambda>(pid, c). fold (declare_provide disabled pid) (c_provides c)) comps d) role q =
     entry_join (declared_lookup d role q)
       (if role \<in> set disabled then None
        else case map_of comps q of None \<Rightarrow> None | Some c \<Rightarrow> declared_entry role (c_provides c))"
proof (induction comps arbitrary: d)
  case (Cons x comps)
  obtain pid c where [simp]: "x = (pid, c)" by (cases x)
  have "map_of comps pid = None" using Cons.prems by (simp add: dict_wf_def map_of_eq_None_iff)
  moreover have "dict_wf comps" using Cons.prems by (simp add: dict_wf_def)
  ultimately show ?case
    by (simp add: Cons.IH declare_provides_lookup entry_join_assoc)
qed simp

lemma declared_roles_lookup:
  "dict_wf comps \<Longrightarrow> declared_lookup (declared_roles comps disabled) role q =
     (if role \<in> set disabled then None
      else case map_of comps q of None \<Rightarrow> None | Some c \<Rightarrow> declared_entry role (c_provides c))"
  unfolding declared_roles_def
  by (subst declared_fold_lookup) (simp_all add: declared_lookup_def dict_get_or_def)

text \<open>The tables are dictionaries, and no disabled role occurs in them.\<close>

definition declared_wf :: "string list \<Rightarrow> (string, metadata) dict \<Rightarrow> bool" where
  "declared_wf disabled d \<longleftrightarrow> dict_wf d \<and> list_all (\<lambda>(r, m). dict_wf m \<and> r \<notin> set disabled) d"

lemma declared_wf_get: "declared_wf disabled d \<Longrightarrow> dict_wf (dict_get_or d r [])"
  by (auto simp: declared_wf_def dict_get_or_def list_all_iff split: option.split dest: map_of_SomeD)

lemma declare_provide_wf: "declared_wf disabled d \<Longrightarrow> declared_wf disabled (declare_provide disabled pid p d)"
  using declared_wf_get [of disabled d "pv_name p"]
  by (auto simp: declare_provide_def Let_def declared_wf_def intro!: list_all_update)

lemma declared_roles_wf: "declared_wf disabled (declared_roles comps disabled)"
proof -
  have "declared_wf disabled (fold (declare_provide disabled pid) ps d)" if "declared_wf disabled d" for pid ps d
    using that by (induction ps arbitrary: d) (auto simp: declare_provide_wf)
  then have "declared_wf disabled (fold (\<lambda>(pid, c). fold (declare_provide disabled pid) (c_provides c)) comps d)"
    if "declared_wf disabled d" for d
    using that by (induction comps arbitrary: d) auto
  then show ?thesis by (simp add: declared_roles_def declared_wf_def)
qed

section \<open>Candidate order\<close>

interpretation role_rank: ranked "\<lambda>(_ :: string, p :: int, _ :: bool). p" "\<lambda>(i, _, _). i" .

lemma remaining_entries_ranked:
  "remaining_entries metadata seen =
     sort_key role_rank.rank (filter (\<lambda>(i, _). i \<notin> set seen) metadata)"
  by (simp add: remaining_entries_def case_prod_beta')

lemma explicit_candidates_ids:
  "map rc_provider_id (explicit_candidates comps role md rank seen ids) =
     filter (\<lambda>p. p \<notin> set seen) (dedup (filter (dict_has comps) ids))"
proof (induction ids arbitrary: rank seen)
  case (Cons p ids)
  show ?case
  proof (cases "p \<in> set seen \<or> \<not> dict_has comps p")
    case True
    then show ?thesis by (auto simp: Cons.IH intro: filter_cong)
  next
    case False
    then show ?thesis
      by (auto simp: Cons.IH explicit_candidate_def Let_def conj_commute intro!: filter_cong)
  qed
qed simp

lemma explicit_candidates_role:
  "c \<in> set (explicit_candidates comps role md rank seen ids) \<Longrightarrow> rc_role c = role \<and> candidate_explicit c"
  by (induction ids arbitrary: rank seen)
    (auto simp: explicit_candidate_def candidate_explicit_def Let_def split: if_splits)

lemma declared_candidate_simps [simp]:
  "rc_provider_id (declared_candidate role e) = fst e"
  "rc_priority (declared_candidate role e) = fst (snd e)"
  "rc_role (declared_candidate role e) = role"
  by (simp_all add: declared_candidate_def split: prod.split)

lemma build_role_ids:
  assumes "build_role comps prof declared role = Inr st"
  obtains ids where "profile_candidate_ids (jget_null prof role) = Inr ids"
    and "rs_candidates st =
      explicit_candidates comps role (dict_get_or declared role []) 0 [] ids @
      map (declared_candidate role)
        (remaining_entries (dict_get_or declared role []) (dedup (filter (dict_has comps) ids)))"
    and "rs_exclusive st = list_ex rc_exclusive (rs_candidates st)"
  using assms by (auto simp: build_role_def Let_def result_simps explicit_candidates_ids)

lemma set_remaining:
  "set (map fst (remaining_entries md seen)) = {p. map_of md p \<noteq> None \<and> p \<notin> set seen}"
  by (force simp: remaining_entries_def map_of_eq_None_iff)

lemma distinct_remaining: "dict_wf md \<Longrightarrow> distinct (map fst (remaining_entries md seen))"
  by (auto simp: remaining_entries_def dict_wf_def distinct_map intro: inj_on_subset)

text \<open>A role of the registry comes from \<open>build_role\<close> and is not disabled.\<close>

lemma build_roles_lookup:
  assumes "build_roles comps prof disabled = Inr roles" and "map_of roles role = Some st"
  shows "build_role comps prof (declared_roles comps disabled) role = Inr st" and "role \<notin> set disabled"
proof -
  from assms(1) have all: "list_all (\<lambda>(r, s). build_role comps prof (declared_roles comps disabled) r = Inr s) roles"
    and k: "dict_keys roles = role_names prof disabled (declared_roles comps disabled)"
    unfolding build_roles_def Let_def using traverse_tagged by blast+
  have m: "(role, st) \<in> set roles" using assms(2) by (rule map_of_SomeD)
  with all show "build_role comps prof (declared_roles comps disabled) role = Inr st"
    by (auto simp: list_all_iff)
  have "role \<in> set (role_names prof disabled (declared_roles comps disabled))"
    using m k [symmetric] by force
  then show "role \<notin> set disabled"
    using declared_roles_wf [of disabled comps]
    by (auto simp: role_names_def Let_def declared_wf_def list_all_iff)
qed

definition candidates_ok :: "catalog \<Rightarrow> string \<Rightarrow> string list \<Rightarrow> role_candidate list \<Rightarrow> bool" where
  "candidates_ok comps role explicit cs \<longleftrightarrow>
     distinct (map rc_provider_id cs) \<and> list_all (\<lambda>c. rc_role c = role) cs \<and>
     map rc_provider_id (take (length explicit) cs) = explicit \<and>
     sorted (map (\<lambda>c. (- rc_priority c, rc_provider_id c)) (drop (length explicit) cs)) \<and>
     set (map rc_provider_id cs) =
       set explicit \<union> {p. \<exists>c. map_of comps p = Some c \<and> role_provides role (c_provides c) \<noteq> []}"

lemma declared_entry_None: "declared_entry role ps = None \<longleftrightarrow> role_provides role ps = []"
  by (simp add: declared_entry_def Let_def)

lemma build_role_candidates:
  assumes wf: "dict_wf comps" and en: "role \<notin> set disabled"
    and b: "build_role comps prof (declared_roles comps disabled) role = Inr st"
    and ids: "profile_candidate_ids (jget_null prof role) = Inr ids"
  shows "candidates_ok comps role (dedup (filter (dict_has comps) ids)) (rs_candidates st)"
proof -
  let ?md = "dict_get_or (declared_roles comps disabled) role []"
  let ?ex = "dedup (filter (dict_has comps) ids)"
  let ?e = "explicit_candidates comps role ?md 0 [] ids" and ?r = "remaining_entries ?md ?ex"
  have cs: "rs_candidates st = ?e @ map (declared_candidate role) ?r"
    using b ids by (auto elim: build_role_ids)
  have e: "map rc_provider_id ?e = ?ex" by (simp add: explicit_candidates_ids)
  then have le: "length ?e = length ?ex" by (metis length_map)
  have md: "dict_wf ?md" using declared_wf_get [OF declared_roles_wf] .
  have lk: "map_of ?md p \<noteq> None \<longleftrightarrow> (\<exists>c. map_of comps p = Some c \<and> role_provides role (c_provides c) \<noteq> [])" for p
    using declared_roles_lookup [OF wf, of disabled role p] en declared_entry_None
    by (cases "map_of comps p") (simp_all add: declared_lookup_def del: not_None_eq)
  have "sorted (map role_rank.rank ?r)"
    unfolding remaining_entries_ranked by (rule role_rank.sort_sorted)
  then have "sorted (map (\<lambda>c. (- rc_priority c, rc_provider_id c)) (map (declared_candidate role) ?r))"
    by (simp add: o_def case_prod_beta')
  moreover have "set (map fst ?r) = {p. (\<exists>c. map_of comps p = Some c \<and> role_provides role (c_provides c) \<noteq> []) \<and> p \<notin> set ?ex}"
    unfolding set_remaining lk by auto
  moreover have "distinct (map fst ?r)" using md by (rule distinct_remaining)
  ultimately show ?thesis
    unfolding candidates_ok_def cs
    using e le explicit_candidates_role by (auto simp: o_def list_all_iff)
qed

text \<open>Two shells that compete for one exclusive role, for concrete instances of the theorems.\<close>

definition demo_shells :: catalog where
  "demo_shells = projr (load_manifests (\<lambda>_. Inr (JObj
     [(''schema'', JStr ''msys.manifest.v1''),
      (''package'', JObj [(''id'', JStr ''org.demo'')]),
      (''components'', JList
        [JObj [(''id'', JStr ''a''), (''exec'', JList [JStr ''a'']),
               (''provides'', JList [JObj [(''role'', JStr ''shell''), (''priority'', JInt 1)]])],
         JObj [(''id'', JStr ''b''), (''exec'', JList [JStr ''b'']),
               (''provides'', JList [JObj [(''role'', JStr ''shell''), (''priority'', JInt 5)]])]])]))
     [[''m.json'']] [])"

definition demo_roles :: role_registry where
  "demo_roles = projr (RoleRegistry demo_shells [(''shell'', JList [])] [])"

lemma demo_roles_eq: "RoleRegistry demo_shells [(''shell'', JList [])] [] = Inr demo_roles"
  by code_simp

text \<open>
  Candidates are ordered as documented.  For every enabled role of the registry, the candidates
  are distinct; the installed components the profile lists come first, in profile order; all other
  installed providers that declare the role follow, by descending priority and then by id; nobody
  else is a candidate, a disabled role has no entry, and the role is exclusive as soon as one
  candidate is.
\<close>

lemma registry_candidates:
  assumes "dict_wf comps" and "RoleRegistry comps prof disabled = Inr rg"
    and "map_of (rg_roles rg) role = Some st"
  shows "role \<notin> set disabled \<and> (rs_exclusive st \<longleftrightarrow> list_ex rc_exclusive (rs_candidates st)) \<and>
    (\<exists>ids. profile_candidate_ids (jget_null prof role) = Inr ids \<and>
       candidates_ok comps role (dedup (filter (dict_has comps) ids)) (rs_candidates st))"
proof -
  from assms(2) have b: "build_roles comps prof disabled = Inr (rg_roles rg)"
    by (auto simp: RoleRegistry_def result_simps)
  note r = build_roles_lookup [OF b assms(3)]
  from r(1) obtain ids where i: "profile_candidate_ids (jget_null prof role) = Inr ids"
    and x: "rs_exclusive st = list_ex rc_exclusive (rs_candidates st)" by (rule build_role_ids)
  from build_role_candidates [OF assms(1) r(2) r(1) i] i x r(2) show ?thesis by blast
qed

section \<open>The registry invariant\<close>

text \<open>The abstract lease table: all active leases in acquisition order.\<close>

definition lease_table_of :: "role_registry \<Rightarrow> role_lease list" where
  "lease_table_of rg = dict_values (rg_leases rg)"

definition tokens_of :: "(int, role_lease) dict \<Rightarrow> string \<Rightarrow> int list" where
  "tokens_of leases role = map fst (filter (\<lambda>(_, l). ls_role l = role) leases)"

definition may_provide :: "(string, role_state) dict \<Rightarrow> string \<Rightarrow> string \<Rightarrow> bool" where
  "may_provide roles role p =
     (case map_of roles role of None \<Rightarrow> False | Some st \<Rightarrow> p \<in> rc_provider_id ` set (rs_candidates st))"

definition lease_ok :: "(string, role_state) dict \<Rightarrow> int \<Rightarrow> int \<times> role_lease \<Rightarrow> bool" where
  "lease_ok roles nxt = (\<lambda>(t, l). ls_token l = t \<and> t < nxt \<and> may_provide roles (ls_role l) (ls_provider_id l))"

definition rg_inv :: "role_registry \<Rightarrow> bool" where
  "rg_inv rg \<longleftrightarrow>
     sorted_wrt (<) (dict_keys (rg_leases rg)) \<and>
     list_all (lease_ok (rg_roles rg) (rg_next_lease_token rg)) (rg_leases rg) \<and>
     (\<forall>role. map_of (rg_role_leases rg) role =
        (if map_of (rg_roles rg) role = None then None else Some (tokens_of (rg_leases rg) role))) \<and>
     (\<forall>role st. map_of (rg_roles rg) role = Some st \<longrightarrow> rs_exclusive st \<longrightarrow> length (tokens_of (rg_leases rg) role) \<le> 1) \<and>
     (\<forall>role p. map_of (rg_preferred rg) role = Some p \<longrightarrow> may_provide (rg_roles rg) role p)"

lemma rg_invD:
  assumes "rg_inv rg"
  shows "sorted_wrt (<) (dict_keys (rg_leases rg))"
    and "list_all (lease_ok (rg_roles rg) (rg_next_lease_token rg)) (rg_leases rg)"
    and "map_of (rg_role_leases rg) role =
      (if map_of (rg_roles rg) role = None then None else Some (tokens_of (rg_leases rg) role))"
    and "map_of (rg_roles rg) role = Some st \<Longrightarrow> rs_exclusive st \<Longrightarrow> length (tokens_of (rg_leases rg) role) \<le> 1"
    and "map_of (rg_preferred rg) role = Some p \<Longrightarrow> may_provide (rg_roles rg) role p"
  using assms by (simp_all add: rg_inv_def)

lemma rg_inv_leases_wf: "rg_inv rg \<Longrightarrow> dict_wf (rg_leases rg)"
  by (auto simp: rg_inv_def dict_wf_def strict_sorted_iff)

lemma get_candidate_Inr:
  "get_candidate rg role p = Inr c \<Longrightarrow>
     may_provide (rg_roles rg) role p \<and> rc_provider_id c = p \<and>
     (\<exists>st. map_of (rg_roles rg) role = Some st \<and> c \<in> set (rs_candidates st))"
  by (force simp: get_candidate_def list_candidates_def rg_state_def may_provide_def result_simps
      find_Some_iff split: option.splits)

lemma get_candidate_iff:
  "(\<exists>c. get_candidate rg role p = Inr c) \<longleftrightarrow> may_provide (rg_roles rg) role p"
proof (cases "map_of (rg_roles rg) role")
  case (Some st)
  have "find (\<lambda>c. rc_provider_id c = p) (rs_candidates st) = None \<longleftrightarrow> p \<notin> rc_provider_id ` set (rs_candidates st)"
    by (auto simp: find_None_iff)
  with Some show ?thesis
    by (cases "find (\<lambda>c. rc_provider_id c = p) (rs_candidates st)")
      (simp_all add: get_candidate_def list_candidates_def rg_state_def may_provide_def)
qed (simp add: get_candidate_def list_candidates_def rg_state_def may_provide_def)

lemma resolve_candidate_Inr:
  "resolve_candidate rg role = Inr c \<Longrightarrow> get_candidate rg role (rc_provider_id c) = Inr c"
  by (auto simp: resolve_candidate_def result_simps split: option.splits dest: get_candidate_Inr)

lemma tokens_of_append [simp]:
  "tokens_of (ls @ [(t, l)]) role = tokens_of ls role @ (if ls_role l = role then [t] else [])"
  by (simp add: tokens_of_def)

lemma tokens_of_delete:
  "sorted_wrt (<) (dict_keys ls) \<Longrightarrow> map_of ls t = Some l \<Longrightarrow>
   tokens_of (AList.delete t ls) role =
     (if ls_role l = role then remove1 t (tokens_of ls role) else tokens_of ls role)"
proof (induction ls)
  case (Cons x ls)
  show ?case
  proof (cases "fst x = t")
    case True
    with Cons.prems have "AList.delete t ls = ls" by (intro delete_id) auto
    with True Cons.prems show ?thesis by (cases x) (simp add: tokens_of_def)
  next
    case False
    with Cons show ?thesis by (cases x) (auto simp: tokens_of_def)
  qed
qed simp

lemma tokens_of_subset: "set (tokens_of ls role) \<subseteq> set (dict_keys ls)"
  by (auto simp: tokens_of_def)

lemma sorted_delete:
  "sorted_wrt (<) (dict_keys ls) \<Longrightarrow> sorted_wrt (<) (dict_keys (AList.delete (t :: int) ls))"
  by (simp add: AList.delete_eq sorted_wrt_map sorted_wrt_filter)

lemma list_all_delete: "list_all P ls \<Longrightarrow> list_all P (AList.delete t ls)"
  by (simp add: AList.delete_eq list_all_iff)

lemma rg_inv_fresh: "rg_inv rg \<Longrightarrow> \<not> dict_has (rg_leases rg) (rg_next_lease_token rg)"
  by (auto simp: rg_inv_def list_all_iff lease_ok_def dict_has_iff)

section \<open>Operations\<close>

lemma role_tokens_inv:
  "rg_inv rg \<Longrightarrow> map_of (rg_roles rg) role = Some st \<Longrightarrow> role_tokens rg role = Inr (tokens_of (rg_leases rg) role)"
  by (simp add: role_tokens_def rg_invD)

lemma acquire_Inr:
  assumes "rg_inv rg" and "acquire role pid holder rg = Inr (l, rg')"
  obtains st where "map_of (rg_roles rg) role = Some st"
    and "may_provide (rg_roles rg) role (ls_provider_id l)"
    and "ls_token l = rg_next_lease_token rg" and "ls_role l = role" and "ls_holder l = holder"
    and "rs_exclusive st \<longrightarrow> tokens_of (rg_leases rg) role = []"
    and "rg' = rg\<lparr>rg_next_lease_token := rg_next_lease_token rg + 1,
        rg_leases := rg_leases rg @ [(rg_next_lease_token rg, l)],
        rg_role_leases := AList.update role (tokens_of (rg_leases rg) role @ [rg_next_lease_token rg]) (rg_role_leases rg)\<rparr>"
proof -
  define tk where "tk = rg_next_lease_token rg"
  from assms(2) obtain st where st: "map_of (rg_roles rg) role = Some st"
    by (auto simp: acquire_def rg_state_def split: option.splits)
  from assms(2) obtain c where
    c: "(case pid of None \<Rightarrow> resolve_candidate rg role | Some p \<Rightarrow> get_candidate rg role p) = Inr c"
    unfolding acquire_def rbind_Inr_iff by blast
  from assms(2) obtain ts where ts: "role_tokens rg role = Inr ts"
    unfolding acquire_def rbind_Inr_iff by blast
  from assms(2) have free: "rs_exclusive st \<longrightarrow> ts = []"
    and l: "l = \<lparr>ls_token = tk, ls_role = role, ls_provider_id = rc_provider_id c, ls_holder = holder\<rparr>"
    and rg': "rg' = rg\<lparr>rg_next_lease_token := tk + 1, rg_leases := AList.update tk l (rg_leases rg),
        rg_role_leases := AList.update role (ts @ [tk]) (rg_role_leases rg)\<rparr>"
    unfolding acquire_def rg_state_def st option.case rbind_simps c ts Let_def tk_def
    by (auto simp: result_simps split: if_splits)
  have ts': "ts = tokens_of (rg_leases rg) role" using ts role_tokens_inv [OF assms(1) st] by simp
  have "get_candidate rg role (rc_provider_id c) = Inr c"
    using c by (auto split: option.splits dest: resolve_candidate_Inr get_candidate_Inr)
  from get_candidate_Inr [OF this] have "may_provide (rg_roles rg) role (ls_provider_id l)" by (simp add: l)
  moreover have "rg' = rg\<lparr>rg_next_lease_token := rg_next_lease_token rg + 1,
        rg_leases := rg_leases rg @ [(rg_next_lease_token rg, l)],
        rg_role_leases := AList.update role (tokens_of (rg_leases rg) role @ [rg_next_lease_token rg]) (rg_role_leases rg)\<rparr>"
    unfolding rg' ts' tk_def update_fresh [OF rg_inv_fresh [OF assms(1)]] ..
  ultimately show thesis using that [OF st] l free ts' by (simp add: tk_def)
qed

lemma acquire_inv:
  assumes inv: "rg_inv rg" and a: "acquire role pid holder rg = Inr (l, rg')"
  shows "rg_inv rg'" and "lease_table_of rg' = lease_table_of rg @ [l]"
proof -
  from inv a obtain st where st: "map_of (rg_roles rg) role = Some st"
    and p: "may_provide (rg_roles rg) role (ls_provider_id l)"
    and lr: "ls_token l = rg_next_lease_token rg" "ls_role l = role"
    and free: "rs_exclusive st \<longrightarrow> tokens_of (rg_leases rg) role = []"
    and rg': "rg' = rg\<lparr>rg_next_lease_token := rg_next_lease_token rg + 1,
        rg_leases := rg_leases rg @ [(rg_next_lease_token rg, l)],
        rg_role_leases := AList.update role (tokens_of (rg_leases rg) role @ [rg_next_lease_token rg]) (rg_role_leases rg)\<rparr>"
    by (rule acquire_Inr) blast
  note d = rg_invD [OF inv]
  have ok: "list_all (lease_ok (rg_roles rg) (rg_next_lease_token rg + 1)) (rg_leases rg)"
    using d(2) by (auto simp: list_all_iff lease_ok_def)
  have lt: "\<forall>t \<in> set (dict_keys (rg_leases rg)). t < rg_next_lease_token rg"
    using d(2) by (auto simp: list_all_iff lease_ok_def)
  show "rg_inv rg'"
    unfolding rg_inv_def rg' using d(1,3,4,5) ok lt st free p
    by (auto simp: lr lease_ok_def sorted_wrt_append dict_simps)
  show "lease_table_of rg' = lease_table_of rg @ [l]" by (simp add: rg' lease_table_of_def)
qed

lemma release_Inr:
  assumes inv: "rg_inv rg" and r: "release ref rg = Inr (l, rg')"
  shows "map_of (rg_leases rg) (ref_token ref) = Some l" and "ls_token l = ref_token ref"
    and "rg' = rg\<lparr>rg_leases := AList.delete (ls_token l) (rg_leases rg),
        rg_role_leases := AList.update (ls_role l) (remove1 (ls_token l) (tokens_of (rg_leases rg) (ls_role l))) (rg_role_leases rg)\<rparr>"
proof -
  show m: "map_of (rg_leases rg) (ref_token ref) = Some l"
    using r by (auto simp: release_def Let_def result_simps split: option.splits if_splits)
  then have "lease_ok (rg_roles rg) (rg_next_lease_token rg) (ref_token ref, l)"
    using rg_invD(2) [OF inv] by (auto simp: list_all_iff dest: map_of_SomeD)
  then show t: "ls_token l = ref_token ref" and "rg' = rg\<lparr>rg_leases := AList.delete (ls_token l) (rg_leases rg),
        rg_role_leases := AList.update (ls_role l) (remove1 (ls_token l) (tokens_of (rg_leases rg) (ls_role l))) (rg_role_leases rg)\<rparr>"
    using r m role_tokens_inv [OF inv]
    by (auto simp: release_def Let_def result_simps lease_ok_def may_provide_def split: option.splits if_splits)
qed

lemma values_delete:
  "sorted_wrt (<) (dict_keys ls) \<Longrightarrow> list_all (\<lambda>(t, l). ls_token l = t) ls \<Longrightarrow> map_of ls t = Some l \<Longrightarrow>
     dict_values (AList.delete t ls) = remove1 l (dict_values ls)"
proof (induction ls)
  case (Cons x ls)
  show ?case
  proof (cases "fst x = t")
    case True
    with Cons.prems have "AList.delete t ls = ls" by (intro delete_id) auto
    with True Cons.prems show ?thesis by (cases x) simp
  next
    case False
    then have "map_of ls t = Some l" using Cons.prems(3) by (cases x) simp
    moreover have "snd x \<noteq> l"
      using False Cons.prems calculation by (cases x) (auto simp: list_all_iff dest!: map_of_SomeD)
    ultimately show ?thesis using False Cons by (cases x) simp
  qed
qed simp

lemma release_inv:
  assumes inv: "rg_inv rg" and r: "release ref rg = Inr (l, rg')"
  shows "rg_inv rg'" and "l \<in> set (lease_table_of rg)" and "lease_table_of rg' = remove1 l (lease_table_of rg)"
proof -
  note s = release_Inr [OF inv r] and d = rg_invD [OF inv]
  have m: "map_of (rg_leases rg) (ls_token l) = Some l" using s by simp
  then have ok: "lease_ok (rg_roles rg) (rg_next_lease_token rg) (ls_token l, l)"
    using d(2) by (auto simp: list_all_iff dest: map_of_SomeD)
  note td = tokens_of_delete [OF d(1) m]
  have "length (remove1 (ls_token l) xs) \<le> length xs" for xs by (simp add: length_remove1)
  note le = le_trans [OF this]
  show "rg_inv rg'"
    unfolding rg_inv_def s(3) using d(2-5) sorted_delete [OF d(1)] ok le
    by (auto simp: td dict_simps list_all_delete lease_ok_def may_provide_def split: option.splits)
  show "l \<in> set (lease_table_of rg)" using m by (force simp: lease_table_of_def dest: map_of_SomeD)
  have "list_all (\<lambda>(t, l). ls_token l = t) (rg_leases rg)" using d(2) by (auto simp: list_all_iff lease_ok_def)
  from values_delete [OF d(1) this m] show "lease_table_of rg' = remove1 l (lease_table_of rg)"
    by (simp add: lease_table_of_def s(3))
qed

section \<open>The lease interface\<close>

text \<open>
  What a supervisor relies on when it leases roles: the table of active leases, seen as a list in
  acquisition order, changes only by the lease an operation reports.
\<close>

locale lease_interface =
  fixes inv :: "'s \<Rightarrow> bool"
    and table :: "'s \<Rightarrow> role_lease list"
    and acq :: "string \<Rightarrow> string option \<Rightarrow> string option \<Rightarrow> 's \<Rightarrow> ('e, role_lease \<times> 's) result"
    and rel :: "lease_ref \<Rightarrow> 's \<Rightarrow> ('e, role_lease \<times> 's) result"
  assumes table_distinct: "inv s \<Longrightarrow> distinct (table s)"
    and acq_law: "inv s \<Longrightarrow> acq r p h s = Inr (l, s') \<Longrightarrow> inv s' \<and> table s' = table s @ [l]"
    and rel_law: "inv s \<Longrightarrow> rel ref s = Inr (l, s') \<Longrightarrow>
      inv s' \<and> l \<in> set (table s) \<and> table s' = remove1 l (table s)"
    and rel_same: "rel (ByLease l) s = Inr (l', s') \<Longrightarrow> l' = l"
    and rel_total: "inv s \<Longrightarrow> l \<in> set (table s) \<Longrightarrow> \<exists>s'. rel (ByLease l) s = Inr (l, s')"
begin

lemma acquired_fresh: "inv s \<Longrightarrow> acq r p h s = Inr (l, s') \<Longrightarrow> l \<notin> set (table s)"
  using acq_law [of s r p h l s'] table_distinct [of s'] by auto

lemma acquire_release:
  assumes "inv s" and "acq r p h s = Inr (l, s')"
  shows "\<exists>s''. rel (ByLease l) s' = Inr (l, s'') \<and> inv s'' \<and> table s'' = table s"
proof -
  have s': "inv s'" "table s' = table s @ [l]" using acq_law [OF assms] by simp_all
  then obtain s'' where r: "rel (ByLease l) s' = Inr (l, s'')" using rel_total [of s' l] by auto
  have "remove1 l (table s') = table s"
    using acquired_fresh [OF assms] by (simp add: s' remove1_append)
  with rel_law [OF s'(1) r] r show ?thesis by auto
qed

lemma released_gone:
  assumes "inv s" and "rel (ByLease l) s = Inr (l, s')"
  shows "l \<notin> set (table s')" and "\<nexists>x. rel (ByLease l) s' = Inr x"
proof -
  show g: "l \<notin> set (table s')"
    using rel_law [OF assms] table_distinct [OF assms(1)] by auto
  show "\<nexists>x. rel (ByLease l) s' = Inr x"
  proof
    assume "\<exists>x. rel (ByLease l) s' = Inr x"
    then obtain l' s'' where r: "rel (ByLease l) s' = Inr (l', s'')" by auto
    from rel_same [OF r] rel_law [OF _ r] rel_law [OF assms] g show False by auto
  qed
qed

end

lemma lease_table_distinct: "rg_inv rg \<Longrightarrow> distinct (lease_table_of rg)"
proof -
  assume inv: "rg_inv rg"
  have "map ls_token (lease_table_of rg) = dict_keys (rg_leases rg)"
    using rg_invD(2) [OF inv] by (auto simp: lease_table_of_def list_all_iff lease_ok_def)
  then show ?thesis using rg_invD(1) [OF inv] by (metis distinct_map strict_sorted_iff)
qed

lemma lease_table_lookup:
  "rg_inv rg \<Longrightarrow> l \<in> set (lease_table_of rg) \<longleftrightarrow> map_of (rg_leases rg) (ls_token l) = Some l"
proof -
  assume inv: "rg_inv rg"
  have tok: "ls_token x = t" if "(t, x) \<in> set (rg_leases rg)" for t x
    using rg_invD(2) [OF inv] that by (auto simp: list_all_iff lease_ok_def)
  show ?thesis
    unfolding dict_wf_map_of [OF rg_inv_leases_wf [OF inv], symmetric] lease_table_of_def
  proof
    assume "l \<in> set (dict_values (rg_leases rg))"
    then obtain t where "(t, l) \<in> set (rg_leases rg)" by auto
    with tok [OF this] show "(ls_token l, l) \<in> set (rg_leases rg)" by simp
  qed force
qed

lemma release_total:
  assumes inv: "rg_inv rg" and l: "l \<in> set (lease_table_of rg)"
  shows "\<exists>rg'. release (ByLease l) rg = Inr (l, rg')"
proof -
  have m: "map_of (rg_leases rg) (ls_token l) = Some l" using lease_table_lookup [OF inv] l by simp
  then have "may_provide (rg_roles rg) (ls_role l) (ls_provider_id l)"
    using rg_invD(2) [OF inv] by (auto simp: list_all_iff lease_ok_def dest: map_of_SomeD)
  then obtain st where "map_of (rg_roles rg) (ls_role l) = Some st"
    by (auto simp: may_provide_def split: option.splits)
  with m role_tokens_inv [OF inv this] show ?thesis by (simp add: release_def ref_token_def Let_def)
qed

interpretation leases: lease_interface rg_inv lease_table_of acquire release
proof unfold_locales
  fix l s l' s'
  assume "release (ByLease l) s = Inr (l', s')"
  then show "l' = l"
    by (auto simp: release_def Let_def result_simps split: option.splits if_splits)
qed (auto simp: lease_table_distinct dest: acquire_inv release_inv intro: release_total)

lemma release_all_total:
  "rg_inv rg \<Longrightarrow> distinct ls \<Longrightarrow> set ls \<subseteq> set (lease_table_of rg) \<Longrightarrow>
     \<exists>rg'. release_all ls rg = Inr rg' \<and> rg_inv rg' \<and>
       lease_table_of rg' = filter (\<lambda>l. l \<notin> set ls) (lease_table_of rg) \<and> rg_roles rg' = rg_roles rg"
proof (induction ls arbitrary: rg)
  case (Cons l ls)
  then obtain r1 where r1: "release (ByLease l) rg = Inr (l, r1)" using release_total by fastforce
  note i = release_inv [OF Cons.prems(1) r1]
  have t: "lease_table_of r1 = filter (\<lambda>x. x \<noteq> l) (lease_table_of rg)"
    using i(3) lease_table_distinct [OF Cons.prems(1)] by (auto simp: distinct_remove1_removeAll removeAll_filter_not_eq intro: filter_cong)
  have "rg_roles r1 = rg_roles rg" using release_Inr(3) [OF Cons.prems(1) r1] by simp
  moreover have "set ls \<subseteq> set (lease_table_of r1)" using Cons.prems t by auto
  ultimately show ?case
    using Cons.IH [OF i(1)] Cons.prems(2) r1 t by (auto intro: filter_cong)
qed simp

lemma release_provider_total:
  assumes "rg_inv rg"
  shows "\<exists>rg'. release_provider p rg = Inr (filter (\<lambda>l. ls_provider_id l = p) (lease_table_of rg), rg') \<and>
    rg_inv rg' \<and> rg_roles rg' = rg_roles rg \<and>
    lease_table_of rg' = filter (\<lambda>l. ls_provider_id l \<noteq> p) (lease_table_of rg)"
proof -
  let ?m = "filter (\<lambda>l. ls_provider_id l = p) (lease_table_of rg)"
  have "distinct ?m" "set ?m \<subseteq> set (lease_table_of rg)" using lease_table_distinct [OF assms] by auto
  from release_all_total [OF assms this] obtain rg' where "release_all ?m rg = Inr rg'" "rg_inv rg'"
    "lease_table_of rg' = filter (\<lambda>l. l \<notin> set ?m) (lease_table_of rg)" "rg_roles rg' = rg_roles rg" by blast
  moreover have "filter (\<lambda>l. l \<notin> set ?m) (lease_table_of rg) = filter (\<lambda>l. ls_provider_id l \<noteq> p) (lease_table_of rg)"
    by (rule filter_cong) auto
  ultimately show ?thesis by (simp add: release_provider_def lease_table_of_def)
qed

lemma rg_inv_preferred:
  assumes "rg_inv rg" and "\<And>role p. map_of pr role = Some p \<Longrightarrow> may_provide (rg_roles rg) role p"
  shows "rg_inv (rg\<lparr>rg_preferred := pr\<rparr>)"
  using assms unfolding rg_inv_def by simp

lemma select_preferred_inv:
  assumes "rg_inv rg" and "select_preferred role p rg = Inr (q, rg')"
  shows "rg_inv rg'"
proof -
  from assms(2) obtain c where "get_candidate rg role p = Inr c"
    and "rg' = rg\<lparr>rg_preferred := AList.update role p (rg_preferred rg)\<rparr>"
    by (auto simp: select_preferred_def result_simps)
  with assms(1) rg_invD(5) [OF assms(1)] get_candidate_Inr show ?thesis
    by (auto intro!: rg_inv_preferred simp: dict_simps split: if_splits)
qed

lemma reset_preferred_inv:
  assumes "rg_inv rg" and "reset_preferred role rg = Inr (q, rg')"
  shows "rg_inv rg'"
  using assms rg_invD(5) [OF assms(1)]
  by (auto simp: reset_preferred_def result_simps Let_def dict_simps intro!: rg_inv_preferred split: if_splits)

lemma RoleRegistry_inv: "RoleRegistry comps prof disabled = Inr rg \<Longrightarrow> rg_inv rg"
proof -
  have "map_of (map (\<lambda>(role, _). (role, [] :: int list)) roles) r = (if map_of roles r = None then None else Some [])"
    for roles :: "(string, role_state) dict" and r
    by (induction roles) auto
  then show "RoleRegistry comps prof disabled = Inr rg \<Longrightarrow> ?thesis"
    by (auto simp: RoleRegistry_def result_simps rg_inv_def tokens_of_def)
qed

section \<open>Runs of the registry\<close>

inductive role_step :: "role_registry \<Rightarrow> role_registry \<Rightarrow> bool" where
  step_acquire: "acquire role p h rg = Inr (l, rg') \<Longrightarrow> role_step rg rg'"
| step_release: "release ref rg = Inr (l, rg') \<Longrightarrow> role_step rg rg'"
| step_release_provider: "release_provider p rg = Inr (ls, rg') \<Longrightarrow> role_step rg rg'"
| step_select: "select_preferred role p rg = Inr (q, rg') \<Longrightarrow> role_step rg rg'"
| step_reset: "reset_preferred role rg = Inr (d, rg') \<Longrightarrow> role_step rg rg'"

inductive_cases role_stepE: "role_step rg rg'"

interpretation registry: invariant_system
  "\<lambda>rg. \<exists>comps prof disabled. RoleRegistry comps prof disabled = Inr rg" role_step rg_inv
proof unfold_locales
  fix rg rg'
  assume inv: "rg_inv rg" and "role_step rg rg'"
  from this(2) show "rg_inv rg'"
  proof cases
    case (step_release_provider p ls)
    with release_provider_total [OF inv, of p] show ?thesis by auto
  qed (use inv in \<open>auto dest: acquire_inv release_inv select_preferred_inv reset_preferred_inv\<close>)
qed (auto dest: RoleRegistry_inv)

text \<open>The leases of one role in the abstract table.\<close>

definition leases_for :: "role_registry \<Rightarrow> string \<Rightarrow> role_lease list" where
  "leases_for rg role = filter (\<lambda>l. ls_role l = role) (lease_table_of rg)"

lemma tokens_leases_for: "rg_inv rg \<Longrightarrow> tokens_of (rg_leases rg) role = map ls_token (leases_for rg role)"
  using rg_invD(2) [of rg]
  by (induction "rg_leases rg" rule: rev_induct)
    (auto simp: tokens_of_def leases_for_def lease_table_of_def list_all_iff lease_ok_def filter_map o_def
      case_prod_beta' intro!: map_cong)

lemma active_leases_spec:
  assumes inv: "rg_inv rg" and "map_of (rg_roles rg) role = Some st"
  shows "active_leases rg role = Inr (leases_for rg role)"
proof -
  have "list_all2 (\<lambda>t l. lease_of rg t = Inr l) (map ls_token (leases_for rg role)) (leases_for rg role)"
    using lease_table_lookup [OF inv]
    by (auto simp: list_all2_map1 list_all2_same leases_for_def lease_of_def)
  with assms show ?thesis
    by (simp add: active_leases_def rg_state_def role_tokens_inv tokens_leases_for traverse_Inr_iff)
qed



text \<open>
  Leasing an exclusive role to one of its candidates succeeds exactly when the role has no
  active lease, and then that lease is the only one; otherwise it is refused, also for the same
  provider, naming the provider that holds the role.
\<close>

lemma acquire_exclusive:
  assumes inv: "rg_inv rg" and st: "map_of (rg_roles rg) role = Some st" and ex: "rs_exclusive st"
    and p: "may_provide (rg_roles rg) role p"
  shows "case leases_for rg role of
      [] \<Rightarrow> \<exists>l rg'. acquire role (Some p) h rg = Inr (l, rg') \<and> ls_provider_id l = p \<and> ls_holder l = h \<and>
              rg_inv rg' \<and> leases_for rg' role = [l]
    | l # _ \<Rightarrow> acquire role (Some p) h rg = Inl (LeaseConflictError role (ls_provider_id l))"
proof -
  obtain c where c: "get_candidate rg role p = Inr c" using get_candidate_iff p by blast
  then have cp: "rc_provider_id c = p" using get_candidate_Inr by blast
  note tok = role_tokens_inv [OF inv st, unfolded tokens_leases_for [OF inv]]
  show ?thesis
  proof (cases "leases_for rg role")
    case Nil
    then have "\<exists>l rg'. acquire role (Some p) h rg = Inr (l, rg') \<and> ls_provider_id l = p \<and> ls_holder l = h \<and> ls_role l = role"
      using st c tok cp by (simp add: acquire_def rg_state_def Let_def)
    then obtain l rg' where a: "acquire role (Some p) h rg = Inr (l, rg')"
      "ls_provider_id l = p" "ls_holder l = h" "ls_role l = role" by blast
    have "leases_for rg' role = [l]"
      using acquire_inv(2) [OF inv a(1)] Nil a(4) by (simp add: leases_for_def)
    with a acquire_inv(1) [OF inv a(1)] Nil show ?thesis by simp
  next
    case (Cons l ls)
    then have "l \<in> set (lease_table_of rg)" by (auto simp: leases_for_def filter_eq_Cons_iff)
    then have "lease_of rg (ls_token l) = Inr l" using lease_table_lookup [OF inv] by (simp add: lease_of_def)
    with Cons st c tok ex show ?thesis by (simp add: acquire_def rg_state_def)
  qed
qed

lemma demo_roles_inv: "rg_inv demo_roles"
  using demo_roles_eq by (rule RoleRegistry_inv)

text \<open>
  Acquiring a lease and releasing it gives back the lease table as it was, whatever the role,
  and the released lease cannot be released a second time.
\<close>

lemma acquire_release_roundtrip:
  assumes "rg_inv rg" and "acquire role p h rg = Inr (l, rg1)"
  shows "\<exists>rg2. release (ByLease l) rg1 = Inr (l, rg2) \<and> rg_inv rg2 \<and>
    lease_table_of rg2 = lease_table_of rg \<and> (\<nexists>x. release (ByLease l) rg2 = Inr x)"
proof -
  from leases.acquire_release [OF assms] obtain rg2 where
    r: "release (ByLease l) rg1 = Inr (l, rg2)" "rg_inv rg2" "lease_table_of rg2 = lease_table_of rg" by blast
  from leases.released_gone(2) [OF acquire_inv(1) [OF assms] r(1)] r show ?thesis by blast
qed

text \<open>
  When a component stops, releasing its leases always succeeds: it returns exactly the leases
  of that provider, in acquisition order, and keeps exactly the others.
\<close>

lemma release_provider_exact:
  assumes "rg_inv rg"
  shows "\<exists>rg'. release_provider p rg = Inr (filter (\<lambda>l. ls_provider_id l = p) (lease_table_of rg), rg') \<and>
    rg_inv rg' \<and> lease_table_of rg' = filter (\<lambda>l. ls_provider_id l \<noteq> p) (lease_table_of rg)"
  using release_provider_total [OF assms] by blast

section \<open>Preferences\<close>

lemma resolve_hd:
  assumes "map_of (rg_roles rg) role = Some st" and "map_of (rg_preferred rg) role = None"
  shows "resolve_role rg role = (case rs_candidates st of
      [] \<Rightarrow> Inl (NoCandidateError role) | c # _ \<Rightarrow> Inr (rc_provider_id c))"
  using assms
  by (auto simp: resolve_role_def resolve_candidate_def preferred_provider_def rg_state_def
      get_candidate_def list_candidates_def split: list.split)

lemma resolve_selected:
  assumes "map_of (rg_preferred rg) role = Some p" and "may_provide (rg_roles rg) role p"
  shows "resolve_role rg role = Inr p"
proof -
  from assms(2) obtain st where st: "map_of (rg_roles rg) role = Some st"
    by (auto simp: may_provide_def split: option.splits)
  obtain c where c: "get_candidate rg role p = Inr c" using get_candidate_iff assms(2) by blast
  with get_candidate_Inr [OF c] st assms(1) show ?thesis
    by (simp add: resolve_role_def resolve_candidate_def preferred_provider_def rg_state_def)
qed

text \<open>
  A preference only ever selects a candidate: selecting succeeds exactly for candidates, the
  role then resolves to the selected provider, and resetting returns to the first candidate.
\<close>

lemma select_and_reset:
  assumes "map_of (rg_roles rg) role = Some st"
  shows "((\<exists>x. select_preferred role p rg = Inr x) \<longleftrightarrow> p \<in> rc_provider_id ` set (rs_candidates st)) \<and>
    (\<forall>q rg1. select_preferred role p rg = Inr (q, rg1) \<longrightarrow> q = p \<and> resolve_role rg1 role = Inr p \<and>
       (\<exists>d rg2. reset_preferred role rg1 = Inr (d, rg2) \<and> d = map_option rc_provider_id (case rs_candidates st of [] \<Rightarrow> None | c # _ \<Rightarrow> Some c) \<and>
          resolve_role rg2 role = (case rs_candidates st of
            [] \<Rightarrow> Inl (NoCandidateError role) | c # _ \<Rightarrow> Inr (rc_provider_id c))))"
proof (intro conjI allI impI)
  have g: "(\<exists>c. get_candidate rg role p = Inr c) \<longleftrightarrow> p \<in> rc_provider_id ` set (rs_candidates st)"
    using get_candidate_iff [of rg role p] assms by (simp add: may_provide_def)
  then show "(\<exists>x. select_preferred role p rg = Inr x) \<longleftrightarrow> p \<in> rc_provider_id ` set (rs_candidates st)"
    by (auto simp: select_preferred_def result_simps)
  fix q rg1
  assume "select_preferred role p rg = Inr (q, rg1)"
  then have q: "q = p" and rg1: "rg1 = rg\<lparr>rg_preferred := AList.update role p (rg_preferred rg)\<rparr>"
    and m: "may_provide (rg_roles rg) role p"
    by (auto simp: select_preferred_def result_simps dest: get_candidate_Inr)
  from q show "q = p" .
  show "resolve_role rg1 role = Inr p"
    by (rule resolve_selected) (simp_all add: rg1 dict_simps m)
  let ?rg2 = "rg1\<lparr>rg_preferred := AList.delete role (rg_preferred rg1)\<rparr>"
  have "resolve_role ?rg2 role = (case rs_candidates st of
      [] \<Rightarrow> Inl (NoCandidateError role) | c # _ \<Rightarrow> Inr (rc_provider_id c))"
    by (rule resolve_hd) (simp_all add: rg1 dict_simps assms)
  moreover have "reset_preferred role rg1 =
      Inr (map_option rc_provider_id (case rs_candidates st of [] \<Rightarrow> None | c # _ \<Rightarrow> Some c), ?rg2)"
    using assms
    by (simp add: reset_preferred_def rg_state_def rg1 Let_def preferred_provider_def dict_simps split: list.split)
  ultimately show "\<exists>d rg2. reset_preferred role rg1 = Inr (d, rg2) \<and> d = map_option rc_provider_id (case rs_candidates st of [] \<Rightarrow> None | c # _ \<Rightarrow> Some c) \<and>
      resolve_role rg2 role = (case rs_candidates st of
        [] \<Rightarrow> Inl (NoCandidateError role) | c # _ \<Rightarrow> Inr (rc_provider_id c))" by blast
qed

text \<open>
  Without a profile entry an enabled role resolves to the best declared provider: no candidate
  has a higher priority, and among equals none has a smaller id.
\<close>

lemma default_provider_best:
  assumes wf: "dict_wf comps" and rg: "RoleRegistry comps prof disabled = Inr rg"
    and st: "map_of (rg_roles rg) role = Some st" and none: "jget_null prof role = JNull"
    and d: "d \<in> set (rs_candidates st)"
  shows "\<exists>c \<in> set (rs_candidates st). resolve_role rg role = Inr (rc_provider_id c) \<and>
    (rc_priority d < rc_priority c \<or> rc_priority d = rc_priority c \<and> rc_provider_id c \<le> rc_provider_id d)"
proof -
  from rg have b: "build_roles comps prof disabled = Inr (rg_roles rg)" and p: "rg_preferred rg = []"
    by (auto simp: RoleRegistry_def result_simps)
  note r = build_roles_lookup [OF b st]
  have "profile_candidate_ids (jget_null prof role) = Inr []" by (simp add: none profile_candidate_ids_def)
  from build_role_candidates [OF wf r(2) r(1) this]
  have s: "sorted (map (\<lambda>c. (- rc_priority c, rc_provider_id c)) (rs_candidates st))"
    by (simp add: candidates_ok_def)
  from d obtain c cs where c: "rs_candidates st = c # cs" by (cases "rs_candidates st") auto
  have "(- rc_priority c, rc_provider_id c) \<le> (- rc_priority d, rc_provider_id d)"
    using s d unfolding c by (auto simp del: less_eq_prod_simp)
  then show ?thesis
    using resolve_hd [OF st] p c by (auto simp: less_eq_prod_def)
qed

end
