(* ===== verification/Services.thy ===== *)
theory Services
  imports Manifest
begin

text \<open>
  The catalog of interfaces and capabilities (\<open>msys_core/services.py\<close>).  The catalog is built once
  from the component catalog: a dictionary from (kind, name) to the ordered providers.  The lemmas
  show what \<open>providers\<close> returns for every catalog, that the provider chosen by default is the best
  one, and that \<open>entries\<close> lists exactly the providers of all services.
\<close>

section \<open>Data\<close>

definition SERVICE_KINDS :: "string list" where
  "SERVICE_KINDS = [''interface'', ''capability'']"

datatype service_error =
    UnknownServiceError string string
  | UnknownServiceProviderError string string string
  | UnsupportedKind string
  | ServiceIndexError

record service_provider =
  sp_kind :: string
  sp_name :: string
  sp_component :: string
  sp_priority :: int
  sp_exclusive :: bool

type_synonym service_key = "string \<times> string"
type_synonym folded = "(service_key, (string, service_provider) dict) dict"
type_synonym service_catalog = "(service_key, service_provider list) dict"

section \<open>Building the catalog\<close>

definition service_candidate :: "string \<Rightarrow> provide \<Rightarrow> service_provider" where
  "service_candidate component_id p =
     \<lparr>sp_kind = pv_kind p, sp_name = pv_name p, sp_component = component_id,
      sp_priority = pv_priority p, sp_exclusive = pv_exclusive p\<rparr>"

definition fold_provide :: "string \<Rightarrow> provide \<Rightarrow> folded \<Rightarrow> folded" where
  "fold_provide component_id p acc =
     (if pv_kind p \<notin> set SERVICE_KINDS then acc
      else
        let key = (pv_kind p, pv_name p);
            per_service = dict_get_or acc key [];
            candidate = service_candidate component_id p;
            entry = (case map_of per_service component_id of
                None \<Rightarrow> candidate
              | Some previous \<Rightarrow> candidate\<lparr>sp_priority := max (sp_priority previous) (sp_priority candidate),
                  sp_exclusive := sp_exclusive previous \<or> sp_exclusive candidate\<rparr>)
        in AList.update key (AList.update component_id entry per_service) acc)"

definition folded_services :: "catalog \<Rightarrow> folded" where
  "folded_services components =
     fold (\<lambda>(component_id, component). fold (fold_provide component_id) (c_provides component)) components []"

definition provider_rank :: "service_provider \<Rightarrow> int \<times> string" where
  "provider_rank p = (- sp_priority p, sp_component p)"

definition ServiceCatalog :: "catalog \<Rightarrow> service_catalog" where
  "ServiceCatalog components =
     map (\<lambda>(key, providers). (key, sort_key provider_rank (dict_values providers))) (folded_services components)"

section \<open>Queries\<close>

definition checked_kind :: "string \<Rightarrow> (service_error, string) result" where
  "checked_kind kind = (if kind \<notin> set SERVICE_KINDS then Inl (UnsupportedKind kind) else Inr kind)"

definition service_names :: "service_catalog \<Rightarrow> string \<Rightarrow> (service_error, string list) result" where
  "service_names cat kind =
     rbind (checked_kind kind) (\<lambda>checked.
       Inr (map snd (filter (\<lambda>(service_kind, _). service_kind = checked) (sort (dict_keys cat)))))"

definition providers :: "service_catalog \<Rightarrow> string \<Rightarrow> string \<Rightarrow> (service_error, service_provider list) result" where
  "providers cat kind name =
     rbind (checked_kind kind) (\<lambda>checked. case map_of cat (checked, name) of
         Some ps \<Rightarrow> Inr ps
       | None \<Rightarrow> Inl (UnknownServiceError checked name))"

definition provider_ids :: "service_catalog \<Rightarrow> string \<Rightarrow> string \<Rightarrow> (service_error, string list) result" where
  "provider_ids cat kind name = rbind (providers cat kind name) (\<lambda>ps. Inr (map sp_component ps))"

definition get_provider ::
  "service_catalog \<Rightarrow> string \<Rightarrow> string \<Rightarrow> string option \<Rightarrow> (service_error, service_provider) result" where
  "get_provider cat kind name component =
     rbind (providers cat kind name) (\<lambda>ps. case component of
         None \<Rightarrow> (case ps of [] \<Rightarrow> Inl ServiceIndexError | p # _ \<Rightarrow> Inr p)
       | Some c \<Rightarrow> (case find (\<lambda>p. sp_component p = c) ps of
             Some p \<Rightarrow> Inr p
           | None \<Rightarrow> Inl (UnknownServiceProviderError c kind name)))"

definition service_entries :: "service_catalog \<Rightarrow> string option \<Rightarrow> (service_error, service_provider list) result" where
  "service_entries cat kind =
     rbind (case kind of None \<Rightarrow> Inr None | Some k \<Rightarrow> rbind (checked_kind k) (\<lambda>c. Inr (Some c)))
       (\<lambda>checked. Inr (concat (map snd
          (filter (\<lambda>((service_kind, _), _). checked = None \<or> checked = Some service_kind)
            (sort_key fst cat)))))"

section \<open>What the catalog holds\<close>

text \<open>
  The specification: component \<open>c\<close> provides service \<open>(kind, name)\<close> when one of its \<open>provides\<close> entries
  says so; several entries count as one with the highest priority and the strictest exclusivity.
\<close>

definition service_provides :: "service_key \<Rightarrow> provide list \<Rightarrow> provide list" where
  "service_provides key = filter (\<lambda>p. pv_kind p \<in> set SERVICE_KINDS \<and> (pv_kind p, pv_name p) = key)"

definition provider_spec :: "service_key \<Rightarrow> string \<Rightarrow> provide list \<Rightarrow> service_provider option" where
  "provider_spec key component_id ps =
     (let qs = service_provides key ps in
      if qs = [] then None
      else Some \<lparr>sp_kind = fst key, sp_name = snd key, sp_component = component_id,
                sp_priority = Max (pv_priority ` set qs), sp_exclusive = list_ex pv_exclusive qs\<rparr>)"

definition provider_join :: "service_provider option \<Rightarrow> service_provider option \<Rightarrow> service_provider option" where
  "provider_join a b = (case a of None \<Rightarrow> b | Some p \<Rightarrow>
     (case b of None \<Rightarrow> a | Some q \<Rightarrow> Some (q\<lparr>sp_priority := max (sp_priority p) (sp_priority q),
        sp_exclusive := sp_exclusive p \<or> sp_exclusive q\<rparr>)))"

definition folded_lookup :: "folded \<Rightarrow> service_key \<Rightarrow> string \<Rightarrow> service_provider option" where
  "folded_lookup acc key c = map_of (dict_get_or acc key []) c"

lemma provider_join_simps [simp]: "provider_join None b = b" "provider_join a None = a"
  by (simp_all add: provider_join_def split: option.split)

lemma provider_join_assoc: "provider_join (provider_join a b) c = provider_join a (provider_join b c)"
  by (auto simp: provider_join_def max.assoc split: option.split)

lemma provider_spec_Cons:
  "provider_spec key c (p # ps) =
     provider_join (if pv_kind p \<in> set SERVICE_KINDS \<and> (pv_kind p, pv_name p) = key then Some (service_candidate c p) else None)
       (provider_spec key c ps)"
proof -
  have "service_provides key (p # ps) =
      (if pv_kind p \<in> set SERVICE_KINDS \<and> (pv_kind p, pv_name p) = key
       then p # service_provides key ps else service_provides key ps)"
    by (simp add: service_provides_def)
  then show ?thesis
    by (cases "service_provides key ps = []")
      (auto simp: provider_spec_def Let_def provider_join_def service_candidate_def)
qed

lemma fold_provide_lookup:
  "folded_lookup (fold_provide cid p acc) key c =
     provider_join (folded_lookup acc key c)
       (if c = cid \<and> pv_kind p \<in> set SERVICE_KINDS \<and> (pv_kind p, pv_name p) = key
        then Some (service_candidate cid p) else None)"
  by (auto simp: fold_provide_def folded_lookup_def dict_get_or_def dict_simps Let_def provider_join_def
      split: option.splits)

lemma fold_provides_lookup:
  "folded_lookup (fold (fold_provide cid) ps acc) key c =
     provider_join (folded_lookup acc key c) (if c = cid then provider_spec key cid ps else None)"
proof (induction ps arbitrary: acc)
  case Nil
  then show ?case by (simp add: provider_spec_def service_provides_def)
next
  case (Cons p ps)
  then show ?case by (simp add: fold_provide_lookup provider_spec_Cons provider_join_assoc)
qed

lemma folded_services_lookup:
  assumes "dict_wf comps"
  shows "folded_lookup (folded_services comps) key c =
    (case map_of comps c of None \<Rightarrow> None | Some k \<Rightarrow> provider_spec key c (c_provides k))"
proof -
  have "dict_wf cs \<Longrightarrow> folded_lookup (fold (\<lambda>(i, k). fold (fold_provide i) (c_provides k)) cs acc) key c =
      provider_join (folded_lookup acc key c)
        (case map_of cs c of None \<Rightarrow> None | Some k \<Rightarrow> provider_spec key c (c_provides k))" for cs acc
  proof (induction cs arbitrary: acc)
    case (Cons x cs)
    obtain i k where [simp]: "x = (i, k)" by (cases x)
    have "map_of cs i = None" "dict_wf cs" using Cons.prems by (simp_all add: dict_wf_def map_of_eq_None_iff)
    then show ?case by (simp add: Cons.IH fold_provides_lookup provider_join_assoc)
  qed simp
  from this [OF assms, of "[]"] show ?thesis
    by (simp add: folded_services_def folded_lookup_def dict_get_or_def)
qed

text \<open>Every table of the accumulator is a non-empty dictionary under a supported kind.\<close>

definition folded_wf :: "folded \<Rightarrow> bool" where
  "folded_wf acc \<longleftrightarrow> dict_wf acc \<and>
     list_all (\<lambda>(key, m). dict_wf m \<and> m \<noteq> [] \<and> fst key \<in> set SERVICE_KINDS) acc"

lemma fold_provide_wf: "folded_wf acc \<Longrightarrow> folded_wf (fold_provide cid p acc)"
proof -
  assume "folded_wf acc"
  moreover from this have "dict_wf (dict_get_or acc k [])" for k
    by (auto simp: folded_wf_def dict_get_or_def list_all_iff split: option.split dest: map_of_SomeD)
  ultimately show ?thesis
    by (auto simp: fold_provide_def Let_def folded_wf_def intro!: list_all_update)
qed

lemma folded_services_wf: "folded_wf (folded_services comps)"
proof -
  have "folded_wf (fold (fold_provide i) ps acc)" if "folded_wf acc" for i ps acc
    using that by (induction ps arbitrary: acc) (auto simp: fold_provide_wf)
  then have "folded_wf (fold (\<lambda>(i, k). fold (fold_provide i) (c_provides k)) cs acc)" if "folded_wf acc" for cs acc
    using that by (induction cs arbitrary: acc) auto
  from this [of "[]" comps] show ?thesis by (simp add: folded_services_def folded_wf_def [of "[]"])
qed

interpretation service_rank: ranked sp_priority sp_component .

lemma provider_rank_eq: "provider_rank = (\<lambda>p. (- sp_priority p, sp_component p))"
  by (simp add: provider_rank_def fun_eq_iff)

lemma catalog_lookup:
  "map_of (ServiceCatalog comps) key =
     map_option (\<lambda>m. sort_key provider_rank (dict_values m)) (map_of (folded_services comps) key)"
proof -
  have "map_of (map (\<lambda>(k, v). (k, f v)) xs) key = map_option f (map_of xs key)"
    for xs :: folded and f :: "(string, service_provider) dict \<Rightarrow> service_provider list"
    by (induction xs) auto
  then show ?thesis by (simp add: ServiceCatalog_def)
qed

text \<open>The providers of a service, as the catalog of components declares them.\<close>

definition declared_providers :: "catalog \<Rightarrow> service_key \<Rightarrow> service_provider set" where
  "declared_providers comps key =
     {p. \<exists>c k. map_of comps c = Some k \<and> provider_spec key c (c_provides k) = Some p}"

lemma provider_spec_component: "provider_spec key c ps = Some p \<Longrightarrow> sp_component p = c"
  by (auto simp: provider_spec_def Let_def split: if_splits)

lemma folded_table:
  assumes wf: "dict_wf comps" and m: "map_of (folded_services comps) key = Some m"
  shows "dict_wf m" and "m \<noteq> []" and "set (dict_values m) = declared_providers comps key"
    and "list_all (\<lambda>(c, p). sp_component p = c) m"
proof -
  have "(key, m) \<in> set (folded_services comps)" using m by (rule map_of_SomeD)
  then show w: "dict_wf m" and "m \<noteq> []"
    using folded_services_wf [of comps] by (auto simp: folded_wf_def list_all_iff)
  have l: "(c, p) \<in> set m \<longleftrightarrow> (\<exists>k. map_of comps c = Some k \<and> provider_spec key c (c_provides k) = Some p)" for c p
    using folded_services_lookup [OF wf, of key c] m dict_wf_map_of [OF w, of c p]
    by (auto simp: folded_lookup_def dict_get_or_def split: option.splits)
  show "set (dict_values m) = declared_providers comps key"
    using l by (force simp: declared_providers_def)
  show "list_all (\<lambda>(c, p). sp_component p = c) m"
    using l by (auto simp: list_all_iff dest: provider_spec_component)
qed

lemma folded_table_inj:
  assumes wf: "dict_wf comps" and m: "map_of (folded_services comps) key = Some m"
  shows "inj_on sp_component (set (dict_values m))" and "distinct (dict_values m)"
proof -
  note t = folded_table [OF wf m]
  have "map sp_component (dict_values m) = dict_keys m" using t(4) by (auto simp: list_all_iff)
  then show "inj_on sp_component (set (dict_values m))" and "distinct (dict_values m)"
    using t(1) by (metis dict_wf_def distinct_map)+
qed

lemma folded_None:
  assumes wf: "dict_wf comps" and m: "map_of (folded_services comps) key = None"
  shows "declared_providers comps key = {}"
proof -
  have "provider_spec key c (c_provides k) = None" if "map_of comps c = Some k" for c k
    using folded_services_lookup [OF wf, of key c] m that by (simp add: folded_lookup_def dict_get_or_def)
  then show ?thesis by (auto simp: declared_providers_def)
qed

text \<open>
  For every supported kind and every name, the catalog answers with exactly the declared
  providers: each component once, best first (descending priority, then id).  A service nobody
  declares, and only such a service, is reported as unknown.
\<close>

lemma providers_spec:
  assumes wf: "dict_wf comps" and k: "kind \<in> set SERVICE_KINDS"
  shows "case providers (ServiceCatalog comps) kind name of
      Inl e \<Rightarrow> e = UnknownServiceError kind name \<and> declared_providers comps (kind, name) = {}
    | Inr ps \<Rightarrow> ps \<noteq> [] \<and> set ps = declared_providers comps (kind, name) \<and>
        distinct (map sp_component ps) \<and> sorted (map provider_rank ps)"
proof (cases "map_of (folded_services comps) (kind, name)")
  case None
  with k folded_None [OF wf None] show ?thesis
    by (simp add: providers_def checked_kind_def catalog_lookup)
next
  case (Some m)
  note t = folded_table [OF wf Some]
  let ?ps = "sort_key provider_rank (dict_values m)"
  have "distinct (map sp_component ?ps)" using folded_table_inj [OF wf Some] by (simp add: distinct_map)
  moreover have "?ps \<noteq> []" using t(2) by (metis map_is_Nil_conv set_empty set_sort)
  moreover have "sorted (map provider_rank ?ps)" by (rule sorted_sort_key)
  ultimately show ?thesis
    using k Some t(3) by (simp add: providers_def checked_kind_def catalog_lookup)
qed

text \<open>Three components of which two implement one interface, for concrete instances.\<close>

definition demo_services :: catalog where
  "demo_services = projr (load_manifests (\<lambda>_. Inr (JObj
     [(''schema'', JStr ''msys.manifest.v1''),
      (''package'', JObj [(''id'', JStr ''org.s'')]),
      (''components'', JList
        [JObj [(''id'', JStr ''a''), (''exec'', JList []),
               (''provides'', JList [JObj [(''interface'', JStr ''store''), (''priority'', JInt 1)]])],
         JObj [(''id'', JStr ''b''), (''exec'', JList []),
               (''provides'', JList [JObj [(''interface'', JStr ''store''), (''priority'', JInt 2)],
                                     JObj [(''interface'', JStr ''store''), (''priority'', JInt 7)]])]])]))
     [[''m.json'']] [])"

text \<open>
  Asking for a service without naming a provider returns a best one: no declared provider has a
  higher priority, and among equals none has a smaller id; the empty-tuple access never happens.
  Naming a component succeeds exactly when it declares the service.
\<close>

lemma get_provider_best:
  assumes wf: "dict_wf comps" and k: "kind \<in> set SERVICE_KINDS"
    and q: "q \<in> declared_providers comps (kind, name)"
  shows "(\<exists>p. get_provider (ServiceCatalog comps) kind name None = Inr p \<and>
      p \<in> declared_providers comps (kind, name) \<and>
      (sp_priority q < sp_priority p \<or> sp_priority q = sp_priority p \<and> sp_component p \<le> sp_component q)) \<and>
    get_provider (ServiceCatalog comps) kind name (Some (sp_component q)) = Inr q"
proof -
  obtain m where m: "map_of (folded_services comps) (kind, name) = Some m"
    using folded_None [OF wf] q by (cases "map_of (folded_services comps) (kind, name)") auto
  note t = folded_table [OF wf m]
  let ?ps = "sort_key provider_rank (dict_values m)"
  have ps: "providers (ServiceCatalog comps) kind name = Inr ?ps"
    using k m by (simp add: providers_def checked_kind_def catalog_lookup)
  have ne: "dict_values m \<noteq> []" and q': "q \<in> set (dict_values m)" using t(2,3) q by auto
  have rk: "provider_rank = service_rank.rank" by (rule provider_rank_eq)
  have sne: "?ps \<noteq> []" using ne by (metis set_empty set_sort)
  have "hd ?ps \<in> declared_providers comps (kind, name)" using sne t(3) by (metis hd_in_set set_sort)
  moreover have "get_provider (ServiceCatalog comps) kind name None = Inr (hd ?ps)"
    using sne by (cases ?ps) (simp_all add: get_provider_def ps)
  moreover have "sp_priority q < sp_priority (hd ?ps) \<or>
      sp_priority q = sp_priority (hd ?ps) \<and> sp_component (hd ?ps) \<le> sp_component q"
    using service_rank.hd_best [OF ne q'] service_rank.hd_least_ident [OF ne q'] unfolding rk by linarith
  moreover have "find (\<lambda>p. sp_component p = sp_component q) ?ps = Some q"
  proof (rule find_inj)
    show "inj_on sp_component (set ?ps)" using folded_table_inj(1) [OF wf m] by simp
    show "q \<in> set ?ps" using q' by simp
  qed
  ultimately show ?thesis by (auto simp: get_provider_def ps)
qed

lemma catalog_set:
  assumes "dict_wf comps"
  shows "(key, ps) \<in> set (ServiceCatalog comps) \<Longrightarrow> set ps = declared_providers comps key \<and> fst key \<in> set SERVICE_KINDS"
proof -
  assume "(key, ps) \<in> set (ServiceCatalog comps)"
  then obtain m where m: "(key, m) \<in> set (folded_services comps)" and ps: "ps = sort_key provider_rank (dict_values m)"
    by (auto simp: ServiceCatalog_def)
  have "dict_wf (folded_services comps)" "fst key \<in> set SERVICE_KINDS"
    using folded_services_wf [of comps] m by (auto simp: folded_wf_def list_all_iff)
  with m have "map_of (folded_services comps) key = Some m" by (simp add: dict_wf_map_of)
  from folded_table(3) [OF assms this] ps \<open>fst key \<in> _\<close> show ?thesis by simp
qed

text \<open>Listing all services returns exactly the declared providers of all services.\<close>

lemma service_entries_complete:
  assumes "dict_wf comps"
  shows "\<exists>es. service_entries (ServiceCatalog comps) None = Inr es \<and>
      set es = (\<Union>kind \<in> set SERVICE_KINDS. \<Union>name. declared_providers comps (kind, name))"
proof -
  have "p \<in> set (concat (map snd (ServiceCatalog comps)))"
    if "p \<in> declared_providers comps (kind, name)" for p kind name
  proof -
    from that folded_None [OF assms] obtain m where "map_of (folded_services comps) (kind, name) = Some m"
      by (cases "map_of (folded_services comps) (kind, name)") auto
    then have "((kind, name), sort_key provider_rank (dict_values m)) \<in> set (ServiceCatalog comps)"
      by (force simp: ServiceCatalog_def dest: map_of_SomeD)
    moreover have "p \<in> set (sort_key provider_rank (dict_values m))"
      using folded_table(3) [OF assms \<open>map_of _ _ = Some m\<close>] that by simp
    ultimately show ?thesis by (force simp del: set_sort)
  qed
  note declared = this
  have "p \<in> (\<Union>kind \<in> set SERVICE_KINDS. \<Union>name. declared_providers comps (kind, name))"
    if "p \<in> set (concat (map snd (ServiceCatalog comps)))" for p
  proof -
    from that obtain kind name ps where "((kind, name), ps) \<in> set (ServiceCatalog comps)" "p \<in> set ps" by auto
    with catalog_set [OF assms this(1)] show ?thesis by auto
  qed
  then have "set (concat (map snd (ServiceCatalog comps))) =
      (\<Union>kind \<in> set SERVICE_KINDS. \<Union>name. declared_providers comps (kind, name))"
    by (intro subset_antisym subsetI) (blast intro: declared)+
  moreover have "set (concat (map snd (sort_key fst (ServiceCatalog comps)))) = set (concat (map snd (ServiceCatalog comps)))"
    by simp
  moreover have "service_entries (ServiceCatalog comps) None = Inr (concat (map snd (sort_key fst (ServiceCatalog comps))))"
    by (simp add: service_entries_def case_prod_beta')
  ultimately show ?thesis by metis
qed

end
