(* ===== verification/Profile_Contract.thy ===== *)
theory Profile_Contract
  imports Manifest
begin

text \<open>
  The validator of \<open>msys.profile.v1\<close> (\<open>msys_core/profile_contract.py\<close>) and the profile loader of
  \<open>msys_core/manifest.py\<close>.  Exceptions carry the text the source puts into them.  The JSON decoder is
  represented by the tree it hands to its hooks: objects as the list of all their pairs, and the
  three non-finite constants as \<open>JOther\<close>; a malformed text or an unreadable file is an outcome of
  the reader.

  The lemmas show that the validator accepts exactly the documents that satisfy the contract,
  stated separately as \<open>profile_ok\<close>, and returns them unchanged.
\<close>

datatype profile_error = ProfileContractError string

section \<open>Patterns\<close>

definition PROFILE_ID_rx :: rx where
  "PROFILE_ID_rx = RSeq (RCls [az]) (RStar (RCls [az, d09, one CHR ''.'', one CHR ''-'']))"

definition ROLE_rx :: rx where
  "ROLE_rx = RSeq (RCls [az]) (RStar (RCls [az, d09, one CHR ''.'', one CHR ''-'']))"

definition COMPONENT_REF_rx :: rx where
  "COMPONENT_REF_rx =
     RSeq
       (rx_opt (rx_seqs
         [RCls [az, d09], RStar (RCls [az, d09, one CHR ''_'', one CHR ''-'']),
          rx_plus (rx_seqs [rx_char CHR ''.'', RCls [az, d09],
                            RStar (RCls [az, d09, one CHR ''_'', one CHR ''-''])]),
          rx_char CHR '':'']))
       (RSeq (RCls [az]) (RStar (RCls [az, d09, one CHR ''.'', one CHR ''_'', one CHR ''-''])))"

definition ENV_NAME_rx :: rx where
  "ENV_NAME_rx = RSeq (RCls [AZ, az, one CHR ''_'']) (RStar (RCls [AZ, az, d09, one CHR ''_'']))"

definition EXTENSION_rx :: rx where
  "EXTENSION_rx = RSeq (rx_lit ''x-'')
     (RSeq (RCls [az, d09]) (RStar (RCls [az, d09, one CHR ''.'', one CHR ''_'', one CHR ''-''])))"

section \<open>Checks\<close>

definition pc_fail :: "string \<Rightarrow> string \<Rightarrow> (profile_error, 'a) result" where
  "pc_fail path message = Inl (ProfileContractError (path @ '': '' @ message))"

definition pc_object :: "json \<Rightarrow> string \<Rightarrow> (profile_error, jobj) result" where
  "pc_object v path = (case v of JObj d \<Rightarrow> Inr d | _ \<Rightarrow> pc_fail path ''must be an object'')"

definition pc_array :: "json \<Rightarrow> string \<Rightarrow> (profile_error, json list) result" where
  "pc_array v path = (case v of JList xs \<Rightarrow> Inr xs | _ \<Rightarrow> pc_fail path ''must be an array'')"

definition pc_string ::
  "json \<Rightarrow> string \<Rightarrow> nat \<Rightarrow> nat option \<Rightarrow> rx option \<Rightarrow> (profile_error, string) result" where
  "pc_string v path minimum maximum pat = (case v of
       JStr s \<Rightarrow>
         if length s < minimum then
           pc_fail path (''must contain at least '' @ nat_str minimum @ '' character(s)'')
         else if (case maximum of None \<Rightarrow> False | Some n \<Rightarrow> length s > n) then
           pc_fail path (''must contain at most '' @ nat_str (the maximum) @ '' character(s)'')
         else if CHR 0x00 \<in> set s then pc_fail path ''must not contain NUL''
         else if (case pat of None \<Rightarrow> False | Some r \<Rightarrow> \<not> fullmatch r s) then
           pc_fail path (''has invalid format: '' @ py_repr v)
         else Inr s
     | _ \<Rightarrow> pc_fail path ''must be a string'')"

text \<open>\<open>_json_value\<close> and its two loops.\<close>

function (sequential) json_value :: "json \<Rightarrow> string \<Rightarrow> nat \<Rightarrow> (profile_error, unit) result"
  and json_items :: "json list \<Rightarrow> string \<Rightarrow> nat \<Rightarrow> nat \<Rightarrow> (profile_error, unit) result"
  and json_fields :: "(string \<times> json) list \<Rightarrow> string \<Rightarrow> nat \<Rightarrow> (profile_error, unit) result" where
  "json_value v path depth =
     (if depth > 64 then pc_fail path ''JSON nesting exceeds 64 levels''
      else (case v of
          JFloat f \<Rightarrow> if \<not> pf_isfinite f then pc_fail path ''must be a finite JSON number'' else Inr ()
        | JList xs \<Rightarrow> json_items xs path 0 (depth + 1)
        | JObj d \<Rightarrow> json_fields d path (depth + 1)
        | JOther t \<Rightarrow> pc_fail path (''contains a non-JSON value of type '' @ t)
        | _ \<Rightarrow> Inr ()))"
| "json_items [] path i depth = Inr ()"
| "json_items (x # xs) path i depth =
     rbind (json_value x (path @ ''['' @ nat_str i @ '']'') depth) (\<lambda>_. json_items xs path (Suc i) depth)"
| "json_fields [] path depth = Inr ()"
| "json_fields (kv # d) path depth =
     rbind (json_value (snd kv) (path @ ''.'' @ fst kv) depth) (\<lambda>_. json_fields d path depth)"
  by pat_completeness auto
termination
  by (relation "measure (\<lambda>x. case x of
        Inl (v, _) \<Rightarrow> 2 * size v
      | Inr (Inl (xs, _)) \<Rightarrow> 2 * size_list size xs + 1
      | Inr (Inr (d, _)) \<Rightarrow> 2 * size_list (size_prod (\<lambda>_. 0) size) d + 1)")
    (auto simp: prod.size_gen split: prod.splits)

definition pc_keys :: "jobj \<Rightarrow> string \<Rightarrow> string list \<Rightarrow> string list \<Rightarrow> (profile_error, unit) result" where
  "pc_keys d path allowed required =
     (let missing = sort (filter (\<lambda>k. \<not> dict_has d k) required) in
      if missing \<noteq> [] then pc_fail path (''missing required field(s): '' @ py_join '', '' missing)
      else
        rbind (traverse (\<lambda>(key, ext).
            if key \<in> set allowed then Inr ()
            else if \<not> fullmatch EXTENSION_rx key then
              pc_fail path (''unknown field '' @ repr_string key @ ''; extensions must start with x-'')
            else json_value ext (path @ ''.'' @ key) 0) d)
          (\<lambda>_. Inr ()))"

fun unique_items ::
  "json list \<Rightarrow> string \<Rightarrow> nat \<Rightarrow> rx \<Rightarrow> string list \<Rightarrow> (profile_error, string list) result" where
  "unique_items [] path i pat seen = Inr seen"
| "unique_items (raw # items) path i pat seen =
     rbind (pc_string raw (path @ ''['' @ nat_str i @ '']'') 1 (Some 255) (Some pat)) (\<lambda>item.
       if item \<in> set seen then pc_fail path (''contains duplicate value '' @ repr_string item)
       else unique_items items path (Suc i) pat (seen @ [item]))"

definition unique_strings :: "json \<Rightarrow> string \<Rightarrow> rx \<Rightarrow> nat \<Rightarrow> (profile_error, string list) result" where
  "unique_strings v path pat maximum_items =
     rbind (pc_array v path) (\<lambda>items.
       if length items > maximum_items then
         pc_fail path (''must contain at most '' @ nat_str maximum_items @ '' items'')
       else unique_items items path 0 pat [])"

definition validate_profile_id :: "json \<Rightarrow> string \<Rightarrow> (profile_error, string) result" where
  "validate_profile_id v path = pc_string v path 1 (Some 128) (Some PROFILE_ID_rx)"

section \<open>The validator\<close>

definition PROFILE_FIELDS :: "string list" where
  "PROFILE_FIELDS =
     [''schema'', ''id'', ''roles'', ''disabled_roles'', ''startup'', ''env'', ''state_dir'',
      ''isolation'', ''settings'']"

definition validate_roles :: "jobj \<Rightarrow> (profile_error, unit) result" where
  "validate_roles roles =
     (if length roles > 256 then pc_fail ''$.roles'' ''must contain at most 256 roles''
      else rbind (traverse (\<lambda>(raw_role, candidates).
          rbind (pc_string (JStr raw_role) ''$.roles.<name>'' 1 (Some 128) (Some ROLE_rx)) (\<lambda>role.
            unique_strings candidates (''$.roles.'' @ role) COMPONENT_REF_rx 64)) roles) (\<lambda>_. Inr ()))"

definition validate_env :: "jobj \<Rightarrow> (profile_error, unit) result" where
  "validate_env env =
     (if length env > 1024 then pc_fail ''$.env'' ''must contain at most 1024 variables''
      else rbind (traverse (\<lambda>(raw_name, raw_value).
          rbind (pc_string (JStr raw_name) ''$.env.<name>'' 1 (Some 255) (Some ENV_NAME_rx)) (\<lambda>name.
            pc_string raw_value (''$.env.'' @ name) 0 (Some 32768) None)) env) (\<lambda>_. Inr ()))"

definition validate_state_dir :: "jobj \<Rightarrow> (profile_error, unit) result" where
  "validate_state_dir profile = (case jget profile ''state_dir'' of
       None \<Rightarrow> Inr ()
     | Some v \<Rightarrow> rbind (pc_string v ''$.state_dir'' 1 (Some 4096) None) (\<lambda>s.
         if \<not> startswith s ''/'' then pc_fail ''$.state_dir'' ''must be an absolute Linux path'' else Inr ()))"

definition validate_isolation_field :: "jobj \<Rightarrow> (profile_error, unit) result" where
  "validate_isolation_field profile =
     rbind (pc_object (jget_or profile ''isolation'' (JObj [])) ''$.isolation'') (\<lambda>isolation.
     rbind (pc_keys isolation ''$.isolation'' [''seccomp_helper''] []) (\<lambda>_.
       case jget isolation ''seccomp_helper'' of
         None \<Rightarrow> Inr ()
       | Some v \<Rightarrow> rbind (pc_string v ''$.isolation.seccomp_helper'' 1 (Some 4096) None) (\<lambda>_. Inr ())))"

definition validate_expected_id :: "string \<Rightarrow> string option \<Rightarrow> (profile_error, unit) result" where
  "validate_expected_id profile_id expected_id = (case expected_id of
       None \<Rightarrow> Inr ()
     | Some e \<Rightarrow> rbind (validate_profile_id (JStr e) ''$requested_profile'') (\<lambda>requested.
         if profile_id \<noteq> requested
         then pc_fail ''$.id'' (''must match requested profile '' @ repr_string requested) else Inr ()))"

definition validate_profile :: "json \<Rightarrow> string option \<Rightarrow> (profile_error, jobj) result" where
  "validate_profile data expected_id =
     rbind (pc_object data ''$'') (\<lambda>profile.
     rbind (pc_keys profile ''$'' PROFILE_FIELDS [''schema'', ''id'', ''roles'', ''startup'']) (\<lambda>_.
     if jget_null profile ''schema'' \<noteq> JStr ''msys.profile.v1'' then
       pc_fail ''$.schema'' (''must equal '' @ repr_string ''msys.profile.v1'')
     else
     rbind (validate_profile_id (jget_null profile ''id'') ''$.id'') (\<lambda>profile_id.
     rbind (validate_expected_id profile_id expected_id) (\<lambda>_.
     rbind (pc_object (jget_null profile ''roles'') ''$.roles'') (\<lambda>roles.
     rbind (validate_roles roles) (\<lambda>_.
     rbind (unique_strings (jget_or profile ''disabled_roles'' (JList [])) ''$.disabled_roles'' ROLE_rx 256) (\<lambda>disabled.
     let conflicts = sort (filter (\<lambda>r. r \<in> set disabled) (dict_keys roles)) in
     if conflicts \<noteq> [] then
       pc_fail ''$'' (''roles and disabled_roles conflict for: '' @ py_join '', '' conflicts)
     else
     rbind (unique_strings (jget_null profile ''startup'') ''$.startup'' COMPONENT_REF_rx 1024) (\<lambda>_.
     rbind (pc_object (jget_or profile ''env'' (JObj [])) ''$.env'') (\<lambda>env.
     rbind (validate_env env) (\<lambda>_.
     rbind (validate_state_dir profile) (\<lambda>_.
     rbind (validate_isolation_field profile) (\<lambda>_.
     rbind (pc_object (jget_or profile ''settings'' (JObj [])) ''$.settings'') (\<lambda>settings.
     rbind (json_value (JObj settings) ''$.settings'' 0) (\<lambda>_.
       Inr profile))))))))))))))"

section \<open>Loading a document\<close>

text \<open>\<open>_reject_duplicate_fields\<close> and \<open>_reject_non_finite\<close>, as the decoder calls them bottom-up.\<close>

definition reject_duplicate_fields :: "jobj \<Rightarrow> (profile_error, jobj) result" where
  "reject_duplicate_fields =
     unique_fields (\<lambda>key. ProfileContractError (''duplicate JSON object field '' @ repr_string key)) []"

definition reject_non_finite :: "string \<Rightarrow> (profile_error, 'a) result" where
  "reject_non_finite c =
     Inl (ProfileContractError (''non-finite JSON number '' @ repr_string c @ '' is not allowed''))"

definition decode_strict :: "json \<Rightarrow> (profile_error, json) result" where
  "decode_strict = decode_with reject_duplicate_fields reject_non_finite"

interpretation profile_json: strict_hooks reject_duplicate_fields reject_non_finite
  by unfold_locales (auto simp: reject_duplicate_fields_def unique_fields_dict reject_non_finite_def)

datatype text_outcome = Decoded json | Malformed nat nat string

definition load_profile_document :: "text_outcome \<Rightarrow> string \<Rightarrow> string \<Rightarrow> (profile_error, jobj) result" where
  "load_profile_document doc path expected_id = (case doc of
       Malformed line col message \<Rightarrow>
         Inl (ProfileContractError (path @ '': invalid JSON at line '' @ nat_str line @ '', column '' @
           nat_str col @ '': '' @ message))
     | Decoded tree \<Rightarrow>
         map_err (\<lambda>err. case err of ProfileContractError e \<Rightarrow> ProfileContractError (path @ '': '' @ e))
           (rbind (decode_strict tree) (\<lambda>data. validate_profile data (Some expected_id))))"

definition load_profile ::
  "(path \<Rightarrow> text_outcome) \<Rightarrow> path \<Rightarrow> string \<Rightarrow> (profile_error, jobj) result" where
  "load_profile read_text config_dir profile_id =
     rbind (validate_profile_id (JStr profile_id) ''$requested_profile'') (\<lambda>safe_id.
       let p = config_dir @ [''profiles'', safe_id @ ''.json''] in
       load_profile_document (read_text p) (path_str p) safe_id)"

declare json_value.simps [simp del]

section \<open>The contract\<close>

text \<open>The contract, stated without the order of checks: strings, arrays of distinct strings, JSON trees.\<close>

definition str_ok :: "nat \<Rightarrow> nat \<Rightarrow> rx option \<Rightarrow> string \<Rightarrow> bool" where
  "str_ok mn mx pat s \<longleftrightarrow> mn \<le> length s \<and> length s \<le> mx \<and> CHR 0x00 \<notin> set s \<and>
     (case pat of None \<Rightarrow> True | Some r \<Rightarrow> rx_match r s)"

definition strs_ok :: "rx \<Rightarrow> nat \<Rightarrow> json \<Rightarrow> bool" where
  "strs_ok pat n v \<longleftrightarrow> (\<exists>xs. v = JList (map JStr xs) \<and> distinct xs \<and> length xs \<le> n \<and>
     (\<forall>x \<in> set xs. str_ok 1 255 (Some pat) x))"

text \<open>A JSON tree with finite numbers only and at most \<open>n\<close> further levels of nesting.\<close>

function json_ok :: "nat \<Rightarrow> json \<Rightarrow> bool" where
  "json_ok n v = (case v of
       JFloat f \<Rightarrow> pf_isfinite f
     | JList xs \<Rightarrow> xs = [] \<or> 0 < n \<and> (\<forall>x \<in> set xs. json_ok (n - 1) x)
     | JObj d \<Rightarrow> d = [] \<or> 0 < n \<and> (\<forall>kv \<in> set d. json_ok (n - 1) (snd kv))
     | JOther _ \<Rightarrow> False
     | _ \<Rightarrow> True)"
  by pat_completeness auto
termination
  by (relation "measure (size \<circ> snd)")
    (auto simp: less_Suc_eq_le size_list_estimation' intro!: size_json_dict [unfolded less_Suc_eq_le])

declare json_ok.simps [simp del]

definition fields_ok :: "jobj \<Rightarrow> string list \<Rightarrow> string list \<Rightarrow> bool" where
  "fields_ok d allowed required \<longleftrightarrow> set required \<subseteq> set (dict_keys d) \<and>
     (\<forall>(k, v) \<in> set d. k \<in> set allowed \<or> rx_match EXTENSION_rx k \<and> json_ok 64 v)"

definition obj_field_ok :: "jobj \<Rightarrow> string \<Rightarrow> (jobj \<Rightarrow> bool) \<Rightarrow> bool" where
  "obj_field_ok p k P \<longleftrightarrow> (\<exists>d. jget_or p k (JObj []) = JObj d \<and> P d)"

definition roles_ok :: "jobj \<Rightarrow> bool" where
  "roles_ok roles \<longleftrightarrow> length roles \<le> 256 \<and>
     (\<forall>(r, v) \<in> set roles. str_ok 1 128 (Some ROLE_rx) r \<and> strs_ok COMPONENT_REF_rx 64 v)"

definition env_ok :: "jobj \<Rightarrow> bool" where
  "env_ok env \<longleftrightarrow> length env \<le> 1024 \<and>
     (\<forall>(k, v) \<in> set env. str_ok 1 255 (Some ENV_NAME_rx) k \<and> (\<exists>s. v = JStr s \<and> str_ok 0 32768 None s))"

definition profile_ok :: "jobj \<Rightarrow> bool" where
  "profile_ok p \<longleftrightarrow>
     fields_ok p PROFILE_FIELDS [''schema'', ''id'', ''roles'', ''startup''] \<and>
     jget_null p ''schema'' = JStr ''msys.profile.v1'' \<and>
     (\<exists>i. jget_null p ''id'' = JStr i \<and> str_ok 1 128 (Some PROFILE_ID_rx) i) \<and>
     (\<exists>roles disabled. jget_null p ''roles'' = JObj roles \<and> roles_ok roles \<and>
        jget_or p ''disabled_roles'' (JList []) = JList (map JStr disabled) \<and>
        strs_ok ROLE_rx 256 (JList (map JStr disabled)) \<and>
        set (dict_keys roles) \<inter> set disabled = {}) \<and>
     strs_ok COMPONENT_REF_rx 1024 (jget_null p ''startup'') \<and>
     obj_field_ok p ''env'' env_ok \<and>
     (case jget p ''state_dir'' of None \<Rightarrow> True
      | Some v \<Rightarrow> \<exists>s. v = JStr s \<and> str_ok 1 4096 None s \<and> startswith s ''/'') \<and>
     obj_field_ok p ''isolation'' (\<lambda>d. fields_ok d [''seccomp_helper''] [] \<and>
        (case jget d ''seccomp_helper'' of None \<Rightarrow> True
         | Some v \<Rightarrow> \<exists>s. v = JStr s \<and> str_ok 1 4096 None s)) \<and>
     obj_field_ok p ''settings'' (\<lambda>d. json_ok 64 (JObj d))"

lemma pc_fail_simps [simp]: "pc_fail path msg \<noteq> Inr x" "rbind (pc_fail path msg) k = pc_fail path msg"
  by (simp_all add: pc_fail_def)

lemma pc_object_Inr [simp]: "pc_object v path = Inr d \<longleftrightarrow> v = JObj d"
  by (auto simp: pc_object_def split: json.splits)

lemma pc_array_Inr [simp]: "pc_array v path = Inr xs \<longleftrightarrow> v = JList xs"
  by (auto simp: pc_array_def split: json.splits)

lemma pc_string_Inr [simp]:
  "pc_string v path mn (Some mx) pat = Inr s \<longleftrightarrow> v = JStr s \<and> str_ok mn mx pat s"
  by (auto simp: pc_string_def str_ok_def fullmatch_iff split: json.splits option.splits)

lemma unit_Inr: "(\<exists>u. r = Inr (u :: unit)) \<longleftrightarrow> r = Inr ()"
  by auto

lemma json_value_Inr:
  "json_value v path depth = Inr u \<longleftrightarrow> depth \<le> 64 \<and> json_ok (64 - depth) v"
  "json_items xs path i depth = Inr u \<longleftrightarrow> xs = [] \<or> depth \<le> 64 \<and> (\<forall>x \<in> set xs. json_ok (64 - depth) x)"
  "json_fields d path depth = Inr u \<longleftrightarrow> d = [] \<or> depth \<le> 64 \<and> (\<forall>kv \<in> set d. json_ok (64 - depth) (snd kv))"
proof (induction v path depth and xs path i depth and d path depth rule: json_value_json_items_json_fields.induct)
  case (1 v path depth)
  then show ?case
    by (subst json_value.simps, subst json_ok.simps, cases v) auto
next
  case (3 x xs path i depth)
  then show ?case by (cases xs) (auto simp: result_simps)
next
  case (5 kv d path depth)
  then show ?case by (cases d) (auto simp: result_simps)
qed simp_all

lemma unique_items_Inr:
  "unique_items xs path i pat seen = Inr ys \<longleftrightarrow>
     (\<exists>zs. xs = map JStr zs \<and> ys = seen @ zs \<and> distinct zs \<and> set zs \<inter> set seen = {} \<and>
       (\<forall>z \<in> set zs. str_ok 1 255 (Some pat) z))"
proof (induction xs arbitrary: i seen)
  case (Cons x xs)
  show ?case
  proof
    assume "unique_items (x # xs) path i pat seen = Inr ys"
    then obtain z zs where "x = JStr z" "str_ok 1 255 (Some pat) z" "z \<notin> set seen" "xs = map JStr zs"
      "ys = (seen @ [z]) @ zs" "distinct zs" "set zs \<inter> set (seen @ [z]) = {}" "\<forall>z \<in> set zs. str_ok 1 255 (Some pat) z"
      by (auto simp: result_simps Cons.IH split: if_splits)
    then show "\<exists>zs. x # xs = map JStr zs \<and> ys = seen @ zs \<and> distinct zs \<and> set zs \<inter> set seen = {} \<and>
       (\<forall>z \<in> set zs. str_ok 1 255 (Some pat) z)" by (intro exI [of _ "z # zs"]) auto
  next
    assume "\<exists>zs. x # xs = map JStr zs \<and> ys = seen @ zs \<and> distinct zs \<and> set zs \<inter> set seen = {} \<and>
       (\<forall>z \<in> set zs. str_ok 1 255 (Some pat) z)"
    then show "unique_items (x # xs) path i pat seen = Inr ys"
      by (auto simp: result_simps Cons.IH Cons_eq_map_conv)
  qed
qed auto

lemma unique_strings_Inr:
  "unique_strings v path pat n = Inr ys \<longleftrightarrow> v = JList (map JStr ys) \<and> strs_ok pat n v"
proof
  assume "unique_strings v path pat n = Inr ys"
  then show "v = JList (map JStr ys) \<and> strs_ok pat n v"
    by (auto simp: unique_strings_def result_simps unique_items_Inr strs_ok_def split: if_splits)
next
  assume a: "v = JList (map JStr ys) \<and> strs_ok pat n v"
  have v: "v = JList (map JStr ys)" using a by (rule conjunct1)
  from a obtain xs where x: "v = JList (map JStr xs)" "distinct xs" "length xs \<le> n"
    "\<forall>x \<in> set xs. str_ok 1 255 (Some pat) x" unfolding strs_ok_def by blast
  have "inj JStr" by (rule injI) simp
  then have "xs = ys" using v x(1) by (simp add: inj_map_eq_map)
  then have "unique_items (map JStr ys) path 0 pat [] = Inr ys"
    unfolding unique_items_Inr using x by (intro exI [of _ ys]) simp
  then show "unique_strings v path pat n = Inr ys"
    using x(3) \<open>xs = ys\<close> by (simp add: unique_strings_def v pc_array_def)
qed

lemma traverse_unit_Inr:
  "(\<exists>ys. traverse f xs = Inr ys) \<longleftrightarrow> (\<forall>x \<in> set xs. \<exists>y. f x = Inr y)"
proof (induction xs)
  case (Cons x xs)
  then show ?case by (cases "f x"; cases "traverse f xs") auto
qed simp

lemma pc_keys_Inr: "pc_keys d path allowed required = Inr u \<longleftrightarrow> fields_ok d allowed required"
proof -
  have m: "sort (filter (\<lambda>k. \<not> dict_has d k) required) \<noteq> [] \<longleftrightarrow> \<not> set required \<subseteq> set (dict_keys d)"
    by (auto simp: dict_has_iff filter_empty_conv)
  have t: "(\<exists>ys. traverse (\<lambda>(key, ext).
        if key \<in> set allowed then Inr ()
        else if \<not> fullmatch EXTENSION_rx key then
          pc_fail path (''unknown field '' @ repr_string key @ ''; extensions must start with x-'')
        else json_value ext (path @ ''.'' @ key) 0) d = Inr ys) \<longleftrightarrow>
      (\<forall>(k, v) \<in> set d. k \<in> set allowed \<or> rx_match EXTENSION_rx k \<and> json_ok 64 v)"
    unfolding traverse_unit_Inr
    by (rule ball_cong [OF refl]) (auto simp: fullmatch_iff unit_Inr json_value_Inr split: if_splits)
  show ?thesis
    unfolding pc_keys_def Let_def fields_ok_def using m t by (auto simp: result_simps)
qed

lemma unique_strings_ok: "(\<exists>y. unique_strings v path pat n = Inr y) \<longleftrightarrow> strs_ok pat n v"
  by (auto simp: unique_strings_Inr strs_ok_def)

lemma validate_roles_Inr: "validate_roles roles = Inr u \<longleftrightarrow> roles_ok roles"
proof -
  have "(\<exists>y. (case x of (r, c) \<Rightarrow> rbind (pc_string (JStr r) ''$.roles.<name>'' 1 (Some 128) (Some ROLE_rx)) (\<lambda>role.
        unique_strings c (''$.roles.'' @ role) COMPONENT_REF_rx 64)) = Inr y) \<longleftrightarrow>
      (case x of (r, v) \<Rightarrow> str_ok 1 128 (Some ROLE_rx) r \<and> strs_ok COMPONENT_REF_rx 64 v)" for x
    by (cases x) (auto simp: result_simps simp flip: unique_strings_ok [of _ "''$.roles.'' @ fst x"])
  then show ?thesis
    unfolding validate_roles_def roles_ok_def by (simp add: result_simps traverse_unit_Inr not_less)
qed

lemma validate_env_Inr: "validate_env env = Inr u \<longleftrightarrow> env_ok env"
  unfolding validate_env_def env_ok_def
  by (simp add: result_simps traverse_unit_Inr not_less) (auto simp: result_simps)

lemma validate_state_dir_Inr: "validate_state_dir p = Inr u \<longleftrightarrow>
  (case jget p ''state_dir'' of None \<Rightarrow> True | Some v \<Rightarrow> \<exists>s. v = JStr s \<and> str_ok 1 4096 None s \<and> startswith s ''/'')"
  by (auto simp: validate_state_dir_def result_simps split: option.splits)

lemma validate_isolation_field_Inr: "validate_isolation_field p = Inr u \<longleftrightarrow>
  obj_field_ok p ''isolation'' (\<lambda>d. fields_ok d [''seccomp_helper''] [] \<and>
    (case jget d ''seccomp_helper'' of None \<Rightarrow> True | Some v \<Rightarrow> \<exists>s. v = JStr s \<and> str_ok 1 4096 None s))"
  by (auto simp: validate_isolation_field_def obj_field_ok_def result_simps pc_keys_Inr split: option.splits)

lemma validate_expected_id_Inr: "validate_expected_id i e = Inr u \<longleftrightarrow>
  (case e of None \<Rightarrow> True | Some r \<Rightarrow> r = i \<and> str_ok 1 128 (Some PROFILE_ID_rx) r)"
  by (auto simp: validate_expected_id_def validate_profile_id_def result_simps split: option.splits)

lemma filter_disjoint: "filter (\<lambda>r. r \<in> B) xs = [] \<longleftrightarrow> set xs \<inter> B = {}"
  by (auto simp: filter_empty_conv)

lemma validate_profile_InrI:
  assumes "profile_ok p" and "case e of None \<Rightarrow> True | Some i \<Rightarrow> jget_null p ''id'' = JStr i"
  shows "validate_profile (JObj p) e = Inr p"
proof -
  from assms(1) [unfolded profile_ok_def] obtain i roles disabled where
    f: "pc_keys p ''$'' PROFILE_FIELDS [''schema'', ''id'', ''roles'', ''startup''] = Inr ()" and
    s: "jget_null p ''schema'' = JStr ''msys.profile.v1''" and
    i: "jget_null p ''id'' = JStr i" "str_ok 1 128 (Some PROFILE_ID_rx) i" and
    r: "jget_null p ''roles'' = JObj roles" "validate_roles roles = Inr ()" and
    d: "unique_strings (jget_or p ''disabled_roles'' (JList [])) ''$.disabled_roles'' ROLE_rx 256 = Inr disabled" and
    c: "filter (\<lambda>r. r \<in> set disabled) (dict_keys roles) = []" and
    t: "strs_ok COMPONENT_REF_rx 1024 (jget_null p ''startup'')" and
    e: "obj_field_ok p ''env'' env_ok" and
    sd: "validate_state_dir p = Inr ()" and iso: "validate_isolation_field p = Inr ()" and
    st: "obj_field_ok p ''settings'' (\<lambda>d. json_ok 64 (JObj d))"
    unfolding pc_keys_Inr validate_roles_Inr unique_strings_Inr filter_disjoint validate_state_dir_Inr
      validate_isolation_field_Inr by metis
  have v: "validate_profile_id (jget_null p ''id'') ''$.id'' = Inr i" using i by (simp add: validate_profile_id_def)
  have x: "validate_expected_id i e = Inr ()"
    using assms(2) i by (simp add: validate_expected_id_Inr split: option.splits)
  obtain ys where y: "unique_strings (jget_null p ''startup'') ''$.startup'' COMPONENT_REF_rx 1024 = Inr ys"
    using t unique_strings_ok by blast
  obtain env where env: "jget_or p ''env'' (JObj []) = JObj env" "validate_env env = Inr ()"
    using e by (auto simp: obj_field_ok_def validate_env_Inr)
  obtain se where se: "jget_or p ''settings'' (JObj []) = JObj se" "json_value (JObj se) ''$.settings'' 0 = Inr ()"
    using st by (auto simp: obj_field_ok_def json_value_Inr)
  show ?thesis
    unfolding validate_profile_def
    by (simp add: pc_object_def f s v x r d c y env sd iso se)
qed

lemma validate_profile_InrD:
  assumes "validate_profile (JObj p) e = Inr q"
  shows "q = p" and "profile_ok p" and "case e of None \<Rightarrow> True | Some i \<Rightarrow> jget_null p ''id'' = JStr i"
proof -
  from assms obtain i roles disabled ys env se where
    f: "pc_keys p ''$'' PROFILE_FIELDS [''schema'', ''id'', ''roles'', ''startup''] = Inr ()" and
    s: "jget_null p ''schema'' = JStr ''msys.profile.v1''" and
    i: "jget_null p ''id'' = JStr i" "str_ok 1 128 (Some PROFILE_ID_rx) i" "validate_expected_id i e = Inr ()" and
    r: "jget_null p ''roles'' = JObj roles" "validate_roles roles = Inr ()" and
    d: "unique_strings (jget_or p ''disabled_roles'' (JList [])) ''$.disabled_roles'' ROLE_rx 256 = Inr disabled" and
    c: "filter (\<lambda>r. r \<in> set disabled) (dict_keys roles) = []" and
    y: "unique_strings (jget_null p ''startup'') ''$.startup'' COMPONENT_REF_rx 1024 = Inr ys" and
    e: "jget_or p ''env'' (JObj []) = JObj env" "validate_env env = Inr ()" and
    t: "validate_state_dir p = Inr ()" "validate_isolation_field p = Inr ()" and
    se: "jget_or p ''settings'' (JObj []) = JObj se" "json_value (JObj se) ''$.settings'' 0 = Inr ()" and
    q: "q = p"
    unfolding validate_profile_def Let_def
    by (auto simp: rbind_Inr_iff validate_profile_id_def split: if_splits)
  show "q = p" by (rule q)
  show "case e of None \<Rightarrow> True | Some i \<Rightarrow> jget_null p ''id'' = JStr i"
    using i by (simp add: validate_expected_id_Inr split: option.splits)
  show "profile_ok p"
    unfolding profile_ok_def obj_field_ok_def
  proof (intro conjI)
    show "\<exists>roles disabled. jget_null p ''roles'' = JObj roles \<and> roles_ok roles \<and>
        jget_or p ''disabled_roles'' (JList []) = JList (map JStr disabled) \<and>
        strs_ok ROLE_rx 256 (JList (map JStr disabled)) \<and> set (dict_keys roles) \<inter> set disabled = {}"
      using r d c by (auto simp: validate_roles_Inr unique_strings_Inr filter_disjoint)
  qed (use f s i y e t se in \<open>auto simp: pc_keys_Inr validate_env_Inr unique_strings_Inr
      validate_state_dir_Inr validate_isolation_field_Inr obj_field_ok_def json_value_Inr\<close>)
qed

lemma validate_profile_iff:
  "validate_profile v e = Inr q \<longleftrightarrow>
     v = JObj q \<and> profile_ok q \<and> (case e of None \<Rightarrow> True | Some i \<Rightarrow> jget_null q ''id'' = JStr i)"
proof (cases "\<exists>p. v = JObj p")
  case True
  then show ?thesis using validate_profile_InrI validate_profile_InrD by blast
next
  case False
  then show ?thesis by (auto simp: validate_profile_def rbind_Inr_iff)
qed

text \<open>
  C25. The validator decides the profile contract: it accepts a document exactly when the document
  is an object that satisfies every clause (and carries the requested id, if one was requested),
  and then returns that object unchanged.
\<close>

theorem validate_profile_exact:
  "validate_profile v e = Inr q \<longleftrightarrow>
     v = JObj q \<and> profile_ok q \<and> (case e of None \<Rightarrow> True | Some i \<Rightarrow> jget_null q ''id'' = JStr i)"
  by (rule validate_profile_iff)

text \<open>
  A profile is loaded exactly when the document has no duplicate field in any object and no
  non-finite constant, satisfies the contract, and carries the requested id; the requested id
  itself has been validated before it becomes a file name, so it never leaves the profile directory.
\<close>

lemma load_profile_exact:
  "load_profile rd dir i = Inr q \<longleftrightarrow>
     str_ok 1 128 (Some PROFILE_ID_rx) i \<and> CHR ''/'' \<notin> set i \<and>
     rd (dir @ [''profiles'', i @ ''.json'']) = Decoded (JObj q) \<and>
     json_strict (JObj q) \<and> profile_ok q \<and> jget_null q ''id'' = JStr i"
proof -
  have "list_all (in_class (rx_classes PROFILE_ID_rx)) i" if "str_ok 1 128 (Some PROFILE_ID_rx) i"
    using that by (simp add: str_ok_def rx_match_classes)
  moreover have "\<not> in_class (rx_classes PROFILE_ID_rx) CHR ''/''" by code_simp
  ultimately have sl: "str_ok 1 128 (Some PROFILE_ID_rx) i \<Longrightarrow> CHR ''/'' \<notin> set i"
    by (auto simp: list_all_iff)
  have v: "validate_profile_id (JStr i) p = Inr s \<longleftrightarrow> s = i \<and> str_ok 1 128 (Some PROFILE_ID_rx) i" for p s
    by (auto simp: validate_profile_id_def)
  have d: "load_profile_document doc p i = Inr q \<longleftrightarrow>
      doc = Decoded (JObj q) \<and> json_strict (JObj q) \<and> profile_ok q \<and> jget_null q ''id'' = JStr i" for doc p
    by (cases doc) (auto simp: load_profile_document_def rbind_Inr_iff decode_strict_def profile_json.decode_Inr validate_profile_iff)
  show ?thesis unfolding load_profile_def Let_def rbind_Inr_iff v using sl by (auto simp: d)
qed

end
