(* ===== verification/Plan_Order.thy ===== *)
theory Plan_Order
  imports Py_Json
begin

text \<open>
  The dependency order of the native runtime plan (\<open>topological_components\<close> of
  \<open>native/scripts/compile_runtime_plan.py\<close>): Kahn's algorithm with a heap of ready names.  The heap is
  a sorted list, popped at its head, which is what \<open>heapq\<close> returns for distinct strings.

  The lemmas show that the algorithm terminates on every input, that an accepted list of components
  is a permutation in which every component stands after its dependencies, and that it is rejected
  for a cycle exactly when the dependency relation has one.
\<close>

section \<open>Components of a plan\<close>

record plan_component =
  pl_id :: string
  pl_kind :: string
  pl_critical :: bool
  pl_restart :: string
  pl_readiness_mode :: string
  pl_readiness_timeout_ms :: int
  pl_initial_ms :: int
  pl_max_ms :: int
  pl_limit :: int
  pl_argv :: "string list"
  pl_after :: "string list"
  pl_environment :: "(string \<times> string) list"

datatype plan_error = PlanError string

section \<open>Kahn's algorithm\<close>

type_synonym graph = "(string, string list) dict"

text \<open>The two tables the first loop fills, or the error of a bad reference.\<close>

fun add_edges ::
  "string list \<Rightarrow> string \<Rightarrow> string list \<Rightarrow> graph \<times> (string, int) dict \<Rightarrow>
     (plan_error, graph \<times> (string, int) dict) result" where
  "add_edges ids name [] tables = Inr tables"
| "add_edges ids name (dependency # deps) (dependents, indegree) =
     (if dependency \<notin> set ids then
        Inl (PlanError (name @ '' references missing dependency '' @ dependency))
      else if dependency = name then Inl (PlanError (name @ '' depends on itself''))
      else add_edges ids name deps
        (AList.update dependency (dict_get_or dependents dependency [] @ [name]) dependents,
         AList.update name (dict_get_or indegree name 0 + 1) indegree))"

fun build_tables ::
  "string list \<Rightarrow> ('a plan_component_scheme) list \<Rightarrow> graph \<times> (string, int) dict \<Rightarrow>
     (plan_error, graph \<times> (string, int) dict) result" where
  "build_tables ids [] tables = Inr tables"
| "build_tables ids (item # items) tables =
     rbind (add_edges ids (pl_id item) (pl_after item) tables) (build_tables ids items)"

definition heappush :: "string \<Rightarrow> string list \<Rightarrow> string list" where
  "heappush x ready = insort x ready"

fun relax ::
  "string list \<Rightarrow> (string, int) dict \<Rightarrow> string list \<Rightarrow> (string, int) dict \<times> string list" where
  "relax [] indegree ready = (indegree, ready)"
| "relax (dep # ds) indegree ready =
     (let n = dict_get_or indegree dep 0 - 1;
          indegree' = AList.update dep n indegree
      in relax ds indegree' (if n = 0 then heappush dep ready else ready))"

definition positive_count :: "(string, int) dict \<Rightarrow> nat" where
  "positive_count indegree = card {x. dict_get_or indegree x 0 > 0}"

lemma dict_get_or_update [simp]:
  "dict_get_or (AList.update k v d) x w = (if x = k then v else dict_get_or d x w)"
  by (simp add: dict_get_or_def dict_simps)

lemma finite_positive: "finite {x. dict_get_or (d :: (string, int) dict) x 0 > 0}"
proof (rule finite_subset)
  show "{x. dict_get_or d x 0 > 0} \<subseteq> set (dict_keys d)"
    by (auto simp: dict_get_or_def split: option.splits) (metis map_of_SomeD fst_conv image_eqI)
qed simp

lemma positive_count_update:
  "positive_count (AList.update x (dict_get_or d x 0 - 1) d) + (if dict_get_or d x 0 - 1 = 0 then 1 else 0)
     \<le> positive_count d"
proof -
  let ?P = "\<lambda>d. {y. dict_get_or d y (0 :: int) > 0}"
  let ?d' = "AList.update x (dict_get_or d x 0 - 1) d"
  have sub: "?P ?d' \<subseteq> ?P d" by (auto split: if_splits)
  show ?thesis
  proof (cases "dict_get_or d x 0 = 1")
    case True
    then have "?P ?d' = ?P d - {x}" and "x \<in> ?P d" by (auto split: if_splits)
    then have "card (?P ?d') = card (?P d) - 1" "0 < card (?P d)"
      using finite_positive [of d] by (auto simp: card_gt_0_iff)
    with True show ?thesis by (simp add: positive_count_def)
  next
    case False
    with card_mono [OF finite_positive sub] show ?thesis by (simp add: positive_count_def)
  qed
qed

lemma relax_measure:
  "relax ds indegree ready = (indegree', ready') \<Longrightarrow>
     length ready' + positive_count indegree' \<le> length ready + positive_count indegree"
proof (induction ds indegree ready rule: relax.induct)
  case (2 d ds indegree ready)
  let ?n = "dict_get_or indegree d 0 - 1"
  have "length ready' + positive_count indegree' \<le>
      length (if ?n = 0 then heappush d ready else ready) + positive_count (AList.update d ?n indegree)"
    using 2 by (simp add: Let_def)
  also have "\<dots> \<le> length ready + positive_count indegree"
    using positive_count_update [of d indegree] by (simp add: heappush_def split: if_splits)
  finally show ?case .
qed simp

function kahn :: "graph \<Rightarrow> (string, int) dict \<Rightarrow> string list \<Rightarrow> string list \<Rightarrow> string list" where
  "kahn dependents indegree [] ordered = ordered"
| "kahn dependents indegree (name # ready) ordered =
     (let (indegree', ready') = relax (sort (dict_get_or dependents name [])) indegree ready
      in kahn dependents indegree' ready' (ordered @ [name]))"
  by pat_completeness auto
termination
  by (relation "measure (\<lambda>(_, indegree, ready, _). length ready + positive_count indegree)")
    (auto dest!: relax_measure [OF sym])

definition topological_components ::
  "('a plan_component_scheme) list \<Rightarrow> (plan_error, ('a plan_component_scheme) list) result" where
  "topological_components components =
     (let ids = dedup (map pl_id components) in
      if length ids \<noteq> length components then Inl (PlanError ''component ids must be unique'')
      else if \<not> list_ex pl_critical components then
        Inl (PlanError ''at least one component must be critical'')
      else
        rbind (build_tables ids components (map (\<lambda>x. (x, [])) ids, map (\<lambda>x. (x, 0)) ids))
          (\<lambda>(dependents, indegree).
             let ready = sort (map fst (filter (\<lambda>(_, count). count = 0) indegree));
                 ordered = kahn dependents indegree ready []
             in if length ordered \<noteq> length components
                then Inl (PlanError ''dependency graph contains a cycle'')
                else Inr (map (\<lambda>x. the (find (\<lambda>c. pl_id c = x) components)) ordered)))"

section \<open>The tables\<close>

text \<open>The dependency lists of the components, by name; a name outside the plan has none.\<close>

definition after_of :: "('a plan_component_scheme) list \<Rightarrow> string \<Rightarrow> string list" where
  "after_of components x = concat (map pl_after (filter (\<lambda>c. pl_id c = x) components))"

text \<open>
  What the tables say: \<open>indegree x\<close> counts the dependencies of \<open>x\<close> outside \<open>done\<close>, and \<open>x\<close> occurs in
  the dependents of \<open>d\<close> as often as \<open>d\<close> occurs in its dependencies.
\<close>

definition dependents_ok :: "(string \<Rightarrow> string list) \<Rightarrow> graph \<Rightarrow> bool" where
  "dependents_ok after dependents \<longleftrightarrow>
     (\<forall>d x. count_list (dict_get_or dependents d []) x = count_list (after x) d)"

definition indegree_ok :: "(string \<Rightarrow> string list) \<Rightarrow> string set \<Rightarrow> (string, int) dict \<Rightarrow> bool" where
  "indegree_ok after done indegree \<longleftrightarrow>
     (\<forall>x. dict_get_or indegree x 0 = int (length (filter (\<lambda>d. d \<notin> done) (after x))))"

lemma add_edges_ok:
  assumes "add_edges ids name deps (dependents, indegree) = Inr (dependents', indegree')"
    and "dependents_ok after dependents" and "indegree_ok after {} indegree"
  shows "dependents_ok (after(name := after name @ deps)) dependents' \<and>
    indegree_ok (after(name := after name @ deps)) {} indegree' \<and> set deps \<subseteq> set ids - {name} \<and>
    dict_keys indegree' = (if deps = [] \<or> name \<in> set (dict_keys indegree) then dict_keys indegree else dict_keys indegree @ [name])"
  using assms
proof (induction deps arbitrary: dependents indegree after)
  case Nil
  then show ?case by simp
next
  case (Cons d deps)
  let ?D = "AList.update d (dict_get_or dependents d [] @ [name]) dependents"
  let ?I = "AList.update name (dict_get_or indegree name 0 + 1) indegree"
  let ?A = "after(name := after name @ [d])"
  from Cons.prems(1) have d: "d \<in> set ids" "d \<noteq> name"
    and r: "add_edges ids name deps (?D, ?I) = Inr (dependents', indegree')"
    by (auto split: if_splits)
  have "dependents_ok ?A ?D" "indegree_ok ?A {} ?I"
    using Cons.prems(2,3) by (auto simp: dependents_ok_def indegree_ok_def)
  moreover have eq: "?A(name := ?A name @ deps) = after(name := after name @ d # deps)" by simp
  ultimately have ih: "dependents_ok (after(name := after name @ d # deps)) dependents' \<and>
      indegree_ok (after(name := after name @ d # deps)) {} indegree' \<and> set deps \<subseteq> set ids - {name} \<and>
      dict_keys indegree' = (if deps = [] \<or> name \<in> set (dict_keys ?I) then dict_keys ?I else dict_keys ?I @ [name])"
    using Cons.IH [OF r, of ?A] unfolding eq by blast
  have "name \<in> set (dict_keys ?I)" by (simp only: keys_alist_update) simp
  with ih d show ?case by (simp only: keys_alist_update) auto
qed

lemma build_tables_ok:
  assumes "build_tables ids cs (dependents, indegree) = Inr (dependents', indegree')"
    and "dependents_ok after dependents" and "indegree_ok after {} indegree"
    and "set (map pl_id cs) \<subseteq> set (dict_keys indegree)" and "dict_keys indegree = ids"
  shows "dependents_ok (\<lambda>x. after x @ after_of cs x) dependents' \<and>
    indegree_ok (\<lambda>x. after x @ after_of cs x) {} indegree' \<and>
    (\<forall>c \<in> set cs. set (pl_after c) \<subseteq> set ids - {pl_id c}) \<and> dict_keys indegree' = ids"
  using assms
proof (induction cs arbitrary: dependents indegree after)
  case Nil
  then show ?case by (simp add: after_of_def)
next
  case (Cons c cs)
  from Cons.prems(1) obtain d1 i1 where e: "add_edges ids (pl_id c) (pl_after c) (dependents, indegree) = Inr (d1, i1)"
    and r: "build_tables ids cs (d1, i1) = Inr (dependents', indegree')" by (auto simp: result_simps)
  let ?A = "after(pl_id c := after (pl_id c) @ pl_after c)"
  note a = add_edges_ok [OF e Cons.prems(2,3)]
  have k: "dict_keys i1 = ids" using a Cons.prems(4,5) by auto
  have "(\<lambda>x. ?A x @ after_of cs x) = (\<lambda>x. after x @ after_of (c # cs) x)"
    by (auto simp: after_of_def fun_eq_iff)
  moreover have a1: "dependents_ok ?A d1" and a2: "indegree_ok ?A {} i1" using a by blast+
  moreover have sub: "set (map pl_id cs) \<subseteq> set (dict_keys i1)" using k Cons.prems(4,5) by simp
  ultimately show ?case using a Cons.IH [OF r a1 a2 sub k] by simp
qed

section \<open>The loop\<close>

abbreviation deg :: "(string, int) dict \<Rightarrow> string \<Rightarrow> int" where
  "deg indegree x \<equiv> dict_get_or indegree x 0"

lemma relax_spec:
  assumes "relax ds I R = (I', R')" and "\<And>x. int (count_list ds x) \<le> deg I x"
    and "sorted R" and "distinct R" and "set R \<inter> set ds = {}"
  shows "(\<forall>x. deg I' x = deg I x - int (count_list ds x)) \<and> sorted R' \<and> distinct R' \<and>
    set R' = set R \<union> {x \<in> set ds. deg I x = int (count_list ds x)}"
  using assms
proof (induction ds arbitrary: I R)
  case (Cons d ds)
  let ?I = "AList.update d (deg I d - 1) I"
  let ?R = "if deg I d - 1 = 0 then insort d R else R"
  have r: "relax ds ?I ?R = (I', R')" using Cons.prems(1) unfolding relax.simps Let_def heappush_def .
  have c: "int (count_list ds x) \<le> deg ?I x" for x using Cons.prems(2) [of x] by (auto split: if_splits)
  have nd: "d \<notin> set ds" if "deg I d = 1"
    using Cons.prems(2) [of d] that by (simp add: count_list_0_iff)
  have "sorted ?R" using Cons.prems(3) by (simp add: sorted_insort)
  moreover have "distinct ?R" using Cons.prems(4,5) by (simp add: distinct_insort)
  moreover have "set ?R \<inter> set ds = {}" using Cons.prems(5) nd by (auto simp: set_insort_key)
  ultimately have ih: "(\<forall>x. deg I' x = deg ?I x - int (count_list ds x)) \<and> sorted R' \<and> distinct R' \<and>
      set R' = set ?R \<union> {x \<in> set ds. deg ?I x = int (count_list ds x)}"
    using Cons.IH [OF r c] by simp
  moreover have "set ?R \<union> {x \<in> set ds. deg ?I x = int (count_list ds x)} =
      set R \<union> {x \<in> set (d # ds). deg I x = int (count_list (d # ds) x)}"
  proof (cases "d \<in> set ds")
    case True
    with nd have "deg I d \<noteq> 1" by auto
    with True show ?thesis by (auto split: if_splits)
  next
    case False
    then show ?thesis by (auto simp: set_insort_key count_list_0_iff split: if_splits)
  qed
  moreover have "\<forall>x. deg I' x = deg I x - int (count_list (d # ds) x)" using ih by auto
  ultimately show ?case by simp
qed auto

text \<open>The state of the loop: \<open>ordered\<close> is closed under dependencies and \<open>ready\<close> is what can follow.\<close>

definition kahn_inv ::
  "(string \<Rightarrow> string list) \<Rightarrow> string set \<Rightarrow> (string, int) dict \<Rightarrow> string list \<Rightarrow> string list \<Rightarrow> bool" where
  "kahn_inv after ids I ready ordered \<longleftrightarrow>
     indegree_ok after (set ordered) I \<and> sorted ready \<and> distinct ready \<and> distinct ordered \<and>
     set ordered \<subseteq> ids \<and> topo after ordered \<and>
     set ready = {x \<in> ids. x \<notin> set ordered \<and> set (after x) \<subseteq> set ordered}"

lemma filter_remove_count:
  "n \<notin> A \<Longrightarrow> length (filter (\<lambda>d. d \<notin> insert n A) xs) + count_list xs n = length (filter (\<lambda>d. d \<notin> A) xs)"
  by (induction xs) auto

lemma count_le_filter: "n \<notin> A \<Longrightarrow> count_list xs n \<le> length (filter (\<lambda>d. d \<notin> A) xs)"
  by (induction xs) auto

lemma count_list_insort: "count_list (insort x xs) y = count_list (x # xs) y"
  by (induction xs) auto

lemma count_list_sort: "count_list (sort xs) x = count_list xs x"
  by (induction xs) (simp_all add: count_list_insort)

lemma kahn_inv_step:
  assumes dep: "dependents_ok after dependents" and inv: "kahn_inv after ids I (n # ready) ordered"
    and only: "\<And>x. after x \<noteq> [] \<Longrightarrow> x \<in> ids"
    and r: "relax (sort (dict_get_or dependents n [])) I ready = (I', ready')"
  shows "kahn_inv after ids I' ready' (ordered @ [n])"
proof -
  let ?ds = "sort (dict_get_or dependents n [])"
  have cnt: "count_list ?ds x = count_list (after x) n" for x
    using dep by (simp add: count_list_sort dependents_ok_def)
  have mem: "x \<in> set ?ds \<longleftrightarrow> n \<in> set (after x)" for x
    using cnt [of x] by (metis count_list_0_iff)
  have deg: "deg I x = int (length (filter (\<lambda>d. d \<notin> set ordered) (after x)))" for x
    using inv by (simp add: kahn_inv_def indegree_ok_def)
  have n: "n \<in> ids" "n \<notin> set ordered" "set (after n) \<subseteq> set ordered"
    and R: "set ready = {x \<in> ids. x \<notin> set ordered \<and> set (after x) \<subseteq> set ordered} - {n}"
    and s: "sorted ready" "distinct ready" "distinct ordered" "set ordered \<subseteq> ids" and t: "topo after ordered"
    using inv by (auto simp: kahn_inv_def)
  have dis: "set ready \<inter> set ?ds = {}" using R n(2) mem by blast
  have le: "int (count_list ?ds x) \<le> deg I x" for x
    using count_le_filter [OF n(2)] by (simp add: cnt deg)
  note sp = relax_spec [OF r le s(1,2) dis]
  have deg': "deg I' x = int (length (filter (\<lambda>d. d \<notin> set (ordered @ [n])) (after x)))" for x
    using sp filter_remove_count [OF n(2), of "after x"] by (simp add: cnt deg)
  have z: "deg I' x = 0 \<longleftrightarrow> set (after x) \<subseteq> set (ordered @ [n])" for x
    unfolding deg' by (auto simp: filter_empty_conv)
  have z0: "deg I x = 0 \<longleftrightarrow> set (after x) \<subseteq> set ordered" for x
    unfolding deg by (auto simp: filter_empty_conv)
  have "set ready' = {x \<in> ids. x \<notin> set (ordered @ [n]) \<and> set (after x) \<subseteq> set (ordered @ [n])}"
  proof (intro set_eqI)
    fix x
    have "x \<in> set ready' \<longleftrightarrow> x \<in> set ready \<or> n \<in> set (after x) \<and> deg I' x = 0"
      using sp mem by (auto simp: cnt)
    also have "\<dots> \<longleftrightarrow> x \<in> ids \<and> x \<notin> set (ordered @ [n]) \<and> set (after x) \<subseteq> set (ordered @ [n])"
    proof (cases "n \<in> set (after x)")
      case True
      then have "after x \<noteq> []" by auto
      then have "x \<in> ids" by (rule only)
      moreover have "x \<noteq> n" "x \<notin> set ordered" using True n topo_closed [OF t, of x] by auto
      note calculation this
      with True R n(2) z show ?thesis by auto
    next
      case False
      with R z show ?thesis by auto
    qed
    finally show "x \<in> set ready' \<longleftrightarrow> x \<in> {x \<in> ids. x \<notin> set (ordered @ [n]) \<and> set (after x) \<subseteq> set (ordered @ [n])}"
      by simp
  qed
  with sp deg' s n topo_snoc [OF t n(3)] show ?thesis
    by (simp add: kahn_inv_def indegree_ok_def)
qed

lemma kahn_result:
  assumes dep: "dependents_ok after dependents" and only: "\<And>x. after x \<noteq> [] \<Longrightarrow> x \<in> ids"
    and inv: "kahn_inv after ids I ready ordered"
  shows "let out = kahn dependents I ready ordered in
    distinct out \<and> set out \<subseteq> ids \<and> topo after out \<and> (\<forall>x \<in> ids - set out. \<not> set (after x) \<subseteq> set out)"
  using dep inv
proof (induction dependents I ready ordered rule: kahn.induct)
  case (1 dependents I ordered)
  then show ?case by (auto simp: kahn_inv_def Let_def)
next
  case (2 dependents I n ready ordered)
  obtain I' ready' where r: "relax (sort (dict_get_or dependents n [])) I ready = (I', ready')"
    by fastforce
  have "kahn_inv after ids I' ready' (ordered @ [n])"
    by (rule kahn_inv_step [OF 2(2,3) _ r]) (rule only)
  then show ?case using 2 r by (simp add: Let_def)
qed

section \<open>Correctness of the order\<close>

definition dep_rel :: "('a plan_component_scheme) list \<Rightarrow> (string \<times> string) set" where
  "dep_rel cs = {(d, x). \<exists>c \<in> set cs. pl_id c = x \<and> d \<in> set (pl_after c)}"

definition deps_known :: "('a plan_component_scheme) list \<Rightarrow> bool" where
  "deps_known cs \<longleftrightarrow> (\<forall>c \<in> set cs. set (pl_after c) \<subseteq> pl_id ` set cs)"

lemma set_after_of: "d \<in> set (after_of cs x) \<longleftrightarrow> (d, x) \<in> dep_rel cs"
  by (auto simp: after_of_def dep_rel_def)

lemma finite_dep_rel: "finite (dep_rel cs)"
proof -
  have "dep_rel cs = (\<Union>c \<in> set cs. (\<lambda>d. (d, pl_id c)) ` set (pl_after c))" by (auto simp: dep_rel_def)
  then show ?thesis by simp
qed

text \<open>A complete order exists exactly when the relation has no cycle.\<close>

lemma topo_acyclic:
  assumes "topo (after_of cs) xs" and "pl_id ` set cs \<subseteq> set xs"
  shows "acyclic (dep_rel cs)"
proof (rule acyclic_subset [OF topo_rel_acyclic [OF assms(1)]])
  show "dep_rel cs \<subseteq> {(d, x). x \<in> set xs \<and> d \<in> set (after_of cs x)}"
    using assms(2) set_after_of by (fastforce simp: dep_rel_def)
qed

lemma stuck_cyclic:
  assumes "x \<in> S" and "\<And>x. x \<in> S \<Longrightarrow> \<exists>d \<in> S. (d, x) \<in> dep_rel cs"
  shows "\<not> acyclic (dep_rel cs)"
proof
  assume "acyclic (dep_rel cs)"
  then have "wf (dep_rel cs)" by (rule finite_acyclic_wf [OF finite_dep_rel])
  with assms show False by (metis wf_eq_minimal)
qed

lemma find_by_id: "x \<in> pl_id ` set cs \<Longrightarrow> find (\<lambda>c. pl_id c = x) cs \<noteq> None"
  by (auto simp: find_None_iff)

lemma dedup_length_distinct: "length (dedup xs) = length xs \<longleftrightarrow> distinct xs"
proof
  assume "length (dedup xs) = length xs"
  moreover have "subseq (dedup xs) xs" by (rule dedup_subseq)
  ultimately have "dedup xs = xs" using subseq_same_length by blast
  then show "distinct xs" by (metis distinct_dedup)
qed (simp add: dedup_distinct)

lemma zero_dict: "dict_get_or (map (\<lambda>x. (x, z)) ids) x z = z"
  by (induction ids) (auto simp: dict_get_or_def)

lemma build_tables_known:
  "(\<exists>t. build_tables ids cs tables = Inr t) \<longleftrightarrow> (\<forall>c \<in> set cs. set (pl_after c) \<subseteq> set ids - {pl_id c})"
proof -
  have e: "(\<exists>t. add_edges ids n ds tb = Inr t) \<longleftrightarrow> set ds \<subseteq> set ids - {n}" for n ds tb
    by (induction ids n ds tb rule: add_edges.induct) auto
  show ?thesis
  proof (induction cs arbitrary: tables)
    case (Cons c cs)
    show ?case
      using e [of "pl_id c" "pl_after c" tables] Cons.IH
      by (cases "add_edges ids (pl_id c) (pl_after c) tables") auto
  qed simp
qed

lemma kahn_inv_initial:
  assumes i: "indegree_ok after {} I" and k: "dict_keys I = ids" and d: "distinct ids"
  shows "kahn_inv after (set ids) I (sort (map fst (filter (\<lambda>(_, count). count = 0) I))) []"
proof -
  have wf: "dict_wf I" using k d by (simp add: dict_wf_def)
  have "(x, c) \<in> set I \<Longrightarrow> c = deg I x" for x c
    using dict_wf_map_of [OF wf] by (auto simp: dict_get_or_def)
  moreover have "x \<in> set ids \<Longrightarrow> (x, deg I x) \<in> set I" for x
    using k dict_wf_map_of [OF wf] by (force simp: dict_get_or_def split: option.splits)
  moreover have "deg I x = 0 \<longleftrightarrow> after x = []" for x using i by (simp add: indegree_ok_def)
  ultimately have "set (map fst (filter (\<lambda>(_, count). count = 0) I)) = {x \<in> set ids. after x = []}"
    using k by force
  moreover have "distinct (map fst (filter (\<lambda>(_, count). count = 0) I))"
    using k d by (simp add: distinct_map_filter)
  ultimately show ?thesis using i by (simp add: kahn_inv_def topo_def)
qed

lemma topological_run:
  assumes d: "distinct (map pl_id cs)" and c: "list_ex pl_critical cs" and k: "deps_known cs"
    and irr: "\<forall>c \<in> set cs. pl_id c \<notin> set (pl_after c)"
  obtains out where "distinct out" "set out \<subseteq> pl_id ` set cs" "topo (after_of cs) out"
    "\<forall>x \<in> pl_id ` set cs - set out. \<not> set (after_of cs x) \<subseteq> set out"
    "topological_components cs = (if length out \<noteq> length cs then Inl (PlanError ''dependency graph contains a cycle'')
       else Inr (map (\<lambda>x. the (find (\<lambda>c. pl_id c = x) cs)) out))"
proof -
  let ?ids = "map pl_id cs"
  let ?D0 = "map (\<lambda>x. (x, [])) ?ids :: graph" and ?I0 = "map (\<lambda>x. (x, 0)) ?ids :: (string, int) dict"
  have "\<forall>c \<in> set cs. set (pl_after c) \<subseteq> set ?ids - {pl_id c}" using k irr by (auto simp: deps_known_def)
  then obtain D I where b: "build_tables ?ids cs (?D0, ?I0) = Inr (D, I)"
    using build_tables_known [of ?ids cs "(?D0, ?I0)"] by auto
  have "dependents_ok (\<lambda>_. []) ?D0" "indegree_ok (\<lambda>_. []) {} ?I0"
    by (simp_all add: dependents_ok_def indegree_ok_def zero_dict del: map_map)
  from build_tables_ok [OF b this] have ok: "dependents_ok (after_of cs) D" "indegree_ok (after_of cs) {} I" "dict_keys I = ?ids"
    by (simp_all add: o_def)
  let ?out = "kahn D I (sort (map fst (filter (\<lambda>(_, count). count = 0) I))) []"
  have only: "x \<in> set ?ids" if "after_of cs x \<noteq> []" for x
    using that by (force simp: after_of_def)
  have "let out = ?out in distinct out \<and> set out \<subseteq> set ?ids \<and> topo (after_of cs) out \<and>
      (\<forall>x \<in> set ?ids - set out. \<not> set (after_of cs x) \<subseteq> set out)"
    by (rule kahn_result [OF ok(1) only kahn_inv_initial [OF ok(2,3) d]])
  moreover have "topological_components cs = (if length ?out \<noteq> length cs then Inl (PlanError ''dependency graph contains a cycle'')
       else Inr (map (\<lambda>x. the (find (\<lambda>c. pl_id c = x) cs)) ?out))"
    using d c b by (simp add: topological_components_def dedup_distinct Let_def)
  ultimately show thesis using that [of ?out] by (simp add: Let_def)
qed

lemma topological_Inr_pre:
  assumes "topological_components cs = Inr out"
  shows "distinct (map pl_id cs)" and "list_ex pl_critical cs" and "deps_known cs"
    and "\<forall>c \<in> set cs. pl_id c \<notin> set (pl_after c)"
proof -
  from assms show d: "distinct (map pl_id cs)" and "list_ex pl_critical cs"
    by (auto simp: topological_components_def Let_def dedup_length_distinct [of "map pl_id cs", simplified] split: if_splits)
  from assms d obtain t where "build_tables (map pl_id cs) cs (map (\<lambda>x. (x, [])) (map pl_id cs), map (\<lambda>x. (x, 0)) (map pl_id cs)) = Inr t"
    by (auto simp: topological_components_def Let_def dedup_distinct rbind_Inr_iff split: if_splits)
  then have "\<forall>c \<in> set cs. set (pl_after c) \<subseteq> set (map pl_id cs) - {pl_id c}"
    using build_tables_known by blast
  then show "deps_known cs" and "\<forall>c \<in> set cs. pl_id c \<notin> set (pl_after c)"
    by (auto simp: deps_known_def)
qed

lemma topological_subset:
  assumes "topological_components cs = Inr out"
  shows "set out \<subseteq> set cs"
proof -
  obtain names where n: "set names \<subseteq> pl_id ` set cs" and r: "topological_components cs = (if length names \<noteq> length cs then Inl (PlanError ''dependency graph contains a cycle'')
       else Inr (map (\<lambda>x. the (find (\<lambda>c. pl_id c = x) cs)) names))"
    by (rule topological_run [OF topological_Inr_pre [OF assms]])
  have mem: "the (find (\<lambda>c. pl_id c = x) cs) \<in> set cs" if x: "x \<in> pl_id ` set cs" for x
  proof -
    obtain c where "find (\<lambda>c. pl_id c = x) cs = Some c" using find_by_id [OF x] by blast
    then have "c \<in> set cs" by (auto simp: find_Some_iff)
    with \<open>find _ cs = Some c\<close> show ?thesis by simp
  qed
  show ?thesis using n r assms mem by (auto split: if_splits)
qed

lemma topological_accepts:
  assumes pre: "distinct (map pl_id cs)" "list_ex pl_critical cs" "deps_known cs"
  shows "(\<exists>out. topological_components cs = Inr out) \<longleftrightarrow> acyclic (dep_rel cs)"
proof (cases "\<forall>c \<in> set cs. pl_id c \<notin> set (pl_after c)")
  case True
  then obtain out where o: "distinct out" "set out \<subseteq> pl_id ` set cs" "topo (after_of cs) out"
    and st: "\<forall>x \<in> pl_id ` set cs - set out. \<not> set (after_of cs x) \<subseteq> set out"
    and r: "topological_components cs = (if length out \<noteq> length cs then Inl (PlanError ''dependency graph contains a cycle'')
       else Inr (map (\<lambda>x. the (find (\<lambda>c. pl_id c = x) cs)) out))"
    using topological_run pre by blast
  have card: "card (pl_id ` set cs) = length cs" using pre(1) by (metis distinct_card length_map set_map)
  show ?thesis
  proof (cases "length out = length cs")
    case full: True
    then have "set out = pl_id ` set cs" using o(1,2) card by (metis card_subset_eq distinct_card finite_imageI finite_set)
    then have "acyclic (dep_rel cs)" using topo_acyclic [OF o(3)] by simp
    with r full show ?thesis by simp
  next
    case False
    then have "set out \<noteq> pl_id ` set cs" using o(1) card by (metis distinct_card)
    then obtain x where x: "x \<in> pl_id ` set cs - set out" using o(2) by auto
    have "\<not> acyclic (dep_rel cs)"
    proof (rule stuck_cyclic [OF x])
      fix y
      assume y: "y \<in> pl_id ` set cs - set out"
      then obtain d where "d \<in> set (after_of cs y)" "d \<notin> set out" using st by blast
      moreover from this pre(3) have "d \<in> pl_id ` set cs" by (auto simp: set_after_of dep_rel_def deps_known_def)
      ultimately show "\<exists>d \<in> pl_id ` set cs - set out. (d, y) \<in> dep_rel cs" by (auto simp: set_after_of)
    qed
    with r False show ?thesis by simp
  qed
next
  case False
  moreover from this have "\<not> acyclic (dep_rel cs)" by (auto simp: acyclic_def dep_rel_def)
  ultimately show ?thesis using topological_Inr_pre(4) by blast
qed

text \<open>
  C22. The compiler orders exactly the well-founded plans: components are accepted if and only if
  their ids are unique, one of them is critical, every dependency names a component, and the
  dependency relation has no cycle.
\<close>

theorem topological_accepts_iff:
  "(\<exists>out. topological_components cs = Inr out) \<longleftrightarrow>
     distinct (map pl_id cs) \<and> list_ex pl_critical cs \<and> deps_known cs \<and> acyclic (dep_rel cs)"
  using topological_accepts [of cs] topological_Inr_pre [of cs] by blast

text \<open>
  An accepted plan is the same set of components, each once, reordered so that every
  component comes after all of its dependencies.
\<close>

lemma topological_order:
  assumes "topological_components cs = Inr out"
  shows "distinct out \<and> set out = set cs \<and>
    (\<forall>ys c zs. out = ys @ c # zs \<longrightarrow> set (pl_after c) \<subseteq> set (map pl_id ys))"
proof -
  note pre = topological_Inr_pre [OF assms]
  obtain names where o: "distinct names" "set names \<subseteq> pl_id ` set cs" "topo (after_of cs) names"
    and "\<forall>x \<in> pl_id ` set cs - set names. \<not> set (after_of cs x) \<subseteq> set names" and r: "topological_components cs = (if length names \<noteq> length cs then Inl (PlanError ''dependency graph contains a cycle'')
       else Inr (map (\<lambda>x. the (find (\<lambda>c. pl_id c = x) cs)) names))"
    by (rule topological_run [OF pre])
  let ?f = "\<lambda>x. the (find (\<lambda>c. pl_id c = x) cs)"
  have out: "out = map ?f names" and len: "length names = length cs" using r assms by (auto split: if_splits)
  have f: "?f (pl_id c) = c" if "c \<in> set cs" for c
    using find_inj [of pl_id cs c] pre(1) that by (simp add: distinct_map)
  have "card (pl_id ` set cs) = length cs" using pre(1) by (metis distinct_card length_map set_map)
  then have ids: "set names = pl_id ` set cs"
    using o(1,2) len by (metis card_subset_eq distinct_card finite_imageI finite_set)
  have inv: "pl_id (?f x) = x \<and> ?f x \<in> set cs" if "x \<in> set names" for x
  proof -
    from that ids obtain c where "c \<in> set cs" "x = pl_id c" by blast
    with f [of c] show ?thesis by simp
  qed
  have undo: "map pl_id (map ?f xs) = xs" if "set xs \<subseteq> set names" for xs
    using that inv by (induction xs) auto
  have "set out = set cs" unfolding out set_map ids using f by force
  moreover have "distinct out" using undo [of names] o(1) out by (metis distinct_map order_refl)
  moreover have "set (pl_after c) \<subseteq> set (map pl_id ys)" if "out = ys @ c # zs" for ys c zs
  proof -
    have "names = map pl_id ys @ pl_id c # map pl_id zs"
      using undo [of names] unfolding out [symmetric] that by simp
    then have "set (after_of cs (pl_id c)) \<subseteq> set (map pl_id ys)" using o(3) unfolding topo_def by blast
    moreover have "c \<in> set cs" using \<open>set out = set cs\<close> that by auto
    ultimately show ?thesis by (force simp: after_of_def)
  qed
  ultimately show ?thesis by blast
qed

end
