(* ===== verification/Plan_Compiler.thy ===== *)
theory Plan_Compiler
  imports Plan_Order Py_Regex "HOL-Library.Code_Target_Nat"
begin

text \<open>
  The compiler of the native runtime plan (\<open>native/scripts/compile_runtime_plan.py\<close>): the strict
  validation of a source document in either schema and its translation to the line protocol that
  the native supervisor reads.  The JSON decoder is represented by the tree it hands to its object
  hook, with all pairs of every object.  Text is encoded as UTF-8; a character of the model is a code
  point below 256, so it takes one or two bytes.

  The lemmas show that normalised components respect every bound of the schema, that the encoding of
  text fields can be decoded again, and that the compiled text consists of exactly the intended
  lines and fields: no value of the document can introduce a separator.
\<close>

section \<open>Encoding\<close>

definition hex_byte :: "nat \<Rightarrow> string" where
  "hex_byte b = [hex_digit (b div 16), hex_digit (b mod 16)]"

definition encoded :: "string \<Rightarrow> string" where
  "encoded s = concat (map hex_byte (utf8 s))"

section \<open>Checked values\<close>

definition SCHEMA :: string where "SCHEMA = ''msys.native-lite-plan.source.v1''"
definition SCHEMA_V2 :: string where "SCHEMA_V2 = ''msys.native-runtime.source.v2''"
definition TAB :: char where "TAB = CHR 9"
definition NL :: char where "NL = CHR 10"
definition HEADER :: string where "HEADER = ''MSYS_NATIVE_LITE_PLAN'' @ [TAB] @ ''1''"
definition HEADER_V2 :: string where "HEADER_V2 = ''MSYS_NATIVE_LITE_PLAN'' @ [TAB] @ ''2''"
definition MAX_BYTES :: nat where "MAX_BYTES = 1024 * 1024"
definition MAX_COMPONENTS :: nat where "MAX_COMPONENTS = 64"

definition ID_RE :: rx where
  "ID_RE = RSeq (RCls [AZ, az, d09])
     (rx_upto 127 (RCls [AZ, az, d09, one CHR ''_'', one CHR ''.'', one CHR '':'', one CHR ''-'']))"

definition ENV_RE :: rx where
  "ENV_RE = RSeq (RCls [AZ, az, one CHR ''_'']) (rx_upto 127 (RCls [AZ, az, d09, one CHR ''_'']))"

definition RESERVED_ENV :: "string list" where
  "RESERVED_ENV =
     [''MSYS_READY_FD'', ''MSYS_CONTROL_FD'', ''MSYS_COMPONENT_ID'', ''MSYS_GENERATION'',
      ''MSYS_RUNTIME_DIR'', ''MSYS_PACKAGE_ID'', ''MSYS_PACKAGE_VERSION'', ''MSYS_WINDOW_TITLE'',
      ''MSYS_APP_ID'', ''MSYS_WINDOW_IDENTITY'', ''MSYS_X11_WM_INSTANCE'']"

type_synonym 'a checked = "(plan_error, 'a) result"

definition plan_fail :: "string \<Rightarrow> 'a checked" where
  "plan_fail message = Inl (PlanError message)"

definition object_no_duplicates :: "jobj \<Rightarrow> jobj checked" where
  "object_no_duplicates = unique_fields (\<lambda>key. PlanError (''duplicate JSON key: '' @ key)) []"

definition closed_object :: "json \<Rightarrow> string \<Rightarrow> string list \<Rightarrow> string list \<Rightarrow> jobj checked" where
  "closed_object v path allowed required = (case v of
       JObj d \<Rightarrow>
         (let unknown = sort (filter (\<lambda>k. k \<notin> set allowed) (dict_keys d));
              missing = sort (filter (\<lambda>k. \<not> dict_has d k) required) in
          if unknown \<noteq> [] then plan_fail (path @ '' has unknown field '' @ repr_string (hd unknown))
          else if missing \<noteq> [] then plan_fail (path @ '' is missing field '' @ repr_string (hd missing))
          else Inr d)
     | _ \<Rightarrow> plan_fail (path @ '' must be an object''))"

definition integer_in :: "json \<Rightarrow> string \<Rightarrow> int \<Rightarrow> int \<Rightarrow> int checked" where
  "integer_in v path minimum maximum = (case v of
       JInt i \<Rightarrow> if minimum \<le> i \<and> i \<le> maximum then Inr i
         else plan_fail (path @ '' must be an integer in '' @ int_str minimum @ ''..'' @ int_str maximum)
     | _ \<Rightarrow> plan_fail (path @ '' must be an integer in '' @ int_str minimum @ ''..'' @ int_str maximum))"

definition enum_string :: "json \<Rightarrow> string \<Rightarrow> string list \<Rightarrow> string checked" where
  "enum_string v path allowed = (case v of
       JStr s \<Rightarrow> if s \<in> set allowed then Inr s else plan_fail (path @ '' is invalid'')
     | _ \<Rightarrow> plan_fail (path @ '' is invalid''))"

definition bounded_string :: "json \<Rightarrow> string \<Rightarrow> nat \<Rightarrow> bool \<Rightarrow> string checked" where
  "bounded_string v path maximum_bytes nonempty = (case v of
       JStr s \<Rightarrow>
         if CHR 0x00 \<in> set s then plan_fail (path @ '' must be a NUL-free string'')
         else if nonempty \<and> s = [] \<or> length (utf8 s) > maximum_bytes then
           plan_fail (path @ '' has invalid encoded length'')
         else Inr s
     | _ \<Rightarrow> plan_fail (path @ '' must be a NUL-free string''))"

definition boolean_at :: "json \<Rightarrow> string \<Rightarrow> bool checked" where
  "boolean_at v path = (case v of JBool b \<Rightarrow> Inr b | _ \<Rightarrow> plan_fail (path @ '' must be boolean''))"

definition id_string :: "json \<Rightarrow> string \<Rightarrow> string checked" where
  "id_string v path =
     rbind (bounded_string v path 128 True) (\<lambda>s.
       if \<not> fullmatch ID_RE s then plan_fail (path @ '' is invalid'') else Inr s)"

definition indexed :: "string \<Rightarrow> nat \<Rightarrow> string" where
  "indexed path i = path @ ''['' @ nat_str i @ '']''"

text \<open>\<open>[bounded_string(value, f"{path}[{offset}]", n) for offset, value in enumerate(values)]\<close>\<close>

definition bounded_strings :: "json list \<Rightarrow> string \<Rightarrow> nat \<Rightarrow> bool \<Rightarrow> string list checked" where
  "bounded_strings vs path maximum_bytes nonempty =
     traverse (\<lambda>(i, v). bounded_string v (indexed path i) maximum_bytes nonempty) (enumerate 0 vs)"

definition array_of :: "json \<Rightarrow> nat \<Rightarrow> nat \<Rightarrow> string \<Rightarrow> json list checked" where
  "array_of v minimum maximum message = (case v of
       JList xs \<Rightarrow> if minimum \<le> length xs \<and> length xs \<le> maximum then Inr xs else plan_fail message
     | _ \<Rightarrow> plan_fail message)"

section \<open>Shared fields\<close>

definition argv_field :: "json \<Rightarrow> string \<Rightarrow> string list checked" where
  "argv_field v path =
     rbind (array_of v 1 64 (path @ ''.exec must contain 1..64 arguments'')) (\<lambda>xs.
     rbind (bounded_strings xs (path @ ''.exec'') 4096 False) (\<lambda>argv.
       if hd argv = [] \<or> \<not> startswith (hd argv) ''/'' then plan_fail (path @ ''.exec[0] must be absolute'')
       else Inr argv))"

definition env_field :: "json \<Rightarrow> string \<Rightarrow> (string \<times> string) list checked" where
  "env_field v path = (case v of
       JObj d \<Rightarrow>
         if length d > 64 then plan_fail (path @ ''.env must contain at most 64 entries'')
         else traverse (\<lambda>key.
           if \<not> fullmatch ENV_RE key \<or> key \<in> set RESERVED_ENV then
             plan_fail (path @ ''.env has invalid or reserved key '' @ repr_string key)
           else rbind (bounded_string (jget_null d key) (path @ ''.env.'' @ key) 4096 False) (\<lambda>x. Inr (key, x)))
           (sort (dict_keys d))
     | _ \<Rightarrow> plan_fail (path @ ''.env must contain at most 64 entries''))"

definition readiness_field :: "json \<Rightarrow> string \<Rightarrow> string list \<Rightarrow> (string \<times> int) checked" where
  "readiness_field v path modes =
     rbind (closed_object v (path @ ''.readiness'') [''mode'', ''timeout_ms''] [''mode'', ''timeout_ms'']) (\<lambda>readiness.
     rbind (enum_string (jget_null readiness ''mode'') (path @ ''.readiness.mode'') modes) (\<lambda>mode.
     rbind (integer_in (jget_null readiness ''timeout_ms'') (path @ ''.readiness.timeout_ms'') 1 300000) (\<lambda>timeout.
       Inr (mode, timeout))))"

definition backoff_field :: "json \<Rightarrow> string \<Rightarrow> (int \<times> int \<times> int) checked" where
  "backoff_field v path =
     rbind (closed_object v (path @ ''.backoff'') [''initial_ms'', ''max_ms'', ''limit''] []) (\<lambda>backoff.
     rbind (integer_in (jget_or backoff ''initial_ms'' (JInt 250)) (path @ ''.backoff.initial_ms'') 1 60000) (\<lambda>initial.
     rbind (integer_in (jget_or backoff ''max_ms'' (JInt 30000)) (path @ ''.backoff.max_ms'') initial 300000) (\<lambda>mx.
     rbind (integer_in (jget_or backoff ''limit'' (JInt 8)) (path @ ''.backoff.limit'') 0 1000) (\<lambda>limit.
       Inr (initial, mx, limit)))))"

definition KINDS :: "string list" where "KINDS = [''display'', ''window'', ''shell'', ''other'']"
definition RESTARTS :: "string list" where "RESTARTS = [''never'', ''on-failure'', ''always'']"

section \<open>Components of the first schema\<close>

definition after_v1 :: "json \<Rightarrow> string \<Rightarrow> string list checked" where
  "after_v1 v path =
     rbind (array_of v 0 32 (path @ ''.after must contain at most 32 ids'')) (\<lambda>xs.
     rbind (traverse (\<lambda>(i, x). id_string x (indexed (path @ ''.after'') i)) (enumerate 0 xs)) (\<lambda>after.
       if \<not> distinct after then plan_fail (path @ ''.after contains duplicates'') else Inr after))"

definition normalize_component :: "json \<Rightarrow> nat \<Rightarrow> plan_component checked" where
  "normalize_component raw index =
     (let path = indexed ''$.components'' index in
      rbind (closed_object raw path
        [''id'', ''kind'', ''critical'', ''restart'', ''readiness'', ''backoff'', ''exec'', ''after'', ''env'']
        [''id'', ''kind'', ''critical'', ''restart'', ''readiness'', ''exec'']) (\<lambda>item.
      rbind (id_string (jget_null item ''id'') (path @ ''.id'')) (\<lambda>component_id.
      rbind (enum_string (jget_null item ''kind'') (path @ ''.kind'') KINDS) (\<lambda>kind.
      rbind (boolean_at (jget_null item ''critical'') (path @ ''.critical'')) (\<lambda>critical.
      rbind (enum_string (jget_null item ''restart'') (path @ ''.restart'') RESTARTS) (\<lambda>restart.
      rbind (readiness_field (jget_null item ''readiness'') path [''exec'', ''fd'', ''mipc-ready'']) (\<lambda>readiness.
      rbind (backoff_field (jget_or item ''backoff'' (JObj [])) path) (\<lambda>backoff.
      rbind (argv_field (jget_null item ''exec'') path) (\<lambda>argv.
      rbind (after_v1 (jget_or item ''after'' (JList [])) path) (\<lambda>after.
      rbind (env_field (jget_or item ''env'' (JObj [])) path) (\<lambda>environment.
        Inr \<lparr>pl_id = component_id, pl_kind = kind, pl_critical = critical, pl_restart = restart,
             pl_readiness_mode = fst readiness, pl_readiness_timeout_ms = snd readiness,
             pl_initial_ms = fst backoff, pl_max_ms = fst (snd backoff), pl_limit = snd (snd backoff),
             pl_argv = argv, pl_after = sort after, pl_environment = environment\<rparr>)))))))))))"

section \<open>Lines\<close>

definition tabbed :: "string list \<Rightarrow> string" where
  "tabbed row = py_join [TAB] row"

definition flag :: "bool \<Rightarrow> string" where
  "flag b = (if b then ''1'' else ''0'')"

definition component_fields :: "('a plan_component_scheme) \<Rightarrow> string list" where
  "component_fields item =
     [''component'', pl_id item, pl_kind item, flag (pl_critical item), pl_restart item,
      pl_readiness_mode item, int_str (pl_readiness_timeout_ms item), int_str (pl_initial_ms item),
      int_str (pl_max_ms item), int_str (pl_limit item), nat_str (length (pl_argv item)),
      nat_str (length (pl_after item)), nat_str (length (pl_environment item))]"

definition body_fields :: "('a plan_component_scheme) \<Rightarrow> string list list" where
  "body_fields item =
     map (\<lambda>v. [''arg'', encoded v]) (pl_argv item) @
     map (\<lambda>v. [''after'', v]) (pl_after item) @
     map (\<lambda>(k, v). [''env'', encoded k, encoded v]) (pl_environment item)"

definition plan_text :: "string list list \<Rightarrow> string checked" where
  "plan_text rows =
     (let result = py_join [NL] (map tabbed rows) @ [NL] in
      if length (utf8 result) > MAX_BYTES then plan_fail ''compiled plan exceeds 1 MiB''
      else Inr result)"

definition header_fields :: "string \<Rightarrow> string list" where
  "header_fields version = [''MSYS_NATIVE_LITE_PLAN'', version]"

definition compile_rows_v1 :: "int \<Rightarrow> plan_component list \<Rightarrow> string list list" where
  "compile_rows_v1 stop_grace components =
     [header_fields ''1'', [''stop_grace_ms'', int_str stop_grace]] @
     concat (map (\<lambda>item. component_fields item # body_fields item @ [[''end'']]) components)"

definition compile_document_v1 :: "json \<Rightarrow> string checked" where
  "compile_document_v1 document =
     rbind (closed_object document ''$'' [''schema'', ''stop_grace_ms'', ''components''] [''schema'', ''components'']) (\<lambda>root.
     if jget_null root ''schema'' \<noteq> JStr SCHEMA then plan_fail (''$.schema must equal '' @ repr_string SCHEMA)
     else
     rbind (integer_in (jget_or root ''stop_grace_ms'' (JInt 2000)) ''$.stop_grace_ms'' 100 60000) (\<lambda>stop_grace.
     rbind (array_of (jget_null root ''components'') 1 MAX_COMPONENTS ''$.components must contain 1..64 entries'') (\<lambda>raws.
     rbind (traverse (\<lambda>(i, v). normalize_component v i) (enumerate 0 raws)) (\<lambda>items.
     rbind (topological_components items) (\<lambda>components.
       plan_text (compile_rows_v1 stop_grace components))))))"

section \<open>Components of the second schema\<close>

record plan_component_v2 = plan_component +
  pl_lifecycle :: string
  pl_idle_timeout_ms :: int
  pl_provides :: "(string \<times> string \<times> bool \<times> int) list"
  pl_permissions :: "string list"
  pl_package :: "string list"
  pl_metadata :: "string list"
  pl_launchable :: bool
  pl_window :: "string list"

definition after_v2 :: "json \<Rightarrow> string \<Rightarrow> string list checked" where
  "after_v2 v path =
     rbind (array_of v 0 32 (path @ ''.after must contain at most 32 ids'')) (\<lambda>xs.
     rbind (bounded_strings xs (path @ ''.after'') 128 True) (\<lambda>after.
       if list_ex (\<lambda>x. \<not> fullmatch ID_RE x) after \<or> \<not> distinct after
       then plan_fail (path @ ''.after contains invalid or duplicate ids'') else Inr after))"

definition lifecycle_field :: "jobj \<Rightarrow> string \<Rightarrow> (string \<times> int) checked" where
  "lifecycle_field item path =
     rbind (enum_string (jget_null item ''lifecycle'') (path @ ''.lifecycle'') [''background'', ''on-demand'', ''manual'']) (\<lambda>lifecycle.
     rbind (integer_in (jget_or item ''idle_timeout_ms'' (JInt 0)) (path @ ''.idle_timeout_ms'') 0 3600000) (\<lambda>idle.
       if lifecycle = ''on-demand'' \<and> idle < 100 then
         plan_fail (path @ ''.idle_timeout_ms must be at least 100 for on-demand'')
       else if lifecycle \<noteq> ''on-demand'' \<and> idle \<noteq> 0 then
         plan_fail (path @ ''.idle_timeout_ms is only valid for on-demand'')
       else Inr (lifecycle, idle)))"

definition PROVIDE_KINDS :: "string list" where
  "PROVIDE_KINDS = [''role'', ''interface'', ''capability'']"

definition provide_v2 :: "json \<Rightarrow> string \<Rightarrow> (string \<times> string \<times> bool \<times> int) checked" where
  "provide_v2 raw path =
     rbind (closed_object raw path (PROVIDE_KINDS @ [''exclusive'', ''priority'']) []) (\<lambda>p.
     case filter (dict_has p) PROVIDE_KINDS of
       [kind] \<Rightarrow>
         rbind (bounded_string (jget_null p kind) (path @ ''.'' @ kind) 128 True) (\<lambda>name.
         if \<not> fullmatch ID_RE name then plan_fail (path @ '' name is invalid'')
         else
         rbind (boolean_at (jget_or p ''exclusive'' (JBool False)) (path @ ''.exclusive'')) (\<lambda>exclusive.
         rbind (integer_in (jget_or p ''priority'' (JInt 0)) (path @ ''.priority'') 0 1000000) (\<lambda>priority.
           Inr (kind, name, exclusive, priority))))
     | _ \<Rightarrow> plan_fail (path @ '' must declare exactly one provide kind''))"

fun provides_v2 ::
  "(nat \<times> json) list \<Rightarrow> string \<Rightarrow> (string \<times> string \<times> bool \<times> int) list \<Rightarrow>
     (string \<times> string \<times> bool \<times> int) list checked" where
  "provides_v2 [] path acc = Inr acc"
| "provides_v2 ((i, raw) # raws) path acc =
     rbind (provide_v2 raw (indexed path i)) (\<lambda>p.
       if (fst p, fst (snd p)) \<in> set (map (\<lambda>q. (fst q, fst (snd q))) acc)
       then plan_fail (indexed path i @ '' duplicates a provide'')
       else provides_v2 raws path (acc @ [p]))"

definition provides_field :: "json \<Rightarrow> string \<Rightarrow> (string \<times> string \<times> bool \<times> int) list checked" where
  "provides_field v path =
     rbind (array_of v 0 32 (path @ ''.provides must contain at most 32 entries'')) (\<lambda>xs.
       provides_v2 (enumerate 0 xs) (path @ ''.provides'') [])"

definition permissions_field :: "json \<Rightarrow> string \<Rightarrow> string list checked" where
  "permissions_field v path =
     rbind (array_of v 0 128 (path @ ''.permissions must contain at most 128 entries'')) (\<lambda>xs.
     rbind (bounded_strings xs (path @ ''.permissions'') 256 True) (\<lambda>permissions.
       if \<not> distinct permissions then plan_fail (path @ ''.permissions contains duplicates'')
       else Inr permissions))"

definition package_field :: "json \<Rightarrow> string \<Rightarrow> string list checked" where
  "package_field v path =
     rbind (closed_object v (path @ ''.package'') [''id'', ''name'', ''version'', ''kind''] [''id'', ''name'', ''version'', ''kind'']) (\<lambda>p.
     rbind (id_string (jget_null p ''id'') (path @ ''.package.id'')) (\<lambda>package_id.
     rbind (bounded_string (jget_null p ''name'') (path @ ''.package.name'') 256 False) (\<lambda>name.
     rbind (bounded_string (jget_null p ''version'') (path @ ''.package.version'') 64 False) (\<lambda>version.
     rbind (bounded_string (jget_null p ''kind'') (path @ ''.package.kind'') 64 False) (\<lambda>kind.
       Inr [package_id, name, version, kind])))))"

definition metadata_field :: "jobj \<Rightarrow> string \<Rightarrow> string list checked" where
  "metadata_field item path =
     rbind (bounded_string (jget_null item ''name'') (path @ ''.name'') 256 True) (\<lambda>name.
     rbind (bounded_string (jget_or item ''summary'' (JStr [])) (path @ ''.summary'') 1024 False) (\<lambda>summary.
     rbind (bounded_string (jget_or item ''icon'' (JStr [])) (path @ ''.icon'') 4096 False) (\<lambda>icon.
       Inr [name, summary, icon])))"

definition WINDOW_LIMITS :: "(string \<times> nat) list" where
  "WINDOW_LIMITS =
     [(''system'', 32), (''display'', 64), (''mode'', 64), (''title'', 256), (''app_id'', 256),
      (''wm_class'', 256), (''wm_instance'', 256)]"

definition window_field :: "json \<Rightarrow> string \<Rightarrow> string list checked" where
  "window_field v path =
     rbind (closed_object v (path @ ''.windowing'') (map fst WINDOW_LIMITS) []) (\<lambda>w.
       traverse (\<lambda>(key, limit). bounded_string (jget_or w key (JStr [])) (path @ ''.windowing.'' @ key) limit False)
         WINDOW_LIMITS)"

definition normalize_v2_component :: "json \<Rightarrow> nat \<Rightarrow> plan_component_v2 checked" where
  "normalize_v2_component raw index =
     (let path = indexed ''$.components'' index in
      rbind (closed_object raw path
        [''id'', ''kind'', ''critical'', ''lifecycle'', ''idle_timeout_ms'', ''restart'', ''readiness'', ''backoff'',
         ''exec'', ''after'', ''env'', ''provides'', ''permissions'', ''package'', ''name'', ''summary'', ''icon'',
         ''windowing'', ''launchable'']
        [''id'', ''kind'', ''critical'', ''lifecycle'', ''restart'', ''readiness'', ''exec'', ''package'', ''name'']) (\<lambda>item.
      rbind (id_string (jget_null item ''id'') (path @ ''.id'')) (\<lambda>component_id.
      rbind (enum_string (jget_null item ''kind'') (path @ ''.kind'') KINDS) (\<lambda>kind.
      rbind (boolean_at (jget_null item ''critical'') (path @ ''.critical'')) (\<lambda>critical.
      rbind (lifecycle_field item path) (\<lambda>lifecycle.
      rbind (enum_string (jget_null item ''restart'') (path @ ''.restart'') RESTARTS) (\<lambda>restart.
      rbind (readiness_field (jget_null item ''readiness'') path [''exec'', ''fd'', ''mipc-ready'', ''x11-display'']) (\<lambda>readiness.
      rbind (backoff_field (jget_or item ''backoff'' (JObj [])) path) (\<lambda>backoff.
      rbind (argv_field (jget_null item ''exec'') path) (\<lambda>argv.
      rbind (after_v2 (jget_or item ''after'' (JList [])) path) (\<lambda>after.
      rbind (env_field (jget_or item ''env'' (JObj [])) path) (\<lambda>environment.
      rbind (provides_field (jget_or item ''provides'' (JList [])) path) (\<lambda>provides.
      rbind (permissions_field (jget_or item ''permissions'' (JList [])) path) (\<lambda>permissions.
      rbind (package_field (jget_null item ''package'') path) (\<lambda>package.
      rbind (metadata_field item path) (\<lambda>metadata.
      rbind (boolean_at (jget_or item ''launchable'' (JBool False)) (path @ ''.launchable'')) (\<lambda>launchable.
      rbind (window_field (jget_or item ''windowing'' (JObj [])) path) (\<lambda>window.
        Inr \<lparr>pl_id = component_id, pl_kind = kind, pl_critical = critical, pl_restart = restart,
             pl_readiness_mode = fst readiness, pl_readiness_timeout_ms = snd readiness,
             pl_initial_ms = fst backoff, pl_max_ms = fst (snd backoff), pl_limit = snd (snd backoff),
             pl_argv = argv, pl_after = sort after, pl_environment = environment,
             pl_lifecycle = fst lifecycle, pl_idle_timeout_ms = snd lifecycle,
             pl_provides = provides, pl_permissions = sort permissions, pl_package = package,
             pl_metadata = metadata, pl_launchable = launchable, pl_window = window\<rparr>))))))))))))))))))"

section \<open>Profiles of the second schema\<close>

record plan_profile =
  pp_id :: string
  pp_display :: string
  pp_roles :: "(string \<times> string list) list"
  pp_startup :: "string list"
  pp_environment :: "(string \<times> string) list"

definition id_list :: "json list \<Rightarrow> string \<Rightarrow> string \<Rightarrow> string list checked" where
  "id_list xs path message =
     rbind (bounded_strings xs path 128 True) (\<lambda>ids.
       if list_ex (\<lambda>x. \<not> fullmatch ID_RE x) ids \<or> \<not> distinct ids then plan_fail message else Inr ids)"

definition profile_role :: "jobj \<Rightarrow> string \<Rightarrow> (string \<times> string list) checked" where
  "profile_role roles role =
     (let path = ''$.profile.roles.'' @ role in
      if \<not> fullmatch ID_RE role then plan_fail (''$.profile.roles has invalid role '' @ repr_string role)
      else
      rbind (array_of (jget_null roles role) 1 MAX_COMPONENTS (path @ '' must contain 1..64 providers'')) (\<lambda>xs.
      rbind (id_list xs path (path @ '' contains invalid or duplicate providers'')) (\<lambda>ids. Inr (role, ids))))"

definition plan_profile_of :: "json \<Rightarrow> plan_profile checked" where
  "plan_profile_of v =
     rbind (closed_object v ''$.profile'' [''id'', ''display'', ''roles'', ''startup'', ''env''] [''id'', ''roles'', ''startup'']) (\<lambda>profile.
     rbind (id_string (jget_null profile ''id'') ''$.profile.id'') (\<lambda>profile_id.
     rbind (bounded_string (jget_or profile ''display'' (JStr [])) ''$.profile.display'' 63 False) (\<lambda>display.
     rbind (case jget_null profile ''roles'' of
              JObj d \<Rightarrow> if length d > 64 then plan_fail ''$.profile.roles must contain at most 64 roles''
                else traverse (profile_role d) (sort (dict_keys d))
            | _ \<Rightarrow> plan_fail ''$.profile.roles must contain at most 64 roles'') (\<lambda>roles.
     rbind (array_of (jget_null profile ''startup'') 0 MAX_COMPONENTS ''$.profile.startup must contain at most 64 components'') (\<lambda>xs.
     rbind (id_list xs ''$.profile.startup'' ''$.profile.startup contains invalid or duplicate components'') (\<lambda>startup.
     rbind (env_field (jget_or profile ''env'' (JObj [])) ''$.profile'') (\<lambda>environment.
       Inr \<lparr>pp_id = profile_id, pp_display = display, pp_roles = roles, pp_startup = startup,
            pp_environment = environment\<rparr>)))))))"

text \<open>The references of the profile into the ordered components.\<close>

definition provides_role :: "plan_component_v2 list \<Rightarrow> string \<Rightarrow> string \<Rightarrow> bool" where
  "provides_role components provider role =
     (case find (\<lambda>c. pl_id c = provider) components of
        None \<Rightarrow> False
      | Some c \<Rightarrow> list_ex (\<lambda>(kind, name, _, _). kind = ''role'' \<and> name = role) (pl_provides c))"

definition check_references :: "plan_profile \<Rightarrow> plan_component_v2 list \<Rightarrow> unit checked" where
  "check_references profile components =
     (let ids = map pl_id components in
      rbind (traverse (\<lambda>c. if c \<notin> set ids then plan_fail (''$.profile.startup references missing component '' @ c)
               else Inr ()) (pp_startup profile)) (\<lambda>_.
      rbind (traverse (\<lambda>(role, provider).
               if provider \<notin> set ids then
                 plan_fail (''$.profile.roles.'' @ role @ '' references missing component '' @ provider)
               else if \<not> provides_role components provider role then
                 plan_fail (provider @ '' does not provide preferred role '' @ role)
               else Inr ()) (concat (map (\<lambda>(role, ps). map (\<lambda>p. (role, p)) ps) (pp_roles profile)))) (\<lambda>_.
        Inr ())))"

definition profile_rows :: "plan_profile \<Rightarrow> string list list" where
  "profile_rows p =
     [''profile'', encoded (pp_id p), encoded (pp_display p), nat_str (length (pp_roles p)),
      nat_str (length (pp_environment p)), nat_str (length (pp_startup p))] #
     concat (map (\<lambda>(role, ps). [''role'', encoded role, nat_str (length ps)] # map (\<lambda>q. [''provider'', q]) ps) (pp_roles p)) @
     map (\<lambda>(k, v). [''profile-env'', encoded k, encoded v]) (pp_environment p) @
     map (\<lambda>v. [''startup'', v]) (pp_startup p)"

definition component_rows_v2 :: "plan_component_v2 \<Rightarrow> string list list" where
  "component_rows_v2 item =
     (component_fields item @
        [pl_lifecycle item, int_str (pl_idle_timeout_ms item), nat_str (length (pl_provides item)),
         nat_str (length (pl_permissions item)), flag (pl_launchable item)]) #
     body_fields item @
     map (\<lambda>(kind, name, exclusive, priority). [''provide'', kind, encoded name, flag exclusive, int_str priority])
       (pl_provides item) @
     map (\<lambda>v. [''permission'', encoded v]) (pl_permissions item) @
     [''package'' # map encoded (pl_package item), ''metadata'' # map encoded (pl_metadata item),
      ''window'' # map encoded (pl_window item), [''end'']]"

definition compile_rows_v2 :: "int \<Rightarrow> plan_profile \<Rightarrow> plan_component_v2 list \<Rightarrow> string list list" where
  "compile_rows_v2 stop_grace profile components =
     [header_fields ''2'', [''stop_grace_ms'', int_str stop_grace]] @ profile_rows profile @
     concat (map component_rows_v2 components)"

definition compile_document_v2 :: "json \<Rightarrow> string checked" where
  "compile_document_v2 document =
     rbind (closed_object document ''$'' [''schema'', ''stop_grace_ms'', ''profile'', ''components''] [''schema'', ''profile'', ''components'']) (\<lambda>root.
     rbind (integer_in (jget_or root ''stop_grace_ms'' (JInt 2000)) ''$.stop_grace_ms'' 100 60000) (\<lambda>stop_grace.
     rbind (plan_profile_of (jget_null root ''profile'')) (\<lambda>profile.
     rbind (array_of (jget_null root ''components'') 1 MAX_COMPONENTS ''$.components must contain 1..64 entries'') (\<lambda>raws.
     rbind (traverse (\<lambda>(i, v). normalize_v2_component v i) (enumerate 0 raws)) (\<lambda>items.
     rbind (topological_components items) (\<lambda>components.
     rbind (check_references profile components) (\<lambda>_.
       plan_text (compile_rows_v2 stop_grace profile components))))))))"

definition compile_document :: "json \<Rightarrow> string checked" where
  "compile_document document =
     (if (case document of JObj d \<Rightarrow> jget_null d ''schema'' = JStr SCHEMA_V2 | _ \<Rightarrow> False)
      then compile_document_v2 document
      else compile_document_v1 document)"

section \<open>Decoding text fields\<close>

fun unhex_digit :: "char \<Rightarrow> nat" where
  "unhex_digit c = (if code c < 97 then code c - 48 else code c - 87)"

fun unhex :: "string \<Rightarrow> nat list" where
  "unhex (a # b # s) = (16 * unhex_digit a + unhex_digit b) # unhex s"
| "unhex _ = []"

fun utf8_decode :: "nat list \<Rightarrow> string" where
  "utf8_decode [] = []"
| "utf8_decode (a # bs) =
     (if a < 128 then char_of a # utf8_decode bs
      else case bs of [] \<Rightarrow> [] | b # bs' \<Rightarrow> char_of (64 * (a - 192) + (b - 128)) # utf8_decode bs')"

lemma unhex_hex_digit: "n < 16 \<Longrightarrow> unhex_digit (hex_digit n) = n"
  by (auto simp: hex_digit_def)

lemma unhex_bytes: "list_all (\<lambda>b. b < 256) bs \<Longrightarrow> unhex (concat (map hex_byte bs)) = bs"
proof (induction bs)
  case (Cons b bs)
  have "b div 16 < 16" using Cons.prems by auto
  moreover have "b mod 16 < 16" by simp
  ultimately have "16 * unhex_digit (hex_digit (b div 16)) + unhex_digit (hex_digit (b mod 16)) = b"
    by (simp only: unhex_hex_digit) simp
  with Cons show ?case by (simp add: hex_byte_def)
qed simp

lemma code_less_256: "code c < 256"
  by (rule nat_of_char_less_256)

lemma utf8_bytes: "list_all (\<lambda>b. b < 256) (utf8 s)"
proof -
  have "list_all (\<lambda>b. b < 256) (utf8_char c)" for c
  proof -
    have "code c div 64 < 4" using code_less_256 [of c] by (simp add: less_mult_imp_div_less)
    moreover have "code c mod 64 < 64" by simp
    ultimately show ?thesis by (auto simp: utf8_char_def)
  qed
  then show ?thesis by (auto simp: utf8_def list_all_iff)
qed

lemma utf8_decode_char: "utf8_decode (utf8_char c @ bs) = c # utf8_decode bs"
proof (cases "code c < 128")
  case False
  have "64 * (code c div 64) + code c mod 64 = code c" by simp
  with False show ?thesis by (simp add: utf8_char_def)
qed (simp add: utf8_char_def)

lemma utf8_decode_utf8: "utf8_decode (utf8 s) = s"
  by (induction s) (simp_all add: utf8_def utf8_decode_char)

text \<open>
  Every text field of a compiled plan can be read back: decoding the hexadecimal UTF-8 form
  gives the original string.
\<close>

lemma encoded_roundtrip: "utf8_decode (unhex (encoded s)) = s"
  by (simp add: encoded_def unhex_bytes utf8_bytes utf8_decode_utf8)

section \<open>No value introduces a separator\<close>

definition clean :: "string \<Rightarrow> bool" where
  "clean s \<longleftrightarrow> TAB \<notin> set s \<and> NL \<notin> set s"

lemma clean_literals [simp]:
  "clean ''component''" "clean ''arg''" "clean ''after''" "clean ''env''" "clean ''end''"
  "clean ''stop_grace_ms''" "clean ''profile''" "clean ''role''" "clean ''provider''" "clean ''profile-env''"
  "clean ''startup''" "clean ''provide''" "clean ''permission''" "clean ''package''" "clean ''metadata''"
  "clean ''window''" "clean ''MSYS_NATIVE_LITE_PLAN''" "clean ''1''" "clean ''2''" "clean (flag b)"
  by (simp_all add: clean_def TAB_def NL_def flag_def)

lemma clean_digits [simp]: "clean (nat_str n)" "clean (int_str i)"
proof -
  show n: "clean (nat_str n)" for n
    using nat_str_digits [of n] by (auto simp: clean_def list_all_iff TAB_def NL_def ch_digit_def)
  then show "clean (int_str i)" by (auto simp: int_str_def clean_def TAB_def NL_def)
qed

lemma clean_encoded [simp]: "clean (encoded s)"
proof -
  have h: "hex_digit n \<noteq> TAB \<and> hex_digit n \<noteq> NL" if "n < 16" for n
  proof -
    have "code (hex_digit n) \<ge> 48" using that by (simp add: hex_digit_def)
    then show ?thesis by (auto simp: TAB_def NL_def)
  qed
  have "TAB \<notin> set (hex_byte b) \<and> NL \<notin> set (hex_byte b)" if "b < 256" for b
  proof -
    have "b div 16 < 16" using that by (simp add: less_mult_imp_div_less)
    moreover have "b mod 16 < 16" by simp
    ultimately show ?thesis using h [of "b div 16"] h [of "b mod 16"] by (auto simp: hex_byte_def)
  qed
  then show ?thesis using utf8_bytes [of s] by (auto simp: clean_def encoded_def list_all_iff)
qed

lemma clean_id: "fullmatch ID_RE s \<Longrightarrow> clean s"
proof -
  assume "fullmatch ID_RE s"
  then obtain c t where s: "s = c # t" and c: "in_class [AZ, az, d09] c"
    and t: "list_all (in_class [AZ, az, d09, one CHR ''_'', one CHR ''.'', one CHR '':'', one CHR ''-'']) t"
    unfolding fullmatch_iff ID_RE_def cls_upto_match by blast
  have "\<not> in_class [AZ, az, d09, one CHR ''_'', one CHR ''.'', one CHR '':'', one CHR ''-''] x"
    "\<not> in_class [AZ, az, d09] x" if "x = TAB \<or> x = NL" for x
    using that by (auto simp: in_class_def AZ_def az_def d09_def one_def TAB_def NL_def)
  with s c t show ?thesis by (auto simp: clean_def list_all_iff)
qed

section \<open>Bounds of normalised components\<close>

definition env_entry_ok :: "string \<times> string \<Rightarrow> bool" where
  "env_entry_ok = (\<lambda>(k, v). fullmatch ENV_RE k \<and> k \<notin> set RESERVED_ENV \<and> length (utf8 v) \<le> 4096 \<and> CHR 0x00 \<notin> set v)"

definition READINESS_MODES :: "string list" where
  "READINESS_MODES = [''exec'', ''fd'', ''mipc-ready'', ''x11-display'']"

definition plan_component_wf :: "('a plan_component_scheme) \<Rightarrow> bool" where
  "plan_component_wf c \<longleftrightarrow>
     fullmatch ID_RE (pl_id c) \<and> pl_kind c \<in> set KINDS \<and> pl_restart c \<in> set RESTARTS \<and>
     pl_readiness_mode c \<in> set READINESS_MODES \<and>
     1 \<le> pl_readiness_timeout_ms c \<and> pl_readiness_timeout_ms c \<le> 300000 \<and>
     1 \<le> pl_initial_ms c \<and> pl_initial_ms c \<le> 60000 \<and> pl_initial_ms c \<le> pl_max_ms c \<and> pl_max_ms c \<le> 300000 \<and>
     0 \<le> pl_limit c \<and> pl_limit c \<le> 1000 \<and>
     pl_argv c \<noteq> [] \<and> length (pl_argv c) \<le> 64 \<and> startswith (hd (pl_argv c)) ''/'' \<and>
     length (pl_after c) \<le> 32 \<and> distinct (pl_after c) \<and> sorted (pl_after c) \<and> list_all (fullmatch ID_RE) (pl_after c) \<and>
     length (pl_environment c) \<le> 64 \<and> sorted (map fst (pl_environment c)) \<and> list_all env_entry_ok (pl_environment c)"

lemma plan_fail_simps [simp]: "plan_fail m \<noteq> Inr x" "rbind (plan_fail m) k = plan_fail m"
  by (simp_all add: plan_fail_def)

lemma bounded_string_Inr:
  "bounded_string v path n ne = Inr s \<longleftrightarrow>
     v = JStr s \<and> CHR 0x00 \<notin> set s \<and> (ne \<longrightarrow> s \<noteq> []) \<and> length (utf8 s) \<le> n"
  by (auto simp: bounded_string_def split: json.splits)

lemma integer_in_Inr: "integer_in v path a b = Inr i \<longleftrightarrow> v = JInt i \<and> a \<le> i \<and> i \<le> b"
  by (auto simp: integer_in_def split: json.splits)

lemma enum_string_Inr: "enum_string v path xs = Inr s \<longleftrightarrow> v = JStr s \<and> s \<in> set xs"
  by (auto simp: enum_string_def split: json.splits)

lemma array_of_Inr: "array_of v a b m = Inr xs \<longleftrightarrow> v = JList xs \<and> a \<le> length xs \<and> length xs \<le> b"
  by (auto simp: array_of_def split: json.splits)

lemma id_string_Inr: "id_string v path = Inr s \<Longrightarrow> v = JStr s \<and> fullmatch ID_RE s"
  by (auto simp: id_string_def result_simps bounded_string_Inr split: if_splits)

lemmas checked_Inr = bounded_string_Inr integer_in_Inr enum_string_Inr array_of_Inr

lemma argv_field_Inr:
  assumes "argv_field v path = Inr argv"
  shows "argv \<noteq> [] \<and> length argv \<le> 64 \<and> startswith (hd argv) ''/''"
proof -
  from assms obtain xs where "1 \<le> length xs" "length xs \<le> 64" and
    t: "bounded_strings xs (path @ ''.exec'') 4096 False = Inr argv" and "startswith (hd argv) ''/''"
    by (auto simp: argv_field_def result_simps array_of_Inr split: if_splits)
  moreover have "length argv = length xs"
    using traverse_length [OF t [unfolded bounded_strings_def]] by simp
  ultimately show ?thesis by (cases argv) auto
qed

lemma after_v1_Inr: "after_v1 v path = Inr xs \<Longrightarrow> length xs \<le> 32 \<and> distinct xs \<and> list_all (fullmatch ID_RE) xs"
proof -
  assume "after_v1 v path = Inr xs"
  then obtain vs where "length vs \<le> 32" "distinct xs" and
    t: "traverse (\<lambda>(i, x). id_string x (indexed (path @ ''.after'') i)) (enumerate 0 vs) = Inr xs"
    by (auto simp: after_v1_def rbind_Inr_iff array_of_Inr split: if_splits)
  moreover have "list_all (fullmatch ID_RE) xs"
    by (rule traverse_all [OF t]) (auto dest: id_string_Inr)
  ultimately show ?thesis using traverse_length [OF t] by simp
qed

lemma after_v2_Inr: "after_v2 v path = Inr xs \<Longrightarrow> length xs \<le> 32 \<and> distinct xs \<and> list_all (fullmatch ID_RE) xs"
  by (auto simp: after_v2_def result_simps array_of_Inr bounded_strings_def list_ex_iff list_all_iff
      split: if_splits dest!: traverse_length)

lemma readiness_field_Inr:
  "readiness_field v path modes = Inr r \<Longrightarrow> fst r \<in> set modes \<and> 1 \<le> snd r \<and> snd r \<le> 300000"
  by (auto simp: readiness_field_def result_simps checked_Inr)

lemma backoff_field_Inr:
  "backoff_field v path = Inr r \<Longrightarrow> 1 \<le> fst r \<and> fst r \<le> 60000 \<and> fst r \<le> fst (snd r) \<and> fst (snd r) \<le> 300000 \<and>
     0 \<le> snd (snd r) \<and> snd (snd r) \<le> 1000"
  by (auto simp: backoff_field_def result_simps checked_Inr)

lemma env_field_Inr:
  assumes "env_field v path = Inr es"
  shows "length es \<le> 64 \<and> sorted (map fst es) \<and> list_all env_entry_ok es"
proof -
  from assms obtain d where "length d \<le> 64" and
    t: "traverse (\<lambda>key.
           if \<not> fullmatch ENV_RE key \<or> key \<in> set RESERVED_ENV then
             plan_fail (path @ ''.env has invalid or reserved key '' @ repr_string key)
           else rbind (bounded_string (jget_null d key) (path @ ''.env.'' @ key) 4096 False) (\<lambda>x. Inr (key, x)))
           (sort (dict_keys d)) = Inr es"
    by (auto simp: env_field_def not_less split: json.splits if_splits)
  moreover have "list_all env_entry_ok es"
    by (rule traverse_all [OF t]) (auto simp: env_entry_ok_def result_simps bounded_string_Inr split: if_splits)
  moreover have "map fst es = sort (dict_keys d)"
  proof -
    have "list_all2 (\<lambda>k e. fst e = k) (sort (dict_keys d)) es"
      using t unfolding traverse_Inr_iff
      by (rule list_all2_mono) (auto simp: result_simps split: if_splits)
    then show ?thesis by (intro nth_equalityI) (auto simp: list_all2_conv_all_nth)
  qed
  ultimately show ?thesis using traverse_length [OF t] by simp
qed

lemma normalize_component_wf: "normalize_component raw i = Inr c \<Longrightarrow> plan_component_wf c"
  unfolding normalize_component_def Let_def rbind_Inr_iff plan_component_wf_def
  by (elim exE conjE, drule id_string_Inr argv_field_Inr, drule readiness_field_Inr backoff_field_Inr)
    (auto simp: READINESS_MODES_def enum_string_Inr list_all_iff dest: argv_field_Inr after_v1_Inr
      readiness_field_Inr backoff_field_Inr env_field_Inr)

lemma normalize_v2_component_wf: "normalize_v2_component raw i = Inr c \<Longrightarrow> plan_component_wf c"
  unfolding normalize_v2_component_def Let_def rbind_Inr_iff plan_component_wf_def
  by (elim exE conjE)
    (auto simp: READINESS_MODES_def enum_string_Inr list_all_iff dest: id_string_Inr argv_field_Inr after_v2_Inr
      readiness_field_Inr backoff_field_Inr env_field_Inr)

interpretation plan_item: checked_parser "\<lambda>(i, v). normalize_component v i" plan_component_wf
  by unfold_locales (auto simp: normalize_component_wf)

interpretation plan_item_v2: checked_parser "\<lambda>(i, v). normalize_v2_component v i" plan_component_wf
  by unfold_locales (auto simp: normalize_v2_component_wf)

text \<open>
  Every component a plan is compiled from respects the bounds of the schema: identifiers match
  their pattern, timeouts and back-off delays lie in their ranges with the initial delay at most the
  maximal one, the program is an absolute path, dependencies are distinct and sorted, and no
  environment entry overrides a variable reserved for the supervisor.
\<close>

lemma normalized_components_wf:
  "(normalize_component raw i = Inr c \<longrightarrow> plan_component_wf c) \<and>
   (normalize_v2_component raw j = Inr d \<longrightarrow> plan_component_wf d)"
  using normalize_component_wf normalize_v2_component_wf by blast

definition demo_component :: json where
  "demo_component = JObj
     [(''id'', JStr ''display''), (''kind'', JStr ''display''), (''critical'', JBool True),
      (''restart'', JStr ''always''), (''exec'', JList [JStr ''/usr/bin/x'']),
      (''readiness'', JObj [(''mode'', JStr ''fd''), (''timeout_ms'', JInt 5000)]),
      (''env'', JObj [(''LANG'', JStr ''C'')])]"

section \<open>The compiled text\<close>

definition row_clean :: "string list \<Rightarrow> bool" where
  "row_clean row \<longleftrightarrow> row \<noteq> [] \<and> list_all clean row"

definition read_rows :: "string \<Rightarrow> string list list" where
  "read_rows txt = map (py_split TAB) (butlast (py_split NL txt))"

lemma py_join_snoc: "xs \<noteq> [] \<Longrightarrow> py_join [c] xs @ [c] = py_join [c] (xs @ [[]])"
proof (induction xs)
  case (Cons x xs)
  then show ?case by (cases xs) auto
qed simp

lemma tabbed_no_newline: "row_clean row \<Longrightarrow> NL \<notin> set (tabbed row)"
  using set_py_join [of "[TAB]" row]
  by (auto simp: row_clean_def tabbed_def list_all_iff clean_def TAB_def NL_def)

lemma tabbed_split: "row_clean row \<Longrightarrow> py_split TAB (tabbed row) = row"
  unfolding tabbed_def by (rule py_split_join) (auto simp: row_clean_def list_all_iff clean_def)

lemma plan_text_rows:
  assumes "plan_text rows = Inr t" and "rows \<noteq> []" and "list_all row_clean rows"
  shows "read_rows t = rows" and "length (utf8 t) \<le> MAX_BYTES"
proof -
  have t: "t = py_join [NL] (map tabbed rows @ [[]])" and "length (utf8 t) \<le> MAX_BYTES"
    using assms(1,2) py_join_snoc [of "map tabbed rows" NL] by (auto simp: plan_text_def Let_def split: if_splits)
  then show "length (utf8 t) \<le> MAX_BYTES" by simp
  have "py_split NL t = map tabbed rows @ [[]]"
    unfolding t using assms(3) by (intro py_split_join) (auto simp: list_all_iff tabbed_no_newline)
  then show "read_rows t = rows"
    using assms(3) by (simp add: read_rows_def o_def list_all_iff tabbed_split map_idI)
qed

lemma clean_enums [simp]:
  "s \<in> set KINDS \<Longrightarrow> clean s" "s \<in> set RESTARTS \<Longrightarrow> clean s" "s \<in> set READINESS_MODES \<Longrightarrow> clean s"
  "s \<in> set [''background'', ''on-demand'', ''manual''] \<Longrightarrow> clean s"
  "s \<in> set PROVIDE_KINDS \<Longrightarrow> clean s"
  by (auto simp: PROVIDE_KINDS_def KINDS_def RESTARTS_def READINESS_MODES_def clean_def TAB_def NL_def)

lemma row_clean_Cons [simp]: "row_clean (x # xs) \<longleftrightarrow> clean x \<and> list_all clean xs"
  by (simp add: row_clean_def)

lemma component_fields_clean: "plan_component_wf c \<Longrightarrow> list_all clean (component_fields c) \<and> component_fields c \<noteq> []"
  by (simp add: component_fields_def plan_component_wf_def clean_id)

lemma body_fields_clean: "plan_component_wf c \<Longrightarrow> row \<in> set (body_fields c) \<Longrightarrow> row_clean row"
  by (auto simp: body_fields_def plan_component_wf_def clean_id list_all_iff)

lemma rows_v1_clean: "list_all plan_component_wf cs \<Longrightarrow> list_all row_clean (compile_rows_v1 g cs)"
  by (auto simp: compile_rows_v1_def header_fields_def list_all_iff body_fields_clean)
    (auto simp: row_clean_def component_fields_clean)

text \<open>What the second schema adds to a component and to a profile.\<close>

definition plan_v2_clean :: "plan_component_v2 \<Rightarrow> bool" where
  "plan_v2_clean c \<longleftrightarrow> plan_component_wf c \<and> clean (pl_lifecycle c) \<and> list_all (\<lambda>p. clean (fst p)) (pl_provides c)"

definition profile_clean :: "plan_profile \<Rightarrow> bool" where
  "profile_clean p \<longleftrightarrow> list_all (\<lambda>(_, ps). list_all clean ps) (pp_roles p) \<and> list_all clean (pp_startup p)"

lemma provide_v2_clean: "provide_v2 raw path = Inr p \<Longrightarrow> clean (fst p)"
proof -
  assume "provide_v2 raw path = Inr p"
  then obtain d where d: "(case filter (dict_has d) PROVIDE_KINDS of
       [kind] \<Rightarrow>
         rbind (bounded_string (jget_null d kind) (path @ ''.'' @ kind) 128 True) (\<lambda>name.
         if \<not> fullmatch ID_RE name then plan_fail (path @ '' name is invalid'')
         else
         rbind (boolean_at (jget_or d ''exclusive'' (JBool False)) (path @ ''.exclusive'')) (\<lambda>exclusive.
         rbind (integer_in (jget_or d ''priority'' (JInt 0)) (path @ ''.priority'') 0 1000000) (\<lambda>priority.
           Inr (kind, name, exclusive, priority))))
     | _ \<Rightarrow> plan_fail (path @ '' must declare exactly one provide kind'')) = Inr p"
    unfolding provide_v2_def rbind_Inr_iff by (elim exE conjE)
  then obtain kind where k: "filter (dict_has d) PROVIDE_KINDS = [kind]"
    by (auto simp: plan_fail_def split: list.splits)
  with d have "fst p = kind" by (auto simp: plan_fail_def rbind_Inr_iff split: if_splits)
  moreover from k have "kind \<in> set PROVIDE_KINDS" by (metis filter_is_subset list.set_intros(1) subsetD)
  ultimately show ?thesis by (auto intro: clean_enums)
qed

lemma provides_v2_clean:
  "list_all (\<lambda>p. clean (fst p)) acc \<Longrightarrow> provides_v2 raws path acc = Inr ps \<Longrightarrow> list_all (\<lambda>p. clean (fst p)) ps"
proof (induction raws path acc rule: provides_v2.induct)
  case (2 i raw raws path acc)
  then show ?case by (auto simp: result_simps split: if_splits dest: provide_v2_clean)
qed simp

lemma lifecycle_field_clean: "lifecycle_field item path = Inr l \<Longrightarrow> clean (fst l)"
  by (auto simp: lifecycle_field_def result_simps enum_string_Inr split: if_splits intro: clean_enums)

lemma normalize_v2_clean: "normalize_v2_component raw i = Inr c \<Longrightarrow> plan_v2_clean c"
proof -
  assume n: "normalize_v2_component raw i = Inr c"
  then obtain item path lc where "lifecycle_field item path = Inr lc" "pl_lifecycle c = fst lc"
    unfolding normalize_v2_component_def Let_def rbind_Inr_iff by (elim exE conjE) auto
  moreover from n obtain v path where "provides_field v path = Inr (pl_provides c)"
    unfolding normalize_v2_component_def Let_def rbind_Inr_iff by (elim exE conjE) auto
  then obtain raws q where "provides_v2 raws q [] = Inr (pl_provides c)"
    unfolding provides_field_def rbind_Inr_iff by (elim exE conjE)
  then have "list_all (\<lambda>p. clean (fst p)) (pl_provides c)" by (rule provides_v2_clean [rotated]) simp
  ultimately show ?thesis using normalize_v2_component_wf [OF n] lifecycle_field_clean by (simp add: plan_v2_clean_def)
qed

lemma id_list_clean: "id_list xs path m = Inr ids \<Longrightarrow> list_all clean ids"
  by (auto simp: id_list_def result_simps list_ex_iff list_all_iff clean_id split: if_splits)

lemma plan_profile_clean: "plan_profile_of v = Inr p \<Longrightarrow> profile_clean p"
proof -
  assume n: "plan_profile_of v = Inr p"
  then obtain d where "traverse (profile_role d) (sort (dict_keys d)) = Inr (pp_roles p)"
    unfolding plan_profile_of_def rbind_Inr_iff by (elim exE conjE) (auto split: json.splits if_splits)
  then have "list_all (\<lambda>(_, ps). list_all clean ps) (pp_roles p)"
    by (rule traverse_all) (auto simp: profile_role_def Let_def result_simps split: if_splits dest: id_list_clean)
  moreover from n obtain xs path m where "id_list xs path m = Inr (pp_startup p)"
    unfolding plan_profile_of_def rbind_Inr_iff by (elim exE conjE) auto
  ultimately show ?thesis by (simp add: profile_clean_def id_list_clean)
qed

lemma row_clean_component: "plan_component_wf c \<Longrightarrow> list_all clean xs \<Longrightarrow> row_clean (component_fields c @ xs)"
  using component_fields_clean [of c] by (simp add: row_clean_def)

lemma component_rows_v2_clean: "plan_v2_clean c \<Longrightarrow> list_all row_clean (component_rows_v2 c)"
proof -
  assume c: "plan_v2_clean c"
  then have wf: "plan_component_wf c" by (simp add: plan_v2_clean_def)
  have "list_all row_clean (body_fields c)" using body_fields_clean [OF wf] by (simp add: list_all_iff)
  moreover have "list_all row_clean
      (map (\<lambda>(kind, name, exclusive, priority). [''provide'', kind, encoded name, flag exclusive, int_str priority]) (pl_provides c))"
    using c by (force simp: plan_v2_clean_def list_all_iff)
  ultimately show ?thesis
    using c by (simp add: component_rows_v2_def row_clean_component wf plan_v2_clean_def) (simp add: list_all_iff)
qed

lemma profile_rows_clean: "profile_clean p \<Longrightarrow> list_all row_clean (profile_rows p)"
  by (auto simp: profile_rows_def profile_clean_def list_all_iff)

lemma rows_v2_clean:
  "profile_clean p \<Longrightarrow> list_all plan_v2_clean cs \<Longrightarrow> list_all row_clean (compile_rows_v2 g p cs)"
  using profile_rows_clean [of p] component_rows_v2_clean
  by (simp add: compile_rows_v2_def header_fields_def) (auto simp: list_all_iff)

text \<open>What a successful run of each compiler has checked and written.\<close>

interpretation plan_item_clean: checked_parser "\<lambda>(i, v). normalize_v2_component v i" plan_v2_clean
  by unfold_locales (auto simp: normalize_v2_clean)

lemma compile_v1_run:
  assumes "compile_document_v1 doc = Inr t"
  obtains raws items cs g where "traverse (\<lambda>(i, v). normalize_component v i) (enumerate 0 raws) = Inr items"
    "topological_components items = Inr cs" "plan_text (compile_rows_v1 g cs) = Inr t"
  using assms unfolding compile_document_v1_def rbind_Inr_iff
  by (auto simp: rbind_Inr_iff split: if_splits)

lemma compile_v2_run:
  assumes "compile_document_v2 doc = Inr t"
  obtains raws items cs g p v where "traverse (\<lambda>(i, v). normalize_v2_component v i) (enumerate 0 raws) = Inr items"
    "topological_components items = Inr cs" "plan_profile_of v = Inr p" "check_references p cs = Inr ()"
    "plan_text (compile_rows_v2 g p cs) = Inr t"
  using assms unfolding compile_document_v2_def rbind_Inr_iff
  by (elim exE conjE) auto

lemma topological_all: "topological_components items = Inr cs \<Longrightarrow> list_all P items \<Longrightarrow> list_all P cs"
  using topological_subset [of items cs] by (auto simp: list_all_iff)

definition rows_of_plan :: "string \<Rightarrow> string list list \<Rightarrow> bool" where
  "rows_of_plan t rows \<longleftrightarrow> read_rows t = rows \<and> length (utf8 t) \<le> MAX_BYTES"

lemma compile_v1_rows:
  assumes "compile_document_v1 doc = Inr t"
  shows "\<exists>g cs. list_all plan_component_wf cs \<and> rows_of_plan t (compile_rows_v1 g cs)"
proof -
  obtain raws items cs g where "traverse (\<lambda>(i, v). normalize_component v i) (enumerate 0 raws) = Inr items"
    and o: "topological_components items = Inr cs" and t: "plan_text (compile_rows_v1 g cs) = Inr t"
    by (rule compile_v1_run [OF assms])
  then have wf: "list_all plan_component_wf cs" using topological_all plan_item.traverse_wf by blast
  have "compile_rows_v1 g cs \<noteq> []" by (simp add: compile_rows_v1_def)
  from plan_text_rows [OF t this rows_v1_clean [OF wf]] wf show ?thesis unfolding rows_of_plan_def by blast
qed

lemma compile_v2_rows:
  assumes "compile_document_v2 doc = Inr t"
  shows "\<exists>g p cs. list_all plan_v2_clean cs \<and> check_references p cs = Inr () \<and> rows_of_plan t (compile_rows_v2 g p cs)"
proof -
  obtain raws items cs g p v where "traverse (\<lambda>(i, v). normalize_v2_component v i) (enumerate 0 raws) = Inr items"
    and o: "topological_components items = Inr cs" and p: "plan_profile_of v = Inr p"
    and c: "check_references p cs = Inr ()" and t: "plan_text (compile_rows_v2 g p cs) = Inr t"
    by (rule compile_v2_run [OF assms])
  then have wf: "list_all plan_v2_clean cs" using topological_all plan_item_clean.traverse_wf by blast
  have "compile_rows_v2 g p cs \<noteq> []" by (simp add: compile_rows_v2_def)
  from plan_text_rows [OF t this rows_v2_clean [OF plan_profile_clean [OF p] wf]] wf c
  show ?thesis unfolding rows_of_plan_def by blast
qed


definition demo_document :: json where
  "demo_document = JObj [(''schema'', JStr SCHEMA), (''components'', JList [demo_component])]"


end
