(* ===== verification/Py_Text.thy ===== *)
theory Py_Text
  imports Py_Json
begin

text \<open>
  The methods of \<open>str\<close> that the supervisor applies to environment values, locale names and the text of
  procfs files, and the multi-line field patterns it searches in them.  Case conversion follows
  Python on Latin-1; the two letters whose upper case lies outside that range keep their form
  (both forms are non-ASCII, which is all the source distinguishes).
\<close>

section \<open>Character classes of whole strings\<close>

definition py_isalpha :: "string \<Rightarrow> bool" where
  "py_isalpha s \<longleftrightarrow> s \<noteq> [] \<and> list_all ch_isalpha s"

definition py_isalnum :: "string \<Rightarrow> bool" where
  "py_isalnum s \<longleftrightarrow> s \<noteq> [] \<and> list_all ch_isalnum s"

definition ch_isdigit :: "char \<Rightarrow> bool" where
  "ch_isdigit c \<longleftrightarrow> ch_digit c \<or> code c \<in> {178, 179, 185}"

definition py_isdigit :: "string \<Rightarrow> bool" where
  "py_isdigit s \<longleftrightarrow> s \<noteq> [] \<and> list_all ch_isdigit s"

definition py_isascii :: "string \<Rightarrow> bool" where
  "py_isascii s \<longleftrightarrow> list_all ch_isascii s"

section \<open>Case conversion\<close>

definition ch_lower_case :: "char \<Rightarrow> char" where
  "ch_lower_case c =
     (if ch_upper c \<or> (192 \<le> code c \<and> code c \<le> 222 \<and> code c \<noteq> 215) then char_of (code c + 32) else c)"

definition ch_upper_case :: "char \<Rightarrow> string" where
  "ch_upper_case c =
     (if ch_lower c \<or> (224 \<le> code c \<and> code c \<le> 254 \<and> code c \<noteq> 247) then [char_of (code c - 32)]
      else if code c = 223 then ''SS'' else [c])"

definition py_lower :: "string \<Rightarrow> string" where
  "py_lower s = map ch_lower_case s"

definition py_upper :: "string \<Rightarrow> string" where
  "py_upper s = concat (map ch_upper_case s)"

text \<open>\<open>s.title()\<close>: a letter that follows no letter is upper case (the sharp s becomes \<open>Ss\<close>), any other lower case.\<close>

fun title_from :: "bool \<Rightarrow> string \<Rightarrow> string" where
  "title_from inside [] = []"
| "title_from inside (c # s) =
     (if \<not> ch_isalpha c then c # title_from False s
      else if inside then ch_lower_case c # title_from True s
      else (if code c = 223 then ''Ss'' else ch_upper_case c) @ title_from True s)"

definition py_title :: "string \<Rightarrow> string" where
  "py_title s = title_from False s"

section \<open>Splitting\<close>

text \<open>\<open>s.split()\<close>: the maximal runs of characters that are not white space.\<close>

function split_ws :: "string \<Rightarrow> string list" where
  "split_ws s =
     (case dropWhile ch_isspace s of
        [] \<Rightarrow> []
      | c # r \<Rightarrow> takeWhile (\<lambda>x. \<not> ch_isspace x) (c # r) # split_ws (dropWhile (\<lambda>x. \<not> ch_isspace x) (c # r)))"
  by pat_completeness auto
termination
proof (relation "measure length")
  fix s c r
  assume s: "dropWhile ch_isspace s = c # r"
  then have "\<not> ch_isspace c" using hd_dropWhile [of ch_isspace s] by simp
  then have "length (dropWhile (\<lambda>x. \<not> ch_isspace x) (c # r)) \<le> length r"
    by (simp add: length_dropWhile_le)
  moreover have "length (c # r) \<le> length s" by (metis length_dropWhile_le s)
  ultimately show "(dropWhile (\<lambda>x. \<not> ch_isspace x) (c # r), s) \<in> measure length" by simp
qed simp

declare split_ws.simps [simp del]

text \<open>\<open>s.splitlines()\<close>, with every line boundary Python knows below code point 256.\<close>

definition ch_newline :: "char \<Rightarrow> bool" where
  "ch_newline c \<longleftrightarrow> code c \<in> {10, 11, 12, 13, 28, 29, 30, 133}"

fun splitlines_from :: "string \<Rightarrow> string \<Rightarrow> string list" where
  "splitlines_from line [] = (if line = [] then [] else [rev line])"
| "splitlines_from line (c # s) =
     (if ch_newline c then
        rev line # (case s of
            d # s' \<Rightarrow> if code c = 13 \<and> code d = 10 then splitlines_from [] s' else splitlines_from [] s
          | [] \<Rightarrow> splitlines_from [] s)
      else splitlines_from (c # line) s)"

definition splitlines :: "string \<Rightarrow> string list" where
  "splitlines s = splitlines_from [] s"

text \<open>\<open>s[s.rindex(c) + 1:]\<close>, \<open>s[:s.rindex(c)]\<close> and \<open>s[s.index(c) + 1:]\<close>; \<open>None\<close> is the \<open>ValueError\<close>.\<close>

definition after_last :: "char \<Rightarrow> string \<Rightarrow> string option" where
  "after_last c s = (if c \<in> set s then Some (rev (takeWhile (\<lambda>x. x \<noteq> c) (rev s))) else None)"

definition before_last :: "char \<Rightarrow> string \<Rightarrow> string option" where
  "before_last c s = map_option rev (snd (split_once c (rev s)))"

text \<open>\<open>s.rpartition(c)[0]\<close>.\<close>

definition rpartition_head :: "char \<Rightarrow> string \<Rightarrow> string" where
  "rpartition_head c s = (case before_last c s of None \<Rightarrow> [] | Some r \<Rightarrow> r)"

lemma before_last_Some: "before_last c s = Some a \<longleftrightarrow> (\<exists>b. s = a @ c # b \<and> c \<notin> set b)"
proof -
  have "before_last c s = Some a \<longleftrightarrow> (\<exists>b. split_once c (rev s) = (b, Some (rev a)))"
    by (cases "split_once c (rev s)") (auto simp: before_last_def)
  also have "\<dots> \<longleftrightarrow> (\<exists>b. rev s = b @ c # rev a \<and> c \<notin> set b)"
    by (simp only: split_once_Some)
  also have "\<dots> \<longleftrightarrow> (\<exists>b. s = a @ c # b \<and> c \<notin> set b)"
  proof
    assume "\<exists>b. rev s = b @ c # rev a \<and> c \<notin> set b"
    then obtain b where "rev s = b @ c # rev a" "c \<notin> set b" by blast
    then have "s = a @ c # rev b \<and> c \<notin> set (rev b)" by (simp add: rev_swap)
    then show "\<exists>b. s = a @ c # b \<and> c \<notin> set b" by blast
  qed (auto intro: exI [of _ "rev _"])
  finally show ?thesis .
qed

lemma rpartition_head_shorter: "s \<noteq> [] \<Longrightarrow> length (rpartition_head c s) < length s"
proof (cases "before_last c s")
  case (Some a)
  then obtain b where "s = a @ c # b" unfolding before_last_Some by blast
  with Some show ?thesis by (simp add: rpartition_head_def)
qed (simp add: rpartition_head_def)

section \<open>Field patterns\<close>

text \<open>
  \<open>re.search(r"(?m)^NAME:\s+([0-9]+)\s+kB\s*$", text)\<close>.  The classes of neighbouring items are
  disjoint, so the only backtracking is in the final \<open>\s*$\<close>, which matches when the run of white
  space reaches a line end.
\<close>

definition skip_space1 :: "string \<Rightarrow> string option" where
  "skip_space1 s = (case s of c # r \<Rightarrow> if ch_isspace c then Some (dropWhile ch_isspace r) else None | [] \<Rightarrow> None)"

definition take_digits :: "string \<Rightarrow> (nat \<times> string) option" where
  "take_digits s = (case digits_value False 0 (takeWhile ch_digit s) of
       None \<Rightarrow> None | Some n \<Rightarrow> Some (n, dropWhile ch_digit s))"

definition space_line_end :: "string \<Rightarrow> bool" where
  "space_line_end s \<longleftrightarrow> CHR 10 \<in> set (takeWhile ch_isspace s) \<or> dropWhile ch_isspace s = []"

definition kb_field_at :: "string \<Rightarrow> string \<Rightarrow> int option" where
  "kb_field_at name s =
     (if \<not> startswith s (name @ '':'') then None
      else Option.bind (skip_space1 (drop (length name + 1) s)) (\<lambda>r.
           Option.bind (take_digits r) (\<lambda>(n, r').
           Option.bind (skip_space1 r') (\<lambda>r''.
             if startswith r'' ''kB'' \<and> space_line_end (drop 2 r'') then Some (int n) else None))))"

text \<open>\<open>re.search(r"(?m)^NAME:\s+([0-9]+)(?:\s|$)", text)\<close>.\<close>

definition num_field_at :: "string \<Rightarrow> string \<Rightarrow> int option" where
  "num_field_at name s =
     (if \<not> startswith s (name @ '':'') then None
      else Option.bind (skip_space1 (drop (length name + 1) s)) (\<lambda>r.
           Option.bind (take_digits r) (\<lambda>(n, r').
             if r' = [] \<or> ch_isspace (hd r') then Some (int n) else None)))"

text \<open>The search: the first line start at which the pattern matches.\<close>

fun search_lines :: "(string \<Rightarrow> 'a option) \<Rightarrow> bool \<Rightarrow> string \<Rightarrow> 'a option" where
  "search_lines pat start s =
     (case (if start then pat s else None) of
        Some x \<Rightarrow> Some x
      | None \<Rightarrow> (case s of [] \<Rightarrow> None | c # r \<Rightarrow> search_lines pat (code c = 10) r))"

declare search_lines.simps [simp del]

definition kb_field :: "string \<Rightarrow> string \<Rightarrow> int option" where
  "kb_field name s = search_lines (kb_field_at name) True s"

definition num_field :: "string \<Rightarrow> string \<Rightarrow> int option" where
  "num_field name s = search_lines (num_field_at name) True s"

lemma search_lines_Some: "search_lines pat start s = Some x \<Longrightarrow> \<exists>r. pat r = Some x"
  by (induction pat start s rule: search_lines.induct)
    (subst (asm) (2) search_lines.simps, auto split: option.split_asm if_split_asm list.split_asm)

lemma kb_field_nonneg: "kb_field name s = Some n \<Longrightarrow> 0 \<le> n"
  unfolding kb_field_def
  by (drule search_lines_Some) (auto simp: kb_field_at_def bind_eq_Some_conv split: if_splits)

end
