(* ===== verification/Process_Table.thy ===== *)
theory Process_Table
  imports Py_Text
begin

text \<open>
  The procfs readers of the supervisor (the module functions of \<open>msys_core/msysd.py\<close>): process groups,
  memory of a component, and the bounded snapshot of the other processes of the system.  Procfs is a
  parameter: the names of the directory and the text of the files, each of which may fail to be read.

  The snapshot keeps only \<open>limit\<close> records in a heap while it scans.  The lemmas show that it returns
  what sorting all eligible processes and cutting the list would return.
\<close>

section \<open>Procfs\<close>

text \<open>\<open>None\<close> is an \<open>OSError\<close>.  A file is named by its directory and its own name.\<close>

record procfs =
  pf_entries :: "string list option"
  pf_read :: "string \<Rightarrow> string \<Rightarrow> string option"

definition MAX_SYSTEM_PROCESS_LIMIT :: int where "MAX_SYSTEM_PROCESS_LIMIT = 128"
definition MAX_PROCESS_NAME_LENGTH :: nat where "MAX_PROCESS_NAME_LENGTH = 64"

text \<open>\<open>int(name)\<close> of a directory name, which may raise although the name consists of digits (superscripts).\<close>

definition entry_pid :: "string \<Rightarrow> (py_error, int) result" where
  "entry_pid name = (case parse_int name of
       Some pid \<Rightarrow> Inr pid | None \<Rightarrow> Inl (ValueError ''invalid literal for int()''))"

definition int_field :: "string list \<Rightarrow> nat \<Rightarrow> int option" where
  "int_field columns i = (if i < length columns then parse_int (columns ! i) else None)"

definition entry_group :: "procfs \<Rightarrow> string \<Rightarrow> int option" where
  "entry_group fs name =
     Option.bind (pf_read fs name ''stat'') (\<lambda>txt.
     Option.bind (after_last CHR '')'' txt) (\<lambda>rest. int_field (split_ws rest) 2))"

definition process_group_members :: "procfs \<Rightarrow> int \<Rightarrow> (py_error, int list) result" where
  "process_group_members fs leader_pid =
     (if leader_pid \<le> 0 then Inr []
      else case pf_entries fs of
        None \<Rightarrow> Inr []
      | Some entries \<Rightarrow>
          rbind (traverse entry_pid
                   (filter (\<lambda>name. py_isdigit name \<and> entry_group fs name = Some leader_pid) entries))
            (\<lambda>members. Inr (sort (dedup members))))"

section \<open>Memory of a component\<close>

definition memory_values :: "procfs \<Rightarrow> int \<Rightarrow> int option \<times> int option" where
  "memory_values fs pid = (case pf_read fs (int_str pid) ''smaps_rollup'' of
       None \<Rightarrow> (None, None)
     | Some txt \<Rightarrow> (kb_field ''Rss'' txt, kb_field ''Pss'' txt))"

definition status_rss :: "procfs \<Rightarrow> int \<Rightarrow> int option" where
  "status_rss fs pid = Option.bind (pf_read fs (int_str pid) ''status'') (kb_field ''VmRSS'')"

definition member_rss :: "procfs \<Rightarrow> int \<Rightarrow> int option" where
  "member_rss fs pid = (case fst (memory_values fs pid) of
       Some rss \<Rightarrow> Some rss | None \<Rightarrow> status_rss fs pid)"

definition member_pss :: "procfs \<Rightarrow> int \<Rightarrow> int option" where
  "member_pss fs pid = snd (memory_values fs pid)"

record memory_snapshot =
  ms_leader_pid :: int
  ms_member_count :: nat
  ms_available :: bool
  ms_rss_kib :: "int option"
  ms_pss_available :: bool
  ms_pss_kib :: "int option"
  ms_reason :: "string option"

definition process_memory_snapshot :: "procfs \<Rightarrow> int \<Rightarrow> (py_error, memory_snapshot) result" where
  "process_memory_snapshot fs leader_pid =
     rbind (process_group_members fs leader_pid) (\<lambda>members.
       let rss_values = List.map_filter (member_rss fs) members;
           pss_values = List.map_filter (member_pss fs) members;
           rss_complete = members \<noteq> [] \<and> length rss_values = length members;
           pss_complete = rss_complete \<and> length pss_values = length members
       in Inr \<lparr>ms_leader_pid = leader_pid, ms_member_count = length members,
               ms_available = rss_complete,
               ms_rss_kib = (if rss_complete then Some (sum_list rss_values) else None),
               ms_pss_available = pss_complete,
               ms_pss_kib = (if pss_complete then Some (sum_list pss_values) else None),
               ms_reason = (if pss_complete then None
                            else if rss_complete then Some ''pss-unavailable''
                            else Some ''memory-unavailable'')\<rparr>)"

section \<open>Process records\<close>

definition bounded_process_name :: "string \<Rightarrow> string \<Rightarrow> string" where
  "bounded_process_name s fallback =
     (let txt = py_strip (map (\<lambda>c. if ch_isprintable c \<and> code c \<notin> {13, 10, 0} then c else CHR ''?'') s)
      in take MAX_PROCESS_NAME_LENGTH (if txt = [] then fallback else txt))"

definition LINUX_PROCESS_STATES :: "(string, string) dict" where
  "LINUX_PROCESS_STATES =
     [(''R'', ''running''), (''S'', ''sleeping''), (''D'', ''disk-sleep''), (''Z'', ''zombie''),
      (''T'', ''stopped''), (''t'', ''tracing-stop''), (''X'', ''dead''), (''x'', ''dead''),
      (''I'', ''idle''), (''P'', ''parked'')]"

record proc_record =
  pr_pid :: int
  pr_ppid :: int
  pr_process_group :: int
  pr_session :: int
  pr_uid :: "int option"
  pr_name :: string
  pr_state :: string
  pr_rss_kib :: "int option"

text \<open>\<open>txt[txt.index("(") + 1 : txt.rindex(")")]\<close>; a slice whose end precedes its start is empty.\<close>

definition stat_name :: "string \<Rightarrow> string option" where
  "stat_name txt =
     (if CHR ''('' \<notin> set txt then None
      else map_option (\<lambda>before. let opening = length (takeWhile (\<lambda>x. x \<noteq> CHR ''('') txt)
                                in take (length before - (opening + 1)) (drop (opening + 1) txt))
             (before_last CHR '')'' txt))"

definition proc_process_record :: "procfs \<Rightarrow> int \<Rightarrow> proc_record option" where
  "proc_process_record fs pid =
     (if pid \<le> 0 then None
      else
        Option.bind (pf_read fs (int_str pid) ''stat'') (\<lambda>stat_text.
        Option.bind (stat_name stat_text) (\<lambda>raw_name.
        Option.bind (after_last CHR '')'' stat_text) (\<lambda>rest.
          let columns = split_ws rest;
              status_text = (case pf_read fs (int_str pid) ''status'' of None \<Rightarrow> [] | Some t \<Rightarrow> t)
          in if length columns < 4 then None
             else
             Option.bind (int_field columns 1) (\<lambda>ppid.
             Option.bind (int_field columns 2) (\<lambda>process_group.
             Option.bind (int_field columns 3) (\<lambda>session.
               Some \<lparr>pr_pid = pid, pr_ppid = ppid, pr_process_group = process_group, pr_session = session,
                     pr_uid = num_field ''Uid'' status_text,
                     pr_name = bounded_process_name raw_name (int_str pid),
                     pr_state = dict_get_or LINUX_PROCESS_STATES (columns ! 0) ''unknown'',
                     pr_rss_kib = kb_field ''VmRSS'' status_text\<rparr>)))))))"

record public_record =
  pu_pid :: int
  pu_ppid :: "int option"
  pu_uid :: "int option"
  pu_name :: string
  pu_state :: string
  pu_rss_kib :: "int option"
  pu_source :: string
  pu_msys_owned :: bool
  pu_component :: "string option"
  pu_component_state :: "string option"
  pu_runtime :: "string option"
  pu_lifecycle :: "string option"
  pu_generation :: "int option"

definition public_process_record :: "proc_record \<Rightarrow> string \<Rightarrow> bool \<Rightarrow> public_record" where
  "public_process_record r source msys_owned =
     \<lparr>pu_pid = pr_pid r, pu_ppid = Some (pr_ppid r), pu_uid = pr_uid r, pu_name = pr_name r, pu_state = pr_state r,
      pu_rss_kib = pr_rss_kib r, pu_source = source, pu_msys_owned = msys_owned, pu_component = None,
      pu_component_state = None, pu_runtime = None, pu_lifecycle = None, pu_generation = None\<rparr>"

section \<open>The system snapshot\<close>

definition eligible :: "int list \<Rightarrow> int \<Rightarrow> proc_record \<Rightarrow> bool" where
  "eligible managed supervisor_pid r \<longleftrightarrow>
     \<not> (pr_pid r = supervisor_pid \<or> pr_pid r \<in> set managed \<or> pr_process_group r \<in> set managed \<or>
        pr_session r \<in> set managed) \<and>
     \<not> (pr_rss_kib r = None \<and> (pr_pid r = 2 \<or> pr_ppid r = 2))"

text \<open>
  The heap holds the records in ascending order of their items; \<open>heapq\<close> promises that the first is the
  smallest, that a push adds an item and that \<open>heapreplace\<close> exchanges the smallest for the new one.
  Items differ in their last component, the process id.
\<close>

definition heap_item :: "proc_record \<Rightarrow> int \<times> int \<times> int" where
  "heap_item r =
     ((case pr_rss_kib r of Some _ \<Rightarrow> 1 | None \<Rightarrow> 0), (case pr_rss_kib r of Some n \<Rightarrow> n | None \<Rightarrow> 0), - pr_pid r)"

definition heap_offer :: "nat \<Rightarrow> proc_record \<Rightarrow> proc_record list \<Rightarrow> proc_record list" where
  "heap_offer limit r heap =
     (if length heap < limit then insort_key heap_item r heap
      else if heap_item r > heap_item (hd heap) then insort_key heap_item r (tl heap)
      else heap)"

fun scan_entries ::
  "procfs \<Rightarrow> int list \<Rightarrow> int \<Rightarrow> nat \<Rightarrow> string list \<Rightarrow> proc_record list \<times> nat \<Rightarrow>
     (py_error, proc_record list \<times> nat) result" where
  "scan_entries fs managed supervisor_pid limit [] st = Inr st"
| "scan_entries fs managed supervisor_pid limit (name # names) (heap, count) =
     (if \<not> py_isdigit name then scan_entries fs managed supervisor_pid limit names (heap, count)
      else
        rbind (entry_pid name) (\<lambda>pid.
          case proc_process_record fs pid of
            None \<Rightarrow> scan_entries fs managed supervisor_pid limit names (heap, count)
          | Some r \<Rightarrow>
              if \<not> eligible managed supervisor_pid r then scan_entries fs managed supervisor_pid limit names (heap, count)
              else scan_entries fs managed supervisor_pid limit names (heap_offer limit r heap, count + 1)))"

definition snapshot_key :: "proc_record \<Rightarrow> bool \<times> int \<times> int" where
  "snapshot_key r = (pr_rss_kib r = None, - (case pr_rss_kib r of Some n \<Rightarrow> n | None \<Rightarrow> 0), pr_pid r)"

definition system_process_snapshot ::
  "procfs \<Rightarrow> int list \<Rightarrow> int \<Rightarrow> int \<Rightarrow> (py_error, public_record list \<times> bool) result" where
  "system_process_snapshot fs managed limit supervisor_pid =
     (if \<not> (1 \<le> limit \<and> limit \<le> MAX_SYSTEM_PROCESS_LIMIT)
      then Inl (ValueError ''system process limit is out of range'')
      else case pf_entries fs of
        None \<Rightarrow> Inr ([], False)
      | Some entries \<Rightarrow>
          rbind (scan_entries fs managed supervisor_pid (nat limit) entries ([], 0)) (\<lambda>(heap, count).
            Inr (map (\<lambda>r. public_process_record r ''procfs'' False) (sort_key snapshot_key heap),
                 int count > limit)))"

section \<open>The heap keeps the largest items\<close>

definition keep_last :: "nat \<Rightarrow> 'a list \<Rightarrow> 'a list" where
  "keep_last k xs = drop (length xs - k) xs"

lemma insort_key_append_right:
  "\<forall>y \<in> set ys. f y < f x \<Longrightarrow> insort_key f x (ys @ zs) = ys @ insort_key f x zs"
  by (induction ys) auto

lemma insort_key_append_left:
  "zs \<noteq> [] \<Longrightarrow> f x \<le> f (hd zs) \<Longrightarrow> insort_key f x (ys @ zs) = insort_key f x ys @ zs"
proof (induction ys)
  case Nil
  then show ?case by (cases zs) auto
qed auto

lemma heap_offer_keep_last:
  assumes "0 < k" and s: "sorted (map heap_item xs)"
  shows "heap_offer k r (keep_last k xs) = keep_last k (insort_key heap_item r xs)"
proof (cases "length xs < k")
  case True
  then show ?thesis by (simp add: heap_offer_def keep_last_def)
next
  case False
  let ?m = "length xs - k"
  let ?L = "take ?m xs" and ?D = "drop ?m xs"
  have D: "length ?D = k" "?D \<noteq> []" using False assms(1) by auto
  have xs: "xs = ?L @ ?D" by simp
  have len: "length (insort_key heap_item r xs) - k = Suc ?m" using False by simp
  show ?thesis
  proof (cases "heap_item r > heap_item (hd ?D)")
    case True
    have sLD: "sorted (map heap_item ?L @ map heap_item ?D)" using s by (simp flip: map_append)
    have "hd ?D \<in> set ?D" using D(2) by (rule hd_in_set)
    with sLD have "heap_item y \<le> heap_item (hd ?D)" if "y \<in> set ?L" for y
      using that unfolding sorted_append by auto
    then have "\<forall>y \<in> set ?L. heap_item y < heap_item r" using True by (blast intro: le_less_trans)
    then have i: "insort_key heap_item r xs = ?L @ insort_key heap_item r ?D"
      using insort_key_append_right [of ?L heap_item r ?D] xs by simp
    obtain d ds where d: "?D = d # ds" using D(2) by (meson neq_Nil_conv)
    with True have "\<not> heap_item r \<le> heap_item d" by (simp only: list.sel not_le)
    with d have "insort_key heap_item r ?D = hd ?D # insort_key heap_item r (tl ?D)" by simp
    then have "drop (Suc ?m) (insort_key heap_item r xs) = insort_key heap_item r (tl ?D)"
      unfolding i by simp
    then show ?thesis using True D unfolding heap_offer_def keep_last_def len by simp
  next
    case le: False
    then have "insort_key heap_item r xs = insort_key heap_item r ?L @ ?D"
      using insort_key_append_left [OF D(2), of heap_item r ?L] xs by simp
    then have "drop (Suc ?m) (insort_key heap_item r xs) = ?D" by simp
    then show ?thesis using le D unfolding heap_offer_def keep_last_def len by simp
  qed
qed

lemma heap_fold:
  "0 < k \<Longrightarrow> fold (heap_offer k) rs (keep_last k xs) = keep_last k (fold (insort_key heap_item) rs xs)"
  if "sorted (map heap_item xs)"
  using that
proof (induction rs arbitrary: xs)
  case (Cons r rs)
  then show ?case by (simp add: heap_offer_keep_last sorted_insort_key)
qed simp

section \<open>The order of the answer\<close>

lemma snapshot_key_reverse: "snapshot_key a < snapshot_key b \<longleftrightarrow> heap_item b < heap_item a"
  by (auto simp: snapshot_key_def heap_item_def less_prod_def split: option.splits)

lemma heap_item_inj: "inj_on pr_pid A \<Longrightarrow> inj_on heap_item A"
  by (auto simp: inj_on_def heap_item_def)

lemma snapshot_key_inj: "inj_on pr_pid A \<Longrightarrow> inj_on snapshot_key A"
  by (auto simp: inj_on_def snapshot_key_def)

lemma sorted_distinct_by_key:
  assumes "sorted (map f xs)" "sorted (map f ys)" "distinct xs" "distinct ys" "set xs = set ys" "inj_on f (set xs)"
  shows "xs = ys"
proof -
  have "map f xs = map f ys"
    using assms by (intro sorted_distinct_set_unique) (simp_all add: distinct_map)
  then show ?thesis using assms(5,6) by (metis map_inj_on Un_absorb)
qed

lemma fold_insort_sort:
  assumes "distinct rs" and "inj_on heap_item (set rs)"
  shows "fold (insort_key heap_item) rs [] = sort_key heap_item rs"
proof (rule sorted_distinct_by_key [where f = heap_item])
  have "sorted (map heap_item (fold (insort_key heap_item) rs xs)) \<and>
      distinct (fold (insort_key heap_item) rs xs) \<and> set (fold (insort_key heap_item) rs xs) = set rs \<union> set xs"
    if "sorted (map heap_item xs)" "distinct xs" "set rs \<inter> set xs = {}" "distinct rs" for xs
    using that
  proof (induction rs arbitrary: xs)
    case (Cons r rs)
    then have "sorted (map heap_item (insort_key heap_item r xs))" "distinct (insort_key heap_item r xs)"
      by (auto simp: sorted_insort_key distinct_insort)
    with Cons.IH [of "insort_key heap_item r xs"] Cons.prems show ?case by (auto simp: set_insort_key)
  qed simp
  from this [of "[]"] assms show "sorted (map heap_item (fold (insort_key heap_item) rs []))"
    "distinct (fold (insort_key heap_item) rs [])"
    "set (fold (insort_key heap_item) rs []) = set (sort_key heap_item rs)"
    "inj_on heap_item (set (fold (insort_key heap_item) rs []))"
    by simp_all
qed (use assms in simp_all)

lemma sorted_wrt_keys_rev:
  assumes "sorted (map heap_item xs)"
  shows "sorted (map snapshot_key (rev xs))"
proof -
  have "sorted_wrt (\<lambda>a b. snapshot_key b \<le> snapshot_key a) xs"
    using assms unfolding sorted_map
    by (rule sorted_wrt_mono_rel [rotated]) (use snapshot_key_reverse in \<open>auto simp: not_less [symmetric]\<close>)
  then show ?thesis by (simp add: sorted_map sorted_wrt_rev)
qed

lemma snapshot_cut:
  assumes "distinct rs" and "inj_on pr_pid (set rs)"
  shows "sort_key snapshot_key (keep_last k (sort_key heap_item rs)) = take k (sort_key snapshot_key rs)"
proof -
  let ?S = "sort_key heap_item rs"
  have inj: "inj_on snapshot_key (set rs)" using assms(2) by (rule snapshot_key_inj)
  have "sort_key snapshot_key rs = rev ?S"
    by (rule sorted_distinct_by_key [where f = snapshot_key])
      (use assms(1) inj sorted_wrt_keys_rev [OF sorted_sort_key] in \<open>simp_all\<close>)
  then have "take k (sort_key snapshot_key rs) = rev (keep_last k ?S)" by (simp add: keep_last_def take_rev)
  moreover have "sort_key snapshot_key (keep_last k ?S) = rev (keep_last k ?S)"
  proof (rule sorted_distinct_by_key [where f = snapshot_key])
    have "sorted (map heap_item (keep_last k ?S))"
      unfolding keep_last_def drop_map [symmetric] by (rule sorted_wrt_drop) (rule sorted_sort_key)
    then show "sorted (map snapshot_key (rev (keep_last k ?S)))" by (rule sorted_wrt_keys_rev)
    show "distinct (sort_key snapshot_key (keep_last k ?S))" "distinct (rev (keep_last k ?S))"
      using assms(1) by (simp_all add: keep_last_def)
    have "set (keep_last k ?S) \<subseteq> set rs" unfolding keep_last_def by (metis set_drop_subset set_sort)
    then show "inj_on snapshot_key (set (sort_key snapshot_key (keep_last k ?S)))"
      using inj by (simp add: inj_on_subset)
  qed simp_all
  ultimately show ?thesis by simp
qed

section \<open>What the scan returns\<close>

text \<open>The eligible processes, in directory order.\<close>

definition eligible_processes :: "procfs \<Rightarrow> int list \<Rightarrow> int \<Rightarrow> string list \<Rightarrow> proc_record list" where
  "eligible_processes fs managed supervisor_pid names =
     filter (eligible managed supervisor_pid)
       (List.map_filter (proc_process_record fs) (List.map_filter parse_int (filter py_isdigit names)))"

lemma eligible_processes_Cons:
  "eligible_processes fs managed sp (name # names) =
     (case (if py_isdigit name then Option.bind (parse_int name) (proc_process_record fs) else None) of
        Some r \<Rightarrow> (if eligible managed sp r then [r] else []) | None \<Rightarrow> []) @ eligible_processes fs managed sp names"
  by (auto simp: eligible_processes_def map_filter_simps split: option.splits)

lemma scan_entries_spec:
  "scan_entries fs managed sp k names (heap, n) = Inr (heap', n') \<Longrightarrow>
     heap' = fold (heap_offer k) (eligible_processes fs managed sp names) heap \<and>
     n' = n + length (eligible_processes fs managed sp names)"
proof (induction names arbitrary: heap n)
  case Nil
  then show ?case by (simp add: eligible_processes_def map_filter_simps)
next
  case (Cons name names)
  show ?case
  proof (cases "py_isdigit name")
    case False
    with Cons show ?thesis by (simp add: eligible_processes_Cons)
  next
    case True
    with Cons.prems obtain pid where pid: "parse_int name = Some pid"
      by (auto simp: rbind_Inr_iff entry_pid_def split: option.splits)
    have "scan_entries fs managed sp k names
       (case proc_process_record fs pid of
          Some r \<Rightarrow> if eligible managed sp r then (heap_offer k r heap, n + 1) else (heap, n)
        | None \<Rightarrow> (heap, n)) = Inr (heap', n')"
      using Cons.prems True pid by (cases "proc_process_record fs pid") (auto simp: entry_pid_def split: if_splits)
    with True pid show ?thesis
      by (cases "proc_process_record fs pid") (auto simp: eligible_processes_Cons dest!: Cons.IH split: if_splits)
  qed
qed

lemma record_pid: "proc_process_record fs pid = Some r \<Longrightarrow> pr_pid r = pid"
  by (auto simp: proc_process_record_def bind_eq_Some_conv Let_def split: if_splits)

lemma eligible_pid_member:
  "r \<in> set (eligible_processes fs managed sp names) \<Longrightarrow>
     Some (pr_pid r) \<in> parse_int ` set (filter py_isdigit names)"
proof (induction names)
  case (Cons name names)
  then show ?case
    by (auto simp: eligible_processes_Cons bind_eq_Some_conv eq_commute [of "Some _" "Option.bind _ _"] split: option.split_asm if_split_asm
        dest!: record_pid)
qed (simp add: eligible_processes_def map_filter_simps)

lemma eligible_pids_distinct:
  assumes "distinct (map parse_int (filter py_isdigit names))"
  shows "distinct (map pr_pid (eligible_processes fs managed sp names))"
  using assms
proof (induction names)
  case Nil
  then show ?case by (simp add: eligible_processes_def map_filter_simps)
next
  case (Cons name names)
  show ?case
  proof (cases "py_isdigit name")
    case True
    have "pr_pid r \<notin> pr_pid ` set (eligible_processes fs managed sp names)"
      if "Option.bind (parse_int name) (proc_process_record fs) = Some r" for r
    proof
      assume "pr_pid r \<in> pr_pid ` set (eligible_processes fs managed sp names)"
      then have "Some (pr_pid r) \<in> parse_int ` set (filter py_isdigit names)" using eligible_pid_member by fastforce
      moreover have "parse_int name = Some (pr_pid r)" using that by (auto simp: bind_eq_Some_conv dest: record_pid)
      ultimately show False using Cons.prems True by auto
    qed
    with Cons True show ?thesis by (auto simp: eligible_processes_Cons split: option.split)
  qed (use Cons in \<open>simp add: eligible_processes_Cons\<close>)
qed


definition demo_procfs :: procfs where
  "demo_procfs =
     \<lparr>pf_entries = Some [''12'', ''cpuinfo'', ''7'', ''3''],
      pf_read = (\<lambda>dir file.
        if file = ''stat'' then Some (dir @ '' (proc) S 1 '' @ dir @ '' '' @ dir @ '' 0'')
        else if dir = ''12'' then Some (''VmRSS:'' @ [CHR 9] @ '' 300 kB'')
        else if dir = ''7'' then Some (''Name: x'' @ [CHR 10] @ ''VmRSS: 900 kB'' @ [CHR 10])
        else None)\<rparr>"


section \<open>Memory of a process group\<close>

text \<open>
  A total is reported exactly when every member of a non-empty group could be read, and then it is the
  sum over all members; a proportional total is reported only together with a resident one.
\<close>

lemma map_filter_length_le: "length (List.map_filter f xs) \<le> length xs"
  by (simp add: map_filter_def)

lemma map_filter_complete:
  "length (List.map_filter f xs) = length xs \<longleftrightarrow> (\<forall>x \<in> set xs. f x \<noteq> None)"
proof (induction xs)
  case (Cons x xs)
  then show ?case using map_filter_length_le [of f xs] by (cases "f x") (auto simp: map_filter_simps)
qed (simp add: map_filter_simps)

lemma map_filter_the: "\<forall>x \<in> set xs. f x \<noteq> None \<Longrightarrow> List.map_filter f xs = map (the \<circ> f) xs"
  by (simp add: map_filter_def filter_id_conv)

lemma memory_snapshot_total:
  assumes "process_group_members fs leader = Inr ms"
  shows "\<exists>m. process_memory_snapshot fs leader = Inr m \<and>
    ms_rss_kib m = (if ms \<noteq> [] \<and> (\<forall>p \<in> set ms. member_rss fs p \<noteq> None)
       then Some (\<Sum>p\<leftarrow>ms. the (member_rss fs p)) else None) \<and>
    (ms_pss_available m \<longrightarrow> ms_available m \<and> ms_pss_kib m = Some (\<Sum>p\<leftarrow>ms. the (member_pss fs p)))"
  using assms by (auto simp: process_memory_snapshot_def Let_def map_filter_complete map_filter_the o_def)

lemma process_group_sorted:
  "process_group_members fs leader = Inr ms \<Longrightarrow> sorted ms \<and> distinct ms"
  by (auto simp: process_group_members_def rbind_Inr_iff split: if_splits option.splits)

lemma bounded_name_length: "length (bounded_process_name s f) \<le> 64"
  by (simp add: bounded_process_name_def Let_def MAX_PROCESS_NAME_LENGTH_def)

end
