(* ===== verification/Locale_Names.thy ===== *)
theory Locale_Names
  imports Py_Text Py_Regex
begin

text \<open>
  Locale names: the normaliser of the presentation catalogs (\<open>_normalized_locale\<close> of
  \<open>msys_core/presentation_i18n.py\<close>) and the one of the supervisor's environment
  (\<open>_normalize_msys_locale\<close> and \<open>_supervisor_locale_environment\<close> of \<open>msys_core/msysd.py\<close>).  Both end
  in the same grammar of canonical names.

  The lemmas describe the grammar by the parts of a name and show which names a normaliser leaves
  alone, so that the catalogs, whose keys must be fixed points, are looked up under canonical names.
\<close>

section \<open>The grammar\<close>

definition dash :: char where "dash = CHR ''-''"

definition LANG_rx :: rx where "LANG_rx = rx_between 2 8 (RCls [az])"
definition SCRIPT_rx :: rx where "SCRIPT_rx = RSeq (RCls [AZ]) (rx_exactly 3 (RCls [az]))"
definition REGION_rx :: rx where "REGION_rx = RAlt (rx_exactly 2 (RCls [AZ])) (rx_exactly 3 (RCls [d09]))"
definition VARIANT_rx :: rx where
  "VARIANT_rx = RAlt (rx_between 5 8 (RCls [az, d09])) (RSeq (RCls [d09]) (rx_exactly 3 (RCls [az, d09])))"

definition CANONICAL_LOCALE :: rx where
  "CANONICAL_LOCALE =
     RSeq LANG_rx
      (RSeq (rx_opt (RSeq (rx_char dash) SCRIPT_rx))
        (RSeq (rx_opt (RSeq (rx_char dash) REGION_rx))
          (RStar (RSeq (rx_char dash) VARIANT_rx))))"

section \<open>Normalisation in the catalogs\<close>

definition replace_char :: "char \<Rightarrow> char \<Rightarrow> string \<Rightarrow> string" where
  "replace_char a b s = map (\<lambda>c. if c = a then b else c) s"

definition is_script_part :: "string \<Rightarrow> bool" where
  "is_script_part p \<longleftrightarrow> length p = 4 \<and> py_isalpha p"

definition is_region_part :: "string \<Rightarrow> bool" where
  "is_region_part p \<longleftrightarrow> (length p = 2 \<and> py_isalpha p) \<or> (length p = 3 \<and> py_isdigit p)"

definition is_variant_part :: "string \<Rightarrow> bool" where
  "is_variant_part p \<longleftrightarrow> py_isascii p \<and> py_isalnum p \<and>
     ((5 \<le> length p \<and> length p \<le> 8) \<or> (length p = 4 \<and> py_isdigit (take 1 p)))"

definition normalized_locale :: "json \<Rightarrow> string option" where
  "normalized_locale v = (case v of
       JStr s \<Rightarrow>
         (let raw = py_strip s;
              without_encoding = fst (split_once CHR ''.'' (fst (split_once CHR ''@'' raw)))
          in if raw = [] then None
          else if py_upper without_encoding \<in> {''C'', ''POSIX''} then None
          else
            (let parts = py_split dash (replace_char CHR ''_'' dash without_encoding);
                 language = hd parts;
                 script = (case tl parts of p # _ \<Rightarrow> if is_script_part p then [py_title p] else [] | [] \<Rightarrow> []);
                 rest = drop (length script) (tl parts);
                 region = (case rest of p # _ \<Rightarrow> if is_region_part p then [py_upper p] else [] | [] \<Rightarrow> []);
                 variants = drop (length region) rest;
                 normalized = py_join [dash] (py_lower language # script @ region @ map py_lower variants)
             in if \<not> (2 \<le> length language \<and> length language \<le> 8) \<or> \<not> py_isalpha language then None
                else if \<not> list_all is_variant_part variants then None
                else if \<not> fullmatch CANONICAL_LOCALE normalized then None
                else Some normalized))
     | _ \<Rightarrow> None)"

section \<open>Normalisation in the supervisor\<close>

text \<open>One part after the language, with its index; \<open>None\<close> rejects the name.\<close>

definition canonical_part :: "nat \<Rightarrow> string \<Rightarrow> string option" where
  "canonical_part index part =
     (if part = [] \<or> \<not> py_isalnum part then None
      else if index = 1 \<and> length part = 4 \<and> py_isalpha part then Some (py_title part)
      else if length part = 2 \<and> py_isalpha part then Some (py_upper part)
      else if length part = 3 \<and> py_isdigit part then Some part
      else Some (py_lower part))"

fun canonical_parts :: "nat \<Rightarrow> string list \<Rightarrow> string list option" where
  "canonical_parts index [] = Some []"
| "canonical_parts index (p # ps) =
     Option.bind (canonical_part index p) (\<lambda>c. map_option (Cons c) (canonical_parts (Suc index) ps))"

definition normalize_msys_locale :: "string \<Rightarrow> string option" where
  "normalize_msys_locale s =
     (let raw = py_strip s in
      if raw = [] \<or> py_upper raw \<in> {''C'', ''POSIX'', ''C.UTF-8'', ''C.UTF8''} then None
      else
        (let tag = replace_char CHR ''_'' dash (fst (split_once CHR ''.'' (fst (split_once CHR ''@'' raw))));
             parts = py_split dash tag
         in if \<not> py_isalpha (hd parts) \<or> \<not> (2 \<le> length (hd parts) \<and> length (hd parts) \<le> 8) then None
            else Option.bind (canonical_parts 1 (tl parts)) (\<lambda>cs.
              let normalized = py_join [dash] (py_lower (hd parts) # cs)
              in if fullmatch CANONICAL_LOCALE normalized then Some normalized else None)))"

definition is_i18n_environment_name :: "string \<Rightarrow> bool" where
  "is_i18n_environment_name name \<longleftrightarrow> name = ''MSYS_LOCALE'' \<or> name = ''LANG'' \<or> startswith name ''LC_''"

definition I18N_LOCALE_PRECEDENCE :: "string list" where
  "I18N_LOCALE_PRECEDENCE = [''MSYS_LOCALE'', ''LC_ALL'', ''LC_MESSAGES'', ''LANG'']"

text \<open>The loop over the names by precedence: it stops at the first name that is set.\<close>

fun derive_locale :: "string list \<Rightarrow> (string, string) dict \<Rightarrow> (string, string) dict" where
  "derive_locale [] env = env"
| "derive_locale (name # names) env =
     (case map_of env name of
        None \<Rightarrow> derive_locale names env
      | Some raw \<Rightarrow>
          if py_strip raw = [] then derive_locale names env
          else (case normalize_msys_locale raw of
                  Some normalized \<Rightarrow> AList.update ''MSYS_LOCALE'' normalized env
                | None \<Rightarrow> env))"

definition supervisor_locale_environment :: "(string, string) dict \<Rightarrow> (string, string) dict" where
  "supervisor_locale_environment environment =
     derive_locale I18N_LOCALE_PRECEDENCE (filter (\<lambda>(name, _). is_i18n_environment_name name) environment)"

section \<open>Names and their parts\<close>

lemma join_cons: "py_join [c] (l # ps) = l @ concat (map (Cons c) ps)"
  by (induction ps arbitrary: l) auto

lemmas join_dashes = join_cons [of dash]

lemma dash_seq_match: "rx_match (RSeq (rx_char c) q) s \<longleftrightarrow> (\<exists>t. s = c # t \<and> rx_match q t)"
  by (simp add: rx_char_def cls_seq_match in_class_one)

lemma opt_match: "rx_match (rx_opt r) s \<longleftrightarrow> s = [] \<or> rx_match r s"
  by (auto simp: rx_opt_def)

lemma star_dashes:
  "rx_match (RStar (RSeq (rx_char c) r)) s \<longleftrightarrow>
     (\<exists>vs. s = concat (map (Cons c) vs) \<and> list_all (rx_match r) vs)"
proof
  show "\<exists>vs. s = concat (map (Cons c) vs) \<and> list_all (rx_match r) vs"
    if "rx_match (RStar (RSeq (rx_char c) r)) s"
    using that
  proof (induction "RStar (RSeq (rx_char c) r)" s rule: rx_match.induct)
    case m_star0
    show ?case by (rule exI [of _ "[]"]) simp
  next
    case (m_star1 s t)
    then obtain v vs where "s = c # v" "rx_match r v" "t = concat (map (Cons c) vs)" "list_all (rx_match r) vs"
      unfolding dash_seq_match by blast
    then show ?case by (intro exI [of _ "v # vs"]) simp
  qed
next
  assume "\<exists>vs. s = concat (map (Cons c) vs) \<and> list_all (rx_match r) vs"
  then obtain vs where vs: "list_all (rx_match r) vs" and s: "s = concat (map (Cons c) vs)" by blast
  from vs show "rx_match (RStar (RSeq (rx_char c) r)) s" unfolding s
  proof (induction vs)
    case (Cons v vs)
    then have "rx_match (RSeq (rx_char c) r) (c # v)" unfolding dash_seq_match by simp
    from m_star1 [OF this] Cons show ?case by simp
  qed (simp add: m_star0)
qed

definition at_most_one :: "('a \<Rightarrow> bool) \<Rightarrow> 'a list \<Rightarrow> bool" where
  "at_most_one P xs \<longleftrightarrow> xs = [] \<or> (\<exists>x. xs = [x] \<and> P x)"

lemma opt_part_match:
  "rx_match (rx_opt (RSeq (rx_char dash) r)) s \<longleftrightarrow>
     (\<exists>ps. s = concat (map (Cons dash) ps) \<and> at_most_one (rx_match r) ps)"
proof
  assume "rx_match (rx_opt (RSeq (rx_char dash) r)) s"
  then consider "s = []" | t where "s = dash # t" "rx_match r t" unfolding opt_match dash_seq_match by blast
  then show "\<exists>ps. s = concat (map (Cons dash) ps) \<and> at_most_one (rx_match r) ps"
  proof cases
    case 1
    then show ?thesis by (intro exI [of _ "[]"]) (simp add: at_most_one_def)
  next
    case (2 t)
    then show ?thesis by (intro exI [of _ "[t]"]) (simp add: at_most_one_def)
  qed
qed (auto simp: at_most_one_def opt_match dash_seq_match)

lemma canonical_match:
  "rx_match CANONICAL_LOCALE t \<longleftrightarrow>
     (\<exists>l sc rg vs. t = py_join [dash] (l # sc @ rg @ vs) \<and> rx_match LANG_rx l \<and>
        at_most_one (rx_match SCRIPT_rx) sc \<and> at_most_one (rx_match REGION_rx) rg \<and> list_all (rx_match VARIANT_rx) vs)"
  unfolding CANONICAL_LOCALE_def rx_seq_iff opt_part_match star_dashes join_dashes
  by (auto simp: append_eq_append_conv2) blast+

section \<open>Parts of the grammar\<close>

lemma between_cls_match:
  "rx_match (rx_between m n (RCls cs)) s \<longleftrightarrow> m \<le> length s \<and> length s \<le> max m n \<and> list_all (in_class cs) s"
proof
  assume "rx_match (rx_between m n (RCls cs)) s"
  then show "m \<le> length s \<and> length s \<le> max m n \<and> list_all (in_class cs) s"
    by (auto simp: rx_between_def rx_seq_iff exactly_cls_match upto_cls_match)
next
  assume a: "m \<le> length s \<and> length s \<le> max m n \<and> list_all (in_class cs) s"
  have "rx_match (rx_exactly m (RCls cs)) (take m s)" "rx_match (rx_upto (n - m) (RCls cs)) (drop m s)"
    using a by (auto simp: exactly_cls_match upto_cls_match list_all_iff dest: in_set_takeD in_set_dropD)
  from m_seq [OF this] show "rx_match (rx_between m n (RCls cs)) s" by (simp add: rx_between_def)
qed

lemma class_chars:
  "in_class [az] = ch_lower" "in_class [AZ] = ch_upper" "in_class [d09] = ch_digit"
  "in_class [az, d09] = (\<lambda>c. ch_lower c \<or> ch_digit c)"
  by (auto simp: fun_eq_iff in_class_def az_def AZ_def d09_def ch_lower_def ch_upper_def ch_digit_def)

lemma in_class_Cons: "in_class (x # y # xs) c \<longleftrightarrow> in_class [x] c \<or> in_class (y # xs) c"
  by (simp add: in_class_def)

lemma lang_match: "rx_match LANG_rx s \<longleftrightarrow> 2 \<le> length s \<and> length s \<le> 8 \<and> list_all ch_lower s"
  by (simp add: LANG_rx_def between_cls_match class_chars)

lemma script_match: "rx_match SCRIPT_rx s \<longleftrightarrow> (\<exists>c t. s = c # t \<and> length t = 3 \<and> ch_upper c \<and> list_all ch_lower t)"
  by (auto simp: SCRIPT_rx_def cls_seq_match exactly_cls_match class_chars)

lemma region_match:
  "rx_match REGION_rx s \<longleftrightarrow> (length s = 2 \<and> list_all ch_upper s) \<or> (length s = 3 \<and> list_all ch_digit s)"
  by (simp add: REGION_rx_def exactly_cls_match class_chars)

lemma variant_match:
  "rx_match VARIANT_rx s \<longleftrightarrow>
     (5 \<le> length s \<and> length s \<le> 8 \<and> list_all (\<lambda>c. ch_lower c \<or> ch_digit c) s) \<or>
     (\<exists>c t. s = c # t \<and> length t = 3 \<and> ch_digit c \<and> list_all (\<lambda>c. ch_lower c \<or> ch_digit c) t)"
  by (auto simp: VARIANT_rx_def between_cls_match cls_seq_match exactly_cls_match class_chars)

lemmas part_match = lang_match script_match region_match variant_match

lemma canonical_chars:
  assumes "rx_match CANONICAL_LOCALE t" and "c \<in> set t"
  shows "ch_lower c \<or> ch_upper c \<or> ch_digit c \<or> c = dash"
proof -
  have "list_all (in_class (rx_classes CANONICAL_LOCALE)) t" using assms(1) by (rule rx_match_classes)
  then have "in_class (rx_classes CANONICAL_LOCALE) c" using assms(2) by (simp add: list_all_iff)
  moreover have "rx_classes (rx_exactly n (RCls cs)) = concat (replicate n cs)" "rx_classes (rx_upto n (RCls cs)) = concat (replicate n cs)" for n cs
    by (induction n) auto
  ultimately show ?thesis
    by (auto simp: CANONICAL_LOCALE_def LANG_rx_def SCRIPT_rx_def REGION_rx_def VARIANT_rx_def rx_opt_def rx_char_def
        rx_between_def in_class_append in_class_Cons numeral_eq_Suc class_chars in_class_one)
qed

section \<open>Conversions that leave a part alone\<close>

lemma lower_id: "list_all (\<lambda>c. ch_lower c \<or> ch_digit c) s \<Longrightarrow> py_lower s = s"
  by (induction s) (auto simp: py_lower_def ch_lower_case_def ch_lower_def ch_upper_def ch_digit_def)

lemma upper_id: "list_all (\<lambda>c. ch_upper c \<or> ch_digit c) s \<Longrightarrow> py_upper s = s"
  by (induction s) (auto simp: py_upper_def ch_upper_case_def ch_lower_def ch_upper_def ch_digit_def)

lemma title_from_lower: "list_all ch_lower s \<Longrightarrow> title_from True s = s"
  by (induction s) (auto simp: ch_lower_case_def ch_lower_def ch_upper_def ch_isalpha_def)

lemma title_id: "rx_match SCRIPT_rx s \<Longrightarrow> py_title s = s"
  by (auto simp: script_match py_title_def title_from_lower ch_upper_case_def ch_isalpha_def ch_lower_def ch_upper_def)

lemma alpha_of: "ch_lower c \<Longrightarrow> ch_isalpha c" "ch_upper c \<Longrightarrow> ch_isalpha c"
  by (simp_all add: ch_isalpha_def)

lemma digit_not_alpha: "ch_digit c \<Longrightarrow> \<not> ch_isalpha c"
  by (auto simp: ch_isalpha_def ch_digit_def ch_lower_def ch_upper_def)

lemma script_is_part: "rx_match SCRIPT_rx s \<Longrightarrow> is_script_part s"
  by (auto simp: script_match is_script_part_def py_isalpha_def list_all_iff alpha_of)

lemma region_is_part: "rx_match REGION_rx s \<Longrightarrow> is_region_part s \<and> py_upper s = s \<and> \<not> is_script_part s"
  by (auto simp: region_match is_region_part_def is_script_part_def py_isalpha_def py_isdigit_def list_all_iff alpha_of
      ch_isdigit_def intro!: upper_id)

lemma variant_is_part:
  "rx_match VARIANT_rx s \<Longrightarrow> is_variant_part s \<and> py_lower s = s \<and> \<not> is_script_part s \<and> \<not> is_region_part s"
proof -
  assume v: "rx_match VARIANT_rx s"
  then have cs: "list_all (\<lambda>c. ch_lower c \<or> ch_digit c) s" by (auto simp: variant_match)
  then have "py_isascii s" "list_all ch_isalnum s"
    by (auto simp: py_isascii_def list_all_iff ch_isascii_def ch_lower_def ch_digit_def ch_isalnum_def ch_isalpha_def)
  moreover have "s \<noteq> []" using v by (auto simp: variant_match)
  ultimately show ?thesis using v lower_id [OF cs]
    by (auto simp: variant_match is_variant_part_def py_isalnum_def is_script_part_def is_region_part_def
        py_isalpha_def py_isdigit_def ch_isdigit_def digit_not_alpha)
qed

section \<open>The fixed points of normalisation\<close>

lemma split_once_absent: "c \<notin> set s \<Longrightarrow> split_once c s = (s, None)"
proof -
  assume "c \<notin> set s"
  then have a: "takeWhile (\<lambda>x. x \<noteq> c) s = s" and b: "dropWhile (\<lambda>x. x \<noteq> c) s = []"
    by (auto simp: takeWhile_eq_all_conv)
  show ?thesis unfolding split_once_def a b by simp
qed

lemma replace_absent: "a \<notin> set s \<Longrightarrow> replace_char a b s = s"
  unfolding replace_char_def by (rule map_idI) auto

lemma canonical_plain:
  assumes "rx_match CANONICAL_LOCALE t"
  shows "py_strip t = t" and "fst (split_once CHR ''.'' (fst (split_once CHR ''@'' t))) = t"
    and "replace_char CHR ''_'' dash t = t"
proof -
  have "\<not> ch_isspace c \<and> c \<noteq> CHR ''.'' \<and> c \<noteq> CHR ''@'' \<and> c \<noteq> CHR ''_''" if "c \<in> set t" for c
    using canonical_chars [OF assms that]
    by (auto simp: ch_isspace_def ch_lower_def ch_upper_def ch_digit_def dash_def)
  then have "\<forall>c \<in> set t. \<not> ch_isspace c" "CHR ''.'' \<notin> set t" "CHR ''@'' \<notin> set t" "CHR ''_'' \<notin> set t" by blast+
  then show "py_strip t = t" "fst (split_once CHR ''.'' (fst (split_once CHR ''@'' t))) = t"
    "replace_char CHR ''_'' dash t = t"
    by (simp_all add: py_strip_no_space split_once_absent replace_absent)
qed

lemma part_no_dash:
  "rx_match LANG_rx s \<Longrightarrow> dash \<notin> set s" "rx_match SCRIPT_rx s \<Longrightarrow> dash \<notin> set s"
  "rx_match REGION_rx s \<Longrightarrow> dash \<notin> set s" "rx_match VARIANT_rx s \<Longrightarrow> dash \<notin> set s"
  by (auto simp: part_match list_all_iff dash_def ch_lower_def ch_upper_def ch_digit_def) fastforce+

lemma canonical_split:
  assumes "rx_match LANG_rx l" "at_most_one (rx_match SCRIPT_rx) sc" "at_most_one (rx_match REGION_rx) rg"
    and "list_all (rx_match VARIANT_rx) vs"
  shows "py_split dash (py_join [dash] (l # sc @ rg @ vs)) = l # sc @ rg @ vs"
  by (rule py_split_join) (use assms part_no_dash in \<open>auto simp: at_most_one_def list_all_iff\<close>)

lemma canonical_fixed:
  assumes t: "rx_match CANONICAL_LOCALE t" and c: "py_upper t \<notin> {''C'', ''POSIX''}"
  shows "normalized_locale (JStr t) = Some t"
proof -
  obtain l sc rg vs where e: "t = py_join [dash] (l # sc @ rg @ vs)" and l: "rx_match LANG_rx l"
    and sc: "at_most_one (rx_match SCRIPT_rx) sc" and rg: "at_most_one (rx_match REGION_rx) rg"
    and vs: "list_all (rx_match VARIANT_rx) vs"
    using t unfolding canonical_match by blast
  have parts: "py_split dash t = l # sc @ rg @ vs" unfolding e by (rule canonical_split [OF l sc rg vs])
  have lang: "2 \<le> length l" "length l \<le> 8" "py_isalpha l" "py_lower l = l"
    using l lower_id [of l] by (auto simp: lang_match py_isalpha_def list_all_iff alpha_of)
  have ne: "t \<noteq> []" using e lang(1) by (cases l) (simp_all add: join_dashes)
  have v: "\<forall>v \<in> set vs. is_variant_part v \<and> py_lower v = v \<and> \<not> is_script_part v \<and> \<not> is_region_part v"
    using vs variant_is_part by (auto simp: list_all_iff)
  have s': "(case sc @ rg @ vs of p # _ \<Rightarrow> if is_script_part p then [py_title p] else [] | [] \<Rightarrow> []) = sc"
    using sc rg v by (auto simp: at_most_one_def script_is_part title_id dest: region_is_part split: list.split)
  have r': "(case rg @ vs of p # _ \<Rightarrow> if is_region_part p then [py_upper p] else [] | [] \<Rightarrow> []) = rg"
    using rg v by (auto simp: at_most_one_def dest: region_is_part split: list.split)
  have vv: "list_all is_variant_part vs" "map py_lower vs = vs" using v by (auto simp: list_all_iff intro: map_idI)
  show ?thesis
    using c ne lang vv t
    by (simp add: normalized_locale_def canonical_plain [OF t] parts Let_def s' r' fullmatch_iff e [symmetric])
qed

lemma normalized_canonical: "normalized_locale v = Some t \<Longrightarrow> rx_match CANONICAL_LOCALE t"
  by (auto simp: normalized_locale_def Let_def fullmatch_iff split: json.splits if_splits)

text \<open>
  A locale name is left alone by the catalogs' normaliser exactly when it is canonical and is not a
  spelling of the C or POSIX locale.
\<close>

lemma normalized_locale_fixpoints:
  "normalized_locale (JStr t) = Some t \<longleftrightarrow> fullmatch CANONICAL_LOCALE t \<and> py_upper t \<notin> {''C'', ''POSIX''}"
proof
  assume n: "normalized_locale (JStr t) = Some t"
  have t: "rx_match CANONICAL_LOCALE t" by (rule normalized_canonical [OF n])
  with n show "fullmatch CANONICAL_LOCALE t \<and> py_upper t \<notin> {''C'', ''POSIX''}"
    by (auto simp: fullmatch_iff normalized_locale_def canonical_plain [OF t] Let_def split: if_splits)
next
  assume "fullmatch CANONICAL_LOCALE t \<and> py_upper t \<notin> {''C'', ''POSIX''}"
  then show "normalized_locale (JStr t) = Some t" by (auto simp: fullmatch_iff intro: canonical_fixed)
qed

end
