(* ===== verification/Presentation_I18n.thy ===== *)
theory Presentation_I18n
  imports Locale_Names Manifest
begin

text \<open>
  Presentation catalogs (\<open>msys_core/presentation_i18n.py\<close>): strict loading of a message catalog, the
  lookup of a message along the parents of a locale, and the bounded cache in front of the files.
  The file system is a parameter: the resolution of a path and what reading a file gives.

  The lemmas show that loading yields well-formed catalogs, that a lookup answers with the closest
  parent of the requested locale, that only files inside the package are read, and that the cache
  never answers anything the files would not.
\<close>

section \<open>Catalogs\<close>

datatype catalog_error = PresentationCatalogError string

definition CATALOG_SCHEMA :: string where "CATALOG_SCHEMA = ''msys.i18n.catalog.v1''"
definition MAX_CATALOG_BYTES :: int where "MAX_CATALOG_BYTES = 2097152"

definition strict_object :: "jobj \<Rightarrow> (catalog_error, jobj) result" where
  "strict_object = unique_fields (\<lambda>key. PresentationCatalogError (''duplicate JSON member '' @ repr_string key)) []"

definition reject_constant :: "string \<Rightarrow> (catalog_error, json) result" where
  "reject_constant c = Inl (PresentationCatalogError (''non-JSON number '' @ c))"

interpretation catalog_json: strict_hooks strict_object reject_constant
  by unfold_locales (auto simp: strict_object_def unique_fields_dict reject_constant_def)

text \<open>
  What the operating system and the decoder answer for a path: an error with its text (a missing
  file, an undecodable one), something that is not a regular file, or a file with the size its
  metadata reports, the number of bytes read, and their content as a tree.
\<close>

datatype file_outcome =
    FileError string
  | NotRegular
  | FileBytes int int "string + json"

record presentation_catalog =
  cat_default_locale :: string
  cat_messages :: "(string, (string, string) dict) dict"

definition read_catalog :: "file_outcome \<Rightarrow> (catalog_error, json) result" where
  "read_catalog file = (case file of
       FileError e \<Rightarrow> Inl (PresentationCatalogError e)
     | NotRegular \<Rightarrow> Inl (PresentationCatalogError ''catalog is not a regular file'')
     | FileBytes st_size read_size content \<Rightarrow>
         if st_size > MAX_CATALOG_BYTES \<or> read_size > MAX_CATALOG_BYTES
         then Inl (PresentationCatalogError ''catalog exceeds the 2 MiB limit'')
         else (case content of
                 Inl e \<Rightarrow> Inl (PresentationCatalogError e)
               | Inr tree \<Rightarrow> decode_with strict_object reject_constant tree))"

definition is_canonical :: "string \<Rightarrow> bool" where
  "is_canonical l \<longleftrightarrow> normalized_locale (JStr l) = Some l"

definition load_message :: "string \<times> json \<Rightarrow> (catalog_error, string \<times> string) result" where
  "load_message = (\<lambda>(key, v). case v of
       JStr s \<Rightarrow>
         if key = [] \<or> length key > 160 \<or> length s > 16384 \<or> CHR 0x00 \<in> set s
         then Inl (PresentationCatalogError ''invalid presentation message'') else Inr (key, s)
     | _ \<Rightarrow> Inl (PresentationCatalogError ''invalid presentation message''))"

definition load_locale :: "string \<times> json \<Rightarrow> (catalog_error, string \<times> (string, string) dict) result" where
  "load_locale = (\<lambda>(l, v). case v of
       JObj values \<Rightarrow>
         if \<not> is_canonical l \<or> length values > 20000
         then Inl (PresentationCatalogError ''invalid locale message map'')
         else rbind (traverse load_message values) (\<lambda>ms. Inr (l, dict_update [] ms))
     | _ \<Rightarrow> Inl (PresentationCatalogError ''invalid locale message map''))"

definition load_catalog :: "file_outcome \<Rightarrow> (catalog_error, presentation_catalog) result" where
  "load_catalog file =
     rbind (read_catalog file) (\<lambda>document. case document of
         JObj d \<Rightarrow>
           if jget_null d ''schema'' \<noteq> JStr CATALOG_SCHEMA
           then Inl (PresentationCatalogError ''unsupported catalog schema'')
           else (case (jget_null d ''default_locale'', jget_null d ''messages'') of
               (JStr l, JObj ms) \<Rightarrow>
                 if \<not> is_canonical l \<or> ms = [] \<or> length ms > 128 \<or> \<not> dict_has ms l
                 then Inl (PresentationCatalogError ''invalid locale catalog metadata'')
                 else rbind (traverse load_locale ms) (\<lambda>copied.
                   Inr \<lparr>cat_default_locale = l, cat_messages = dict_update [] copied\<rparr>)
             | _ \<Rightarrow> Inl (PresentationCatalogError ''invalid locale catalog metadata''))
       | _ \<Rightarrow> Inl (PresentationCatalogError ''catalog root must be an object''))"

section \<open>Lookup\<close>

text \<open>The loop of \<open>_locale_chain\<close>: each round drops the last part of the name.\<close>

function chain_from :: "string \<Rightarrow> string list \<Rightarrow> string list" where
  "chain_from current acc =
     (if current = [] then acc
      else chain_from (rpartition_head dash current) (if current \<in> set acc then acc else acc @ [current]))"
  by pat_completeness auto
termination
  by (relation "measure (\<lambda>(current, _). length current)") (auto intro: rpartition_head_shorter)

declare chain_from.simps [simp del]

definition locale_start :: "string option \<Rightarrow> string \<Rightarrow> string" where
  "locale_start requested default_locale =
     (case Option.bind requested (\<lambda>r. normalized_locale (JStr r)) of
        None \<Rightarrow> default_locale
      | Some n \<Rightarrow> if n = [] then default_locale else n)"

definition locale_chain :: "string option \<Rightarrow> string \<Rightarrow> string list" where
  "locale_chain requested default_locale =
     (let result = chain_from (locale_start requested default_locale) []
      in if default_locale \<in> set result then result else result @ [default_locale])"

definition catalog_message :: "presentation_catalog \<Rightarrow> string \<Rightarrow> string \<Rightarrow> string option" where
  "catalog_message cat l key =
     (case dict_get_or (dict_get_or (cat_messages cat) l []) key [] of [] \<Rightarrow> None | v \<Rightarrow> Some v)"

definition catalog_text :: "presentation_catalog \<Rightarrow> string \<Rightarrow> string option \<Rightarrow> string option" where
  "catalog_text cat key requested =
     Option.bind (find (\<lambda>l. catalog_message cat l key \<noteq> None) (locale_chain requested (cat_default_locale cat)))
       (\<lambda>l. catalog_message cat l key)"

section \<open>The cache\<close>

definition PACKAGE_RELATIVE_PATH :: rx where
  "PACKAGE_RELATIVE_PATH =
     (let seg = RSeq (RCls [AZ, az, d09]) (RStar (RCls [AZ, az, d09, one CHR ''.'', one CHR ''_'', one CHR ''-'']))
      in RSeq seg (RStar (RSeq (rx_char CHR ''/'') seg)))"

text \<open>The file system: strict resolution of a path (with symbolic links), and reading.\<close>

record catalog_fs =
  fs_resolve :: "path \<Rightarrow> path option"
  fs_file :: "path \<Rightarrow> file_outcome"

record catalog_cache =
  cc_limit :: nat
  cc_entries :: "(path \<times> string, presentation_catalog option) dict"

definition PresentationCatalogCache :: "int \<Rightarrow> catalog_cache" where
  "PresentationCatalogCache limit = \<lparr>cc_limit = nat (max 1 limit), cc_entries = []\<rparr>"

definition valid_relative :: "json \<Rightarrow> string option" where
  "valid_relative v = (case v of
       JStr r \<Rightarrow> if r = [] \<or> length r > 1024 \<or> CHR 0x00 \<in> set r \<or> \<not> fullmatch PACKAGE_RELATIVE_PATH r
                then None else Some r
     | _ \<Rightarrow> None)"

text \<open>
  The file a request may read: the resolved path, when it stays inside the resolved directory of the
  manifest (\<open>resolved.relative_to(package_root)\<close> raises otherwise).
\<close>

definition catalog_file :: "catalog_fs \<Rightarrow> path \<Rightarrow> string \<Rightarrow> path option" where
  "catalog_file fs manifest_path relative =
     Option.bind (fs_resolve fs (butlast manifest_path)) (\<lambda>package_root.
     Option.bind (fs_resolve fs (package_root @ py_split CHR ''/'' relative)) (\<lambda>resolved.
       if prefix package_root resolved then Some resolved else None))"

definition load_from :: "catalog_fs \<Rightarrow> path \<Rightarrow> string \<Rightarrow> presentation_catalog option" where
  "load_from fs manifest_path relative =
     Option.bind (catalog_file fs manifest_path relative) (\<lambda>p.
       case load_catalog (fs_file fs p) of Inr c \<Rightarrow> Some c | Inl _ \<Rightarrow> None)"

text \<open>\<open>while len(entries) > limit: entries.popitem(last=False)\<close>.\<close>

function evict :: "nat \<Rightarrow> ('k, 'v) dict \<Rightarrow> ('k, 'v) dict" where
  "evict limit entries = (if length entries > limit then evict limit (tl entries) else entries)"
  by pat_completeness auto
termination
  by (relation "measure (\<lambda>(_, entries). length entries)") auto

declare evict.simps [simp del]

definition cache_get ::
  "catalog_fs \<Rightarrow> catalog_cache \<Rightarrow> path \<Rightarrow> json \<Rightarrow> catalog_cache \<times> presentation_catalog option" where
  "cache_get fs cache manifest_path relative_path =
     (case valid_relative relative_path of
        None \<Rightarrow> (cache, None)
      | Some relative \<Rightarrow>
          (let key = (manifest_path, relative) in
           case map_of (cc_entries cache) key of
             Some v \<Rightarrow> (cache\<lparr>cc_entries := AList.delete key (cc_entries cache) @ [(key, v)]\<rparr>, v)
           | None \<Rightarrow>
               (let catalog = load_from fs manifest_path relative
                in (cache\<lparr>cc_entries := evict (cc_limit cache) (AList.update key catalog (cc_entries cache))\<rparr>, catalog))))"

section \<open>Well-formed catalogs\<close>

definition message_ok :: "string \<times> string \<Rightarrow> bool" where
  "message_ok = (\<lambda>(k, v). k \<noteq> [] \<and> length k \<le> 160 \<and> length v \<le> 16384 \<and> CHR 0x00 \<notin> set v)"

definition messages_wf :: "presentation_catalog \<Rightarrow> bool" where
  "messages_wf c \<longleftrightarrow>
     dict_wf (cat_messages c) \<and> dict_has (cat_messages c) (cat_default_locale c) \<and> length (cat_messages c) \<le> 128 \<and>
     list_all (\<lambda>(l, ms). fullmatch CANONICAL_LOCALE l \<and> dict_wf ms \<and> length ms \<le> 20000 \<and> list_all message_ok ms)
       (cat_messages c)"

lemma dict_update_fresh: "dict_wf (d @ e) \<Longrightarrow> dict_update d e = d @ e"
proof (induction e arbitrary: d)
  case (Cons kv e)
  obtain k v where kv: "kv = (k, v)" by (cases kv)
  have "\<not> dict_has d k" using Cons.prems kv by (auto simp: dict_wf_def dict_has_iff)
  moreover have "dict_wf ((d @ [(k, v)]) @ e)" using Cons.prems kv by simp
  ultimately show ?case using Cons.IH [of "d @ [(k, v)]"] kv by (simp add: dict_update_def update_fresh)
qed (simp add: dict_update_def)

lemma dict_update_Nil: "dict_wf e \<Longrightarrow> dict_update [] e = e"
  using dict_update_fresh [of "[]" e] by simp

lemma load_message_Inr: "load_message kv = Inr m \<Longrightarrow> fst m = fst kv \<and> message_ok m"
  by (auto simp: load_message_def message_ok_def split: prod.splits json.splits if_splits)

lemma load_locale_Inr:
  assumes "load_locale lv = Inr m" and strict: "json_strict (snd lv)"
  shows "fst m = fst lv \<and> fullmatch CANONICAL_LOCALE (fst m) \<and> dict_wf (snd m) \<and> length (snd m) \<le> 20000 \<and>
    list_all message_ok (snd m)"
proof -
  obtain l v where lv: "lv = (l, v)" by (cases lv)
  from assms(1) obtain vals ms where v: "v = JObj vals" "length vals \<le> 20000" "is_canonical l"
    and t: "traverse load_message vals = Inr ms" and m: "m = (l, dict_update [] ms)"
    by (auto simp: lv load_locale_def rbind_Inr_iff split: json.splits if_splits)
  have k: "map fst ms = map fst vals" by (rule traverse_keys [OF _ t]) (use load_message_Inr in blast)
  have "dict_wf vals" using strict lv v(1) by (simp add: json_strict.simps [of "JObj vals"])
  then have wf: "dict_wf ms" using k by (simp add: dict_wf_def)
  moreover have "list_all message_ok ms" by (rule traverse_all [OF t]) (use load_message_Inr in blast)
  ultimately show ?thesis
    using v m lv traverse_length [OF t] normalized_canonical [of "JStr l" l]
    by (simp add: dict_update_Nil is_canonical_def fullmatch_iff)
qed

lemma read_catalog_strict: "read_catalog file = Inr v \<Longrightarrow> json_strict v"
  by (auto simp: read_catalog_def catalog_json.decode_Inr split: file_outcome.splits if_splits sum.splits)

lemma json_strict_get:
  assumes "json_strict (JObj d)" and "jget_null d k = v" and "v \<noteq> JNull"
  shows "json_strict v"
proof -
  have "(k, v) \<in> set d"
    using assms(2,3) by (auto simp: jget_null_def jget_or_def split: option.splits dest: map_of_SomeD)
  then show ?thesis using assms(1) by (subst (asm) json_strict.simps) force
qed

lemma load_catalog_run:
  assumes "load_catalog file = Inr c"
  obtains d l ms copied where "read_catalog file = Inr (JObj d)"
    "jget_null d ''messages'' = JObj ms" "length ms \<le> 128" "dict_has ms l"
    "traverse load_locale ms = Inr copied" "c = \<lparr>cat_default_locale = l, cat_messages = dict_update [] copied\<rparr>"
proof -
  from assms obtain doc where r: "read_catalog file = Inr doc" and "rbind (Inr doc) (\<lambda>document. case document of
         JObj d \<Rightarrow>
           if jget_null d ''schema'' \<noteq> JStr CATALOG_SCHEMA
           then Inl (PresentationCatalogError ''unsupported catalog schema'')
           else (case (jget_null d ''default_locale'', jget_null d ''messages'') of
               (JStr l, JObj ms) \<Rightarrow>
                 if \<not> is_canonical l \<or> ms = [] \<or> length ms > 128 \<or> \<not> dict_has ms l
                 then Inl (PresentationCatalogError ''invalid locale catalog metadata'')
                 else rbind (traverse load_locale ms) (\<lambda>copied.
                   Inr \<lparr>cat_default_locale = l, cat_messages = dict_update [] copied\<rparr>)
             | _ \<Rightarrow> Inl (PresentationCatalogError ''invalid locale catalog metadata''))
       | _ \<Rightarrow> Inl (PresentationCatalogError ''catalog root must be an object'')) = Inr c" (is "rbind _ ?k = _")
    unfolding load_catalog_def by (cases "read_catalog file") (simp_all only: rbind_simps sum.distinct)
  then have k: "?k doc = Inr c" by simp
  obtain d where d: "doc = JObj d" using k by (cases doc) simp_all
  have s: "jget_null d ''schema'' = JStr CATALOG_SCHEMA" using k d by (cases "jget_null d ''schema'' = JStr CATALOG_SCHEMA") simp_all
  obtain l where l: "jget_null d ''default_locale'' = JStr l"
    using k d s by (cases "jget_null d ''default_locale''") simp_all
  obtain ms where ms: "jget_null d ''messages'' = JObj ms"
    using k d s l by (cases "jget_null d ''messages''") simp_all
  from k d s l ms have "length ms \<le> 128" "dict_has ms l"
    "\<exists>copied. traverse load_locale ms = Inr copied \<and> c = \<lparr>cat_default_locale = l, cat_messages = dict_update [] copied\<rparr>"
    by (auto simp: rbind_Inr_iff split: if_splits)
  with that r d ms show thesis by blast
qed

lemma load_messages_wf:
  assumes "load_catalog file = Inr c"
  shows "messages_wf c"
proof -
  obtain d l ms copied where r: "read_catalog file = Inr (JObj d)"
    and ms: "jget_null d ''messages'' = JObj ms" "length ms \<le> 128" "dict_has ms l"
    and t: "traverse load_locale ms = Inr copied"
    and c: "c = \<lparr>cat_default_locale = l, cat_messages = dict_update [] copied\<rparr>"
    by (rule load_catalog_run [OF assms])
  have strict: "json_strict (JObj ms)" by (rule json_strict_get [OF read_catalog_strict [OF r] ms(1)]) simp
  then have wf: "dict_wf ms" and vs: "\<forall>kv \<in> set ms. json_strict (snd kv)" by (simp_all add: json_strict.simps [of "JObj ms"])
  have all2: "list_all2 (\<lambda>x y. load_locale x = Inr y) ms copied" using t by (simp add: traverse_Inr_iff)
  have ok: "list_all2 (\<lambda>x m. fst m = fst x \<and> fullmatch CANONICAL_LOCALE (fst m) \<and> dict_wf (snd m) \<and>
      length (snd m) \<le> 20000 \<and> list_all message_ok (snd m)) ms copied"
    by (rule list.rel_mono_strong [OF all2]) (use vs load_locale_Inr in blast)
  then have "map fst copied = map fst ms" by (induction rule: list_all2_induct) auto
  with wf ms(3) have copied: "dict_wf copied" "dict_has copied l" by (simp_all add: dict_wf_def dict_has_iff)
  moreover have "list_all (\<lambda>(l, ms). fullmatch CANONICAL_LOCALE l \<and> dict_wf ms \<and> length ms \<le> 20000 \<and> list_all message_ok ms) copied"
    using ok by (induction rule: list_all2_induct) auto
  ultimately show ?thesis
    using c ms(2) traverse_length [OF t] by (simp add: messages_wf_def dict_update_Nil)
qed

interpretation catalog_file: checked_parser load_catalog messages_wf
  by unfold_locales (rule load_messages_wf)

section \<open>The closest parent answers\<close>

definition dash_prefix :: "string \<Rightarrow> string \<Rightarrow> bool" where
  "dash_prefix p s \<longleftrightarrow> p \<noteq> [] \<and> (p = s \<or> prefix (p @ [dash]) s)"

lemma dash_prefix_step: "s \<noteq> [] \<Longrightarrow> dash_prefix p s \<longleftrightarrow> p = s \<or> dash_prefix p (rpartition_head dash s)"
proof (cases "before_last dash s")
  case None
  assume "s \<noteq> []"
  have "dash \<notin> set s" using None before_last_Some [of dash s] by (metis not_None_eq split_list_last)
  then have "\<not> prefix (p @ [dash]) s" by (auto simp: prefix_def)
  with None \<open>s \<noteq> []\<close> show ?thesis by (auto simp: dash_prefix_def rpartition_head_def)
next
  case (Some a)
  assume "s \<noteq> []"
  from Some obtain b where s: "s = a @ dash # b" and b: "dash \<notin> set b" unfolding before_last_Some by blast
  have "prefix (p @ [dash]) s \<longleftrightarrow> p = a \<or> prefix (p @ [dash]) a"
  proof
    assume "prefix (p @ [dash]) s"
    then have "prefix (p @ [dash]) (a @ [dash]) \<or> (\<exists>c. p @ [dash] = (a @ [dash]) @ c \<and> prefix c b)"
      using s prefix_append [of "p @ [dash]" "a @ [dash]" b] by simp
    then show "p = a \<or> prefix (p @ [dash]) a"
    proof
      assume "\<exists>c. p @ [dash] = (a @ [dash]) @ c \<and> prefix c b"
      then obtain c where c: "p @ [dash] = (a @ [dash]) @ c" "prefix c b" by blast
      have "dash \<notin> set c" using c(2) b by (auto simp: prefix_def)
      then have "c = []" using c(1) by (cases c rule: rev_cases) auto
      with c(1) show ?thesis by simp
    qed (auto simp: prefix_snoc)
  qed (auto simp: s prefix_def)
  with Some \<open>s \<noteq> []\<close> show ?thesis by (auto simp: dash_prefix_def rpartition_head_def)
qed

lemma dash_prefix_rest: "dash_prefix p s \<Longrightarrow> p \<noteq> s \<Longrightarrow> \<exists>r. s = p @ dash # r"
  by (auto simp: dash_prefix_def prefix_def)

lemma dash_prefix_length: "dash_prefix p s \<Longrightarrow> length p \<le> length s"
  by (auto simp: dash_prefix_def dest: prefix_length_le)

lemma chain_from_spec:
  assumes "\<forall>x \<in> set acc. length current < length x" and "sorted_wrt (\<lambda>a b. length b < length a) acc"
  shows "sorted_wrt (\<lambda>a b. length b < length a) (chain_from current acc) \<and>
    set (chain_from current acc) = set acc \<union> {p. dash_prefix p current}"
  using assms
proof (induction current acc rule: chain_from.induct)
  case (1 current acc)
  show ?case
  proof (cases "current = []")
    case True
    with 1 show ?thesis by (auto simp: chain_from.simps [of "[]"] dash_prefix_def)
  next
    case False
    let ?parent = "rpartition_head dash current"
    have shorter: "length ?parent < length current" using False by (rule rpartition_head_shorter)
    have fresh: "current \<notin> set acc" using "1.prems" by auto
    have "\<forall>x \<in> set (acc @ [current]). length ?parent < length x"
      using "1.prems"(1) shorter by (auto intro: less_trans)
    moreover have "sorted_wrt (\<lambda>a b. length b < length a) (acc @ [current])"
      using "1.prems" by (auto simp: sorted_wrt_append)
    ultimately show ?thesis
      using "1.IH" [OF False] fresh False dash_prefix_step [OF False]
      by (auto simp: chain_from.simps [of current acc])
  qed
qed

lemma find_longest:
  assumes "sorted_wrt (\<lambda>a b. length b < length a) xs"
  shows "find P xs = Some x \<longleftrightarrow> x \<in> set xs \<and> P x \<and> (\<forall>y \<in> set xs. length x < length y \<longrightarrow> \<not> P y)"
  using assms by (induction xs) (auto dest: order.strict_trans)

lemma find_append: "find P (xs @ ys) = (case find P xs of Some x \<Rightarrow> Some x | None \<Rightarrow> find P ys)"
  by (induction xs) auto

text \<open>
  A message is looked up at the closest parent of the requested locale: the answer is the
  non-empty message of the longest prefix of the normalised locale (cut at dashes) that has one, and
  the message of the catalog's default locale when no prefix has one.
\<close>

lemma catalog_text_closest:
  fixes cat requested
  defines "start \<equiv> locale_start requested (cat_default_locale cat)"
  shows "catalog_text cat key requested = Some v \<longleftrightarrow>
    (\<exists>p. dash_prefix p start \<and> catalog_message cat p key = Some v \<and>
       (\<forall>q. dash_prefix q start \<and> length p < length q \<longrightarrow> catalog_message cat q key = None)) \<or>
    (\<forall>q. dash_prefix q start \<longrightarrow> catalog_message cat q key = None) \<and>
       catalog_message cat (cat_default_locale cat) key = Some v"
proof -
  let ?P = "\<lambda>l. catalog_message cat l key \<noteq> None" and ?d = "cat_default_locale cat"
  let ?R = "chain_from start []"
  have R: "sorted_wrt (\<lambda>a b. length b < length a) ?R" "set ?R = {p. dash_prefix p start}"
    using chain_from_spec [of "[]" start] by simp_all
  have chain: "locale_chain requested ?d = (if ?d \<in> set ?R then ?R else ?R @ [?d])"
    by (simp add: locale_chain_def start_def Let_def)
  show ?thesis
  proof (cases "find ?P ?R")
    case (Some p)
    then have "find ?P (locale_chain requested ?d) = Some p" by (simp add: chain find_append)
    then have t: "catalog_text cat key requested = catalog_message cat p key" by (simp add: catalog_text_def)
    have p: "dash_prefix p start" "?P p" and q: "\<forall>q. dash_prefix q start \<and> length p < length q \<longrightarrow> \<not> ?P q"
      using Some find_longest [OF R(1), of ?P p] R(2) by auto
    have "p' = p" if "dash_prefix p' start" "?P p'" "\<forall>q. dash_prefix q start \<and> length p' < length q \<longrightarrow> \<not> ?P q" for p'
      using that Some find_longest [OF R(1), of ?P p'] R(2) by simp
    with t p q show ?thesis by (metis option.distinct(1))
  next
    case None
    then have n: "\<forall>q. dash_prefix q start \<longrightarrow> catalog_message cat q key = None" using R(2) by (auto simp: find_None_iff)
    then have "catalog_text cat key requested = catalog_message cat ?d key"
      using None R(2) by (auto simp: catalog_text_def chain find_append split: option.split)
    with n show ?thesis by auto
  qed
qed

section \<open>The cache is transparent\<close>

definition uncached :: "catalog_fs \<Rightarrow> path \<times> json \<Rightarrow> presentation_catalog option" where
  "uncached fs = (\<lambda>(m, r). case valid_relative r of None \<Rightarrow> None | Some relative \<Rightarrow> load_from fs m relative)"

fun cache_run ::
  "catalog_fs \<Rightarrow> catalog_cache \<Rightarrow> (path \<times> json) list \<Rightarrow> catalog_cache \<times> presentation_catalog option list" where
  "cache_run fs cache [] = (cache, [])"
| "cache_run fs cache ((m, r) # reqs) =
     (let (cache', answer) = cache_get fs cache m r; (cache'', answers) = cache_run fs cache' reqs
      in (cache'', answer # answers))"

definition cache_inv :: "catalog_fs \<Rightarrow> nat \<Rightarrow> catalog_cache \<Rightarrow> bool" where
  "cache_inv fs n cache \<longleftrightarrow>
     cc_limit cache = n \<and> dict_wf (cc_entries cache) \<and> length (cc_entries cache) \<le> n \<and>
     list_all (\<lambda>((m, r), v). v = load_from fs m r) (cc_entries cache)"

lemma evict_suffix: "\<exists>ys. entries = ys @ evict n entries \<and> length (evict n entries) \<le> n"
proof (induction n entries rule: evict.induct)
  case (1 n entries)
  show ?case
  proof (cases "length entries > n")
    case True
    then obtain x xs where xs: "entries = x # xs" by (cases entries) auto
    with 1 True obtain ys where "xs = ys @ evict n xs" "length (evict n xs) \<le> n" by auto
    with True xs show ?thesis by (intro exI [of _ "x # ys"]) (simp add: evict.simps [of n "x # xs"])
  qed (simp add: evict.simps [of n entries])
qed

lemma evict_wf: "dict_wf d \<Longrightarrow> dict_wf (evict n d)"
  using evict_suffix [of d n] by (metis dict_wf_def distinct_append map_append)

lemma evict_all: "list_all P d \<Longrightarrow> list_all P (evict n d)"
  using evict_suffix [of d n] by (metis list_all_append)

lemma evict_length: "length (evict n d) \<le> n"
  using evict_suffix [of d n] by blast

lemma delete_snoc:
  assumes "dict_wf d" and "map_of d k = Some v"
  shows "dict_wf (AList.delete k d @ [(k, v)])" and "length (AList.delete k d @ [(k, v)]) = length d"
    and "list_all P d \<Longrightarrow> list_all P (AList.delete k d @ [(k, v)])"
proof -
  have m: "(k, v) \<in> set d" using assms(2) by (rule map_of_SomeD)
  show "dict_wf (AList.delete k d @ [(k, v)])" using assms(1) by (auto simp: dict_wf_def distinct_removeAll delete_keys)
  obtain xs ys where d: "d = xs @ (k, v) # ys" using m by (meson split_list)
  then have "k \<notin> fst ` set xs" "k \<notin> fst ` set ys" using assms(1) by (auto simp: dict_wf_def)
  then have "filter (\<lambda>(k', _). k \<noteq> k') xs = xs" "filter (\<lambda>(k', _). k \<noteq> k') ys = ys" by (force simp: filter_id_conv)+
  then have "AList.delete k d = xs @ ys" unfolding d AList.delete_eq by simp
  then show "length (AList.delete k d @ [(k, v)]) = length d" by (simp add: d)
  show "list_all P (AList.delete k d @ [(k, v)])" if "list_all P d"
    using that m by (auto simp: AList.delete_eq list_all_iff)
qed

lemma cache_get_inv:
  assumes "cache_inv fs n cache" and "1 \<le> n"
  shows "cache_inv fs n (fst (cache_get fs cache m r)) \<and> snd (cache_get fs cache m r) = uncached fs (m, r)"
proof (cases "valid_relative r")
  case (Some relative)
  note inv = assms(1) [unfolded cache_inv_def]
  let ?key = "(m, relative)"
  show ?thesis
  proof (cases "map_of (cc_entries cache) ?key")
    case None
    then show ?thesis using Some inv
      by (auto simp: cache_get_def cache_inv_def uncached_def Let_def evict_length intro!: evict_wf evict_all list_all_update)
  next
    case (Some v)
    then have "v = load_from fs m relative" using inv by (auto simp: list_all_iff dest!: map_of_SomeD)
    with Some \<open>valid_relative r = Some relative\<close> inv delete_snoc [of "cc_entries cache" ?key v] show ?thesis
      by (auto simp: cache_get_def cache_inv_def uncached_def Let_def)
  qed
qed (use assms in \<open>simp add: cache_get_def uncached_def\<close>)

lemma cache_run_inv:
  "cache_inv fs n cache \<Longrightarrow> 1 \<le> n \<Longrightarrow>
     cache_inv fs n (fst (cache_run fs cache reqs)) \<and> snd (cache_run fs cache reqs) = map (uncached fs) reqs"
proof (induction fs cache reqs rule: cache_run.induct)
  case (2 fs cache m r reqs)
  have g: "cache_inv fs n (fst (cache_get fs cache m r))" "snd (cache_get fs cache m r) = uncached fs (m, r)"
    using cache_get_inv [OF 2(2,3)] by auto
  show ?case using "2.IH" [OF refl prod.collapse] g 2(3) by (auto simp: Let_def split: prod.splits)
qed simp

text \<open>
  C21. The cache implements uncached lookups: for every sequence of requests on an unchanging file
  system, positive and negative answers alike are those that reading the files each time would give,
  and the cache never holds more entries than its limit.
\<close>

theorem catalog_cache_transparent:
  "snd (cache_run fs (PresentationCatalogCache limit) reqs) = map (uncached fs) reqs \<and>
   length (cc_entries (fst (cache_run fs (PresentationCatalogCache limit) reqs))) \<le> nat (max 1 limit)"
proof -
  have "cache_inv fs (nat (max 1 limit)) (PresentationCatalogCache limit)"
    by (simp add: cache_inv_def PresentationCatalogCache_def)
  from cache_run_inv [OF this, of reqs] show ?thesis by (simp add: cache_inv_def)
qed

section \<open>Confinement to the package\<close>

lemma relative_segments:
  assumes "valid_relative r = Some relative" and "seg \<in> set (py_split CHR ''/'' relative)"
  shows "\<exists>c t. seg = c # t \<and> in_class [AZ, az, d09] c"
proof -
  let ?seg = "RSeq (RCls [AZ, az, d09]) (RStar (RCls [AZ, az, d09, one CHR ''.'', one CHR ''_'', one CHR ''-'']))"
  have "rx_match PACKAGE_RELATIVE_PATH relative"
    using assms(1) by (auto simp: valid_relative_def fullmatch_iff split: json.splits if_splits)
  then obtain s ss where "rx_match ?seg s" "list_all (rx_match ?seg) ss" and "relative = s @ concat (map (Cons CHR ''/'') ss)"
    unfolding PACKAGE_RELATIVE_PATH_def Let_def rx_seq_iff [of ?seg] star_dashes by blast
  then have all: "\<forall>x \<in> set (s # ss). rx_match ?seg x" and r: "relative = py_join [CHR ''/''] (s # ss)"
    by (simp_all add: join_cons list_all_iff)
  have no: "CHR ''/'' \<notin> set x" if "rx_match ?seg x" for x
  proof -
    have "list_all (in_class (rx_classes ?seg)) x" by (rule rx_match_classes [OF that])
    moreover have "\<not> in_class (rx_classes ?seg) CHR ''/''" by code_simp
    ultimately show ?thesis by (auto simp: list_all_iff)
  qed
  have "py_split CHR ''/'' relative = s # ss"
    unfolding r by (rule py_split_join) (use all no in auto)
  with assms(2) all have "rx_match ?seg seg" by auto
  then show ?thesis by (auto simp: cls_star_match)
qed

text \<open>
  C31. Presentation text comes from the package's own files: a relative path with an empty, \<open>.\<close> or
  \<open>..\<close> segment is never accepted, and the answer depends on no file outside the resolved directory of
  the manifest, whatever symbolic links the package contains.
\<close>

theorem catalog_confined:
  assumes "fs_resolve fs' = fs_resolve fs"
    and "\<And>root p. fs_resolve fs (butlast m) = Some root \<Longrightarrow> prefix root p \<Longrightarrow> fs_file fs' p = fs_file fs p"
  shows "snd (cache_get fs' (PresentationCatalogCache n) m r) = snd (cache_get fs (PresentationCatalogCache n) m r) \<and>
    (\<forall>relative. valid_relative r = Some relative \<longrightarrow>
       {[], ''.'', ''..''} \<inter> set (py_split CHR ''/'' relative) = {})"
proof
  have "catalog_file fs' m rel = catalog_file fs m rel" for rel by (simp add: catalog_file_def assms(1))
  moreover have "fs_file fs' p = fs_file fs p" if "catalog_file fs m rel = Some p" for rel p
    using that assms(2) by (auto simp: catalog_file_def bind_eq_Some_conv split: if_splits)
  ultimately have "load_from fs' m rel = load_from fs m rel" for rel
    by (cases "catalog_file fs m rel") (simp_all add: load_from_def)
  then show "snd (cache_get fs' (PresentationCatalogCache n) m r) = snd (cache_get fs (PresentationCatalogCache n) m r)"
    by (simp add: cache_get_def PresentationCatalogCache_def Let_def split: option.split)
  show "\<forall>relative. valid_relative r = Some relative \<longrightarrow> {[], ''.'', ''..''} \<inter> set (py_split CHR ''/'' relative) = {}"
  proof (intro allI impI equals0I)
    fix relative seg
    assume "valid_relative r = Some relative" and s: "seg \<in> {[], ''.'', ''..''} \<inter> set (py_split CHR ''/'' relative)"
    then obtain c t where "seg = c # t" "in_class [AZ, az, d09] c" using relative_segments by blast
    with s show False by (auto simp: in_class_def AZ_def az_def d09_def)
  qed
qed

definition demo_fs :: "file_outcome \<Rightarrow> catalog_fs" where
  "demo_fs outside = \<lparr>fs_resolve = Some,
     fs_file = (\<lambda>p. if take 1 p = [''pkg''] then FileError ''no such file'' else outside)\<rparr>"

theorem catalog_confined_witness:
  "snd (cache_get (demo_fs NotRegular) (PresentationCatalogCache 4) [''pkg'', ''manifest.json''] (JStr ''i18n/app.json'')) =
   snd (cache_get (demo_fs (FileError ''x'')) (PresentationCatalogCache 4) [''pkg'', ''manifest.json''] (JStr ''i18n/app.json''))"
proof -
  have "fs_resolve (demo_fs NotRegular) = fs_resolve (demo_fs (FileError ''x''))" by (simp add: demo_fs_def)
  moreover have "fs_file (demo_fs NotRegular) p = fs_file (demo_fs (FileError ''x'')) p"
    if "fs_resolve (demo_fs (FileError ''x'')) (butlast [''pkg'', ''manifest.json'']) = Some root" "prefix root p" for root p
    using that by (auto simp: demo_fs_def prefix_def)
  ultimately show ?thesis by (rule catalog_confined [THEN conjunct1])
qed

end
