(* ===== verification/Catalog_Gate.thy ===== *)
theory Catalog_Gate
  imports Roles Services
begin

text \<open>
  The gate every component catalog passes before the supervisor uses it (\<open>_validate_dependency_graph\<close>
  and the two preflights of \<open>Msysd\<close> in \<open>msys_core/msysd.py\<close>): the depth-first search for missing and
  cyclic dependencies, and the checks of the catalog an installation or a removal would leave.

  The lemmas show that the search accepts exactly the closed acyclic catalogs and reports a real cycle
  otherwise, and that a passed preflight leaves no startup component and no provided role behind.
\<close>

section \<open>The dependency graph\<close>

datatype gate_error =
    RequiresMissing string "string list"
  | DependencyCycle "string list"
  | UnknownComponent string

definition ordering_dependencies :: "catalog \<Rightarrow> string \<Rightarrow> string list" where
  "ordering_dependencies components key = (case map_of components key of
       None \<Rightarrow> []
     | Some c \<Rightarrow> c_requires c @ filter (dict_has components) (c_after c))"

definition missing_requires :: "catalog \<Rightarrow> component \<Rightarrow> string list" where
  "missing_requires components c = filter (\<lambda>d. \<not> dict_has components d) (c_requires c)"

text \<open>
  \<open>visit\<close> with its loop over the dependencies.  The set \<open>visiting\<close> of the source is the set of the
  names on \<open>path\<close>; \<open>visited\<close> lists the finished names in the order they finished.
\<close>

function visit :: "catalog \<Rightarrow> string list \<Rightarrow> string list \<Rightarrow> string \<Rightarrow> (gate_error, string list) result"
  and visit_all :: "catalog \<Rightarrow> string list \<Rightarrow> string list \<Rightarrow> string list \<Rightarrow> (gate_error, string list) result" where
  "visit components path visited key =
     (if key \<in> set path then Inl (DependencyCycle (dropWhile (\<lambda>x. x \<noteq> key) path @ [key]))
      else if key \<in> set visited then Inr visited
      else if \<not> dict_has components key then Inl (UnknownComponent key)
      else rbind (visit_all components (path @ [key]) visited (ordering_dependencies components key))
             (\<lambda>visited'. Inr (visited' @ [key])))"
| "visit_all components path visited [] = Inr visited"
| "visit_all components path visited (d # ds) =
     rbind (visit components path visited d) (\<lambda>visited'. visit_all components path visited' ds)"
  by pat_completeness auto
termination
proof (relation "measures [\<lambda>x. case x of
      Inl (components, path, _, _) \<Rightarrow> card (set (dict_keys components) - set path)
    | Inr (components, path, _, _) \<Rightarrow> card (set (dict_keys components) - set path),
    \<lambda>x. case x of Inl _ \<Rightarrow> 0 | Inr (_, _, _, ds) \<Rightarrow> Suc (length ds)]")
  fix components :: catalog and path visited :: "string list" and key
  assume "key \<notin> set path" and "\<not> \<not> dict_has components key"
  then have "set (dict_keys components) - set (path @ [key]) \<subset> set (dict_keys components) - set path"
    by (auto simp: dict_has_iff)
  then have "card (set (dict_keys components) - set (path @ [key])) < card (set (dict_keys components) - set path)"
    by (intro psubset_card_mono) simp_all
  then show "(Inr (components, path @ [key], visited, ordering_dependencies components key), Inl (components, path, visited, key))
      \<in> measures [\<lambda>x. case x of
      Inl (components, path, _, _) \<Rightarrow> card (set (dict_keys components) - set path)
    | Inr (components, path, _, _) \<Rightarrow> card (set (dict_keys components) - set path),
    \<lambda>x. case x of Inl _ \<Rightarrow> 0 | Inr (_, _, _, ds) \<Rightarrow> Suc (length ds)]" by simp
qed simp_all

declare visit.simps [simp del]

definition validate_dependency_graph :: "catalog \<Rightarrow> (gate_error, unit) result" where
  "validate_dependency_graph components =
     (case find (\<lambda>(_, c). missing_requires components c \<noteq> []) components of
        Some (key, c) \<Rightarrow> Inl (RequiresMissing key (missing_requires components c))
      | None \<Rightarrow> rbind (visit_all components [] [] (dict_keys components)) (\<lambda>_. Inr ()))"

section \<open>The search decides acyclicity\<close>

definition requires_closed :: "catalog \<Rightarrow> bool" where
  "requires_closed components \<longleftrightarrow> (\<forall>(_, c) \<in> set components. set (c_requires c) \<subseteq> set (dict_keys components))"

text \<open>A component comes after what it requires and after what it names in \<open>after\<close>, if that exists.\<close>

definition order_rel :: "catalog \<Rightarrow> (string \<times> string) set" where
  "order_rel components = {(d, x). \<exists>c. map_of components x = Some c \<and>
     (d \<in> set (c_requires c) \<or> d \<in> set (c_after c) \<and> d \<in> set (dict_keys components))}"

lemma order_rel_eq: "order_rel components = {(d, x). d \<in> set (ordering_dependencies components x)}"
proof -
  have "(d, x) \<in> order_rel components \<longleftrightarrow> d \<in> set (ordering_dependencies components x)" for d x
    by (cases "map_of components x") (auto simp: order_rel_def ordering_dependencies_def dict_has_iff)
  then show ?thesis by auto
qed

lemma ordering_known:
  assumes "requires_closed cs" and d: "d \<in> set (ordering_dependencies cs x)"
  shows "dict_has cs d"
proof -
  obtain c where c: "map_of cs x = Some c" using d by (cases "map_of cs x") (simp_all add: ordering_dependencies_def)
  then have "set (c_requires c) \<subseteq> set (dict_keys cs)"
    using assms(1) by (auto simp: requires_closed_def dest!: map_of_SomeD)
  with c d show ?thesis by (auto simp: ordering_dependencies_def dict_has_iff)
qed

lemma ordering_key: "d \<in> set (ordering_dependencies cs x) \<Longrightarrow> x \<in> set (dict_keys cs)"
  using dict_has_iff [of cs x] by (cases "map_of cs x") (auto simp: ordering_dependencies_def dict_has_def)

text \<open>What has finished is ordered, and stays finished.\<close>

lemma visit_topo:
  "visit cs path visited key = Inr v \<Longrightarrow> topo (ordering_dependencies cs) visited \<Longrightarrow>
     topo (ordering_dependencies cs) v \<and> set visited \<subseteq> set v \<and> key \<in> set v"
  "visit_all cs path visited ds = Inr v \<Longrightarrow> topo (ordering_dependencies cs) visited \<Longrightarrow>
     topo (ordering_dependencies cs) v \<and> set visited \<subseteq> set v \<and> set ds \<subseteq> set v"
proof (induction cs path visited key and cs path visited ds arbitrary: v and v rule: visit_visit_all.induct)
  case (1 cs path visited key)
  show ?case
  proof (cases "key \<in> set visited")
    case True
    with "1.prems" show ?thesis by (auto simp: visit.simps [of cs] split: if_splits)
  next
    case False
    with "1.prems"(1) obtain v' where v': "visit_all cs (path @ [key]) visited (ordering_dependencies cs key) = Inr v'"
      "v = v' @ [key]" and c: "key \<notin> set path" "dict_has cs key"
      by (auto simp: visit.simps [of cs] rbind_Inr_iff split: if_splits)
    have "topo (ordering_dependencies cs) v' \<and> set visited \<subseteq> set v' \<and> set (ordering_dependencies cs key) \<subseteq> set v'"
      by (rule "1.IH" [OF _ _ _ v'(1) "1.prems"(2)]) (use c False in simp_all)
    then show ?thesis using v'(2) topo_snoc by auto
  qed
next
  case (3 cs path visited d ds)
  from "3.prems"(1) obtain v' where "visit cs path visited d = Inr v'" "visit_all cs path v' ds = Inr v"
    by (auto simp: rbind_Inr_iff)
  then have v': "topo (ordering_dependencies cs) v' \<and> set visited \<subseteq> set v' \<and> d \<in> set v'"
    and "visit_all cs path v' ds = Inr v" using "3.IH"(1) "3.prems"(2) by blast+
  then have "topo (ordering_dependencies cs) v \<and> set v' \<subseteq> set v \<and> set ds \<subseteq> set v" using "3.IH"(2) by blast
  with v' show ?case by auto
qed simp

text \<open>A reported cycle is one.\<close>

definition is_chain :: "catalog \<Rightarrow> string list \<Rightarrow> bool" where
  "is_chain cs xs \<longleftrightarrow> (\<forall>ys a b zs. xs = ys @ a # b # zs \<longrightarrow> (b, a) \<in> order_rel cs)"

lemma is_chain_snoc:
  "is_chain cs xs \<Longrightarrow> (xs \<noteq> [] \<longrightarrow> (k, last xs) \<in> order_rel cs) \<Longrightarrow> is_chain cs (xs @ [k])"
  unfolding is_chain_def by (auto simp: append_eq_append_conv2 append_eq_Cons_conv Cons_eq_append_conv)

lemma is_chain_suffix: "is_chain cs (xs @ ys) \<Longrightarrow> is_chain cs ys"
  unfolding is_chain_def by (metis append.assoc)

lemma is_chain_first: "is_chain cs (a # b # zs) \<Longrightarrow> (b, a) \<in> order_rel cs"
  unfolding is_chain_def by (metis append_Nil)

definition is_cycle :: "catalog \<Rightarrow> string list \<Rightarrow> bool" where
  "is_cycle cs xs \<longleftrightarrow> is_chain cs xs \<and> 2 \<le> length xs \<and> hd xs = last xs"

lemma visit_cycle:
  "visit cs path visited key = Inl e \<Longrightarrow> is_chain cs (path @ [key]) \<Longrightarrow> requires_closed cs \<Longrightarrow> dict_has cs key \<Longrightarrow>
     \<exists>c. e = DependencyCycle c \<and> is_cycle cs c"
  "visit_all cs path visited ds = Inl e \<Longrightarrow> is_chain cs path \<Longrightarrow>
     (path \<noteq> [] \<longrightarrow> (\<forall>d \<in> set ds. (d, last path) \<in> order_rel cs)) \<Longrightarrow> requires_closed cs \<Longrightarrow> \<forall>d \<in> set ds. dict_has cs d \<Longrightarrow>
     \<exists>c. e = DependencyCycle c \<and> is_cycle cs c"
proof (induction cs path visited key and cs path visited ds rule: visit_visit_all.induct)
  case (1 cs path visited key)
  show ?case
  proof (cases "key \<in> set path")
    case True
    then have e: "e = DependencyCycle (dropWhile (\<lambda>x. x \<noteq> key) path @ [key])" using "1.prems"(1) by (simp add: visit.simps [of cs])
    obtain r where r: "dropWhile (\<lambda>x. x \<noteq> key) path = key # r"
      using True by (metis (mono_tags, lifting) dropWhile_eq_Nil_conv hd_dropWhile list.collapse)
    have "is_chain cs (takeWhile (\<lambda>x. x \<noteq> key) path @ dropWhile (\<lambda>x. x \<noteq> key) path @ [key])"
      using "1.prems"(2) unfolding append.assoc [symmetric] takeWhile_dropWhile_id .
    from is_chain_suffix [OF this] have "is_chain cs (key # r @ [key])" by (simp add: r)
    then show ?thesis using e r by (simp add: is_cycle_def)
  next
    case False
    then have "visit_all cs (path @ [key]) visited (ordering_dependencies cs key) = Inl e" and "key \<notin> set visited"
      using "1.prems" by (auto simp: visit.simps [of cs] rbind_Inl_iff split: if_splits)
    then show ?thesis
      using "1.IH" False "1.prems" ordering_known [OF "1.prems"(3)] by (simp add: order_rel_eq)
  qed
next
  case (3 cs path visited d ds)
  show ?case
  proof (cases "visit cs path visited d")
    case (Inl e')
    then have "e' = e" using "3.prems"(1) by simp
    moreover have "is_chain cs (path @ [d])" using "3.prems"(2,3) by (intro is_chain_snoc) auto
    ultimately show ?thesis using "3.IH"(1) Inl "3.prems" by simp
  next
    case (Inr v')
    then show ?thesis using "3.IH"(2) "3.prems" by auto
  qed
qed simp

lemma cycle_not_acyclic: "is_cycle cs xs \<Longrightarrow> \<not> acyclic (order_rel cs)"
proof -
  have "is_chain cs (a # ys @ [b]) \<Longrightarrow> (b, a) \<in> (order_rel cs)\<^sup>+" for a ys b
  proof (induction ys arbitrary: a)
    case Nil
    then show ?case using is_chain_first [of cs a b "[]"] by auto
  next
    case (Cons y ys)
    have "(y, a) \<in> order_rel cs" using Cons.prems is_chain_first [of cs a y] by simp
    moreover have "is_chain cs (y # ys @ [b])" using Cons.prems is_chain_suffix [of cs "[a]"] by simp
    ultimately show ?case using Cons.IH by (meson trancl_into_trancl)
  qed
  moreover assume c: "is_cycle cs xs"
  then obtain a ys b where "xs = a # ys @ [b]" "a = b"
    unfolding is_cycle_def by (cases xs; cases "tl xs" rule: rev_cases) auto
  ultimately show ?thesis using c by (auto simp: acyclic_def is_cycle_def)
qed

lemma missing_iff: "find (\<lambda>(_, c). missing_requires cs c \<noteq> []) cs = None \<longleftrightarrow> requires_closed cs"
  by (auto simp: find_None_iff missing_requires_def requires_closed_def dict_has_iff filter_empty_conv)

lemma search_acyclic:
  assumes "visit_all cs [] [] (dict_keys cs) = Inr v"
  shows "acyclic (order_rel cs)"
proof (rule acyclic_subset [OF topo_rel_acyclic])
  show "topo (ordering_dependencies cs) v" using visit_topo(2) [OF assms] by (simp add: topo_def)
  have "set (dict_keys cs) \<subseteq> set v" using visit_topo(2) [OF assms] by (simp add: topo_def)
  then show "order_rel cs \<subseteq> {(a, x). x \<in> set v \<and> a \<in> set (ordering_dependencies cs x)}"
    using ordering_key by (fastforce simp: order_rel_eq)
qed

lemma search_cycle:
  assumes "requires_closed cs" and "visit_all cs [] [] (dict_keys cs) = Inl e"
  shows "\<exists>c. e = DependencyCycle c \<and> is_cycle cs c"
  using visit_cycle(2) [OF assms(2) _ _ assms(1)] by (auto simp: is_chain_def dict_has_iff)

lemma graph_run:
  "requires_closed cs \<Longrightarrow> validate_dependency_graph cs = rbind (visit_all cs [] [] (dict_keys cs)) (\<lambda>_. Inr ())"
  by (simp add: validate_dependency_graph_def missing_iff [THEN iffD2])

lemma graph_iff: "validate_dependency_graph cs = Inr () \<longleftrightarrow> requires_closed cs \<and> acyclic (order_rel cs)"
proof (cases "requires_closed cs")
  case False
  with missing_iff [of cs] show ?thesis by (auto simp: validate_dependency_graph_def split: option.splits)
next
  case True
  show ?thesis
  proof (cases "visit_all cs [] [] (dict_keys cs)")
    case (Inl e)
    with search_cycle [OF True Inl] cycle_not_acyclic have "\<not> acyclic (order_rel cs)" by blast
    with Inl graph_run [OF True] show ?thesis by simp
  next
    case (Inr v)
    with search_acyclic [OF Inr] graph_run [OF True] True show ?thesis by simp
  qed
qed


definition demo_cycle :: catalog where
  "demo_cycle = projr (load_manifests (\<lambda>_. Inr (JObj
     [(''schema'', JStr ''msys.manifest.v1''),
      (''package'', JObj [(''id'', JStr ''p'')]),
      (''components'', JList
        [JObj [(''id'', JStr ''a''), (''exec'', JList []), (''requires'', JList [JStr ''p:b''])],
         JObj [(''id'', JStr ''b''), (''exec'', JList []), (''after'', JList [JStr ''p:a''])]])]))
     [[''m.json'']] [])"


section \<open>Preflight\<close>

text \<open>What the supervisor keeps of its catalogs.  The profile has been validated when it was loaded.\<close>

record core_catalog =
  cr_state_dir :: path
  cr_profile :: jobj
  cr_builtin :: catalog
  cr_components :: catalog
  cr_registry :: role_registry

datatype preflight_error =
    PathUnresolved
  | OutsideVersionRoot
  | NoComponents
  | IdentityMismatch
  | PackageIdRequired
  | NotInstalled
  | LoadFailed manifest_error
  | GraphRejected gate_error
  | RolesRejected role_error
  | RemovesStartup "string list"
  | LosesRoles "string list"

datatype catalog_failure = CatalogPreflightError string "path option" preflight_error

record preflight_report =
  pfr_package :: string
  pfr_path :: "path option"
  pfr_components :: "string list"
  pfr_catalog_components :: nat

definition startup_ids :: "jobj \<Rightarrow> string list" where
  "startup_ids profile = (case jget_or profile ''startup'' (JList []) of
       JList xs \<Rightarrow> List.map_filter (\<lambda>v. case v of JStr s \<Rightarrow> Some s | _ \<Rightarrow> None) xs
     | _ \<Rightarrow> [])"

definition has_provider :: "role_registry \<Rightarrow> string \<Rightarrow> bool" where
  "has_provider rg role \<longleftrightarrow> (case preferred_provider rg role of Inr (Some _) \<Rightarrow> True | _ \<Rightarrow> False)"

definition removed_startup :: "core_catalog \<Rightarrow> catalog \<Rightarrow> string list" where
  "removed_startup core prospective =
     sort (filter (\<lambda>c. dict_has (cr_components core) c \<and> \<not> dict_has prospective c) (startup_ids (cr_profile core)))"

definition lost_roles :: "core_catalog \<Rightarrow> role_registry \<Rightarrow> string list" where
  "lost_roles core prospective_roles =
     sort (filter (\<lambda>role. has_provider (cr_registry core) role \<and>
                          (role \<notin> set (list_roles prospective_roles) \<or> \<not> has_provider prospective_roles role))
             (list_roles (cr_registry core)))"

definition check_prospective :: "core_catalog \<Rightarrow> catalog \<Rightarrow> (preflight_error, unit) result" where
  "check_prospective core prospective =
     rbind (map_err GraphRejected (validate_dependency_graph prospective)) (\<lambda>_.
     rbind (map_err RolesRejected (from_profile prospective (cr_profile core))) (\<lambda>prospective_roles.
       if removed_startup core prospective \<noteq> [] then Inl (RemovesStartup (removed_startup core prospective))
       else if lost_roles core prospective_roles \<noteq> [] then Inl (LosesRoles (lost_roles core prospective_roles))
       else Inr ()))"

text \<open>
  The file system of a preflight: strict and plain resolution, reading a JSON file, and the tests for
  existing files.
\<close>

record gate_fs =
  gf_resolve_strict :: "path \<Rightarrow> path option"
  gf_resolve :: "path \<Rightarrow> path"
  gf_read :: reader
  gf_is_file :: "path \<Rightarrow> bool"
  gf_exists :: "path \<Rightarrow> bool"

definition version_root :: "path \<Rightarrow> string \<Rightarrow> path \<Rightarrow> bool" where
  "version_root packages_root package_id target \<longleftrightarrow>
     prefix packages_root target \<and>
     (case drop (length packages_root) target of
        [p, v, _] \<Rightarrow> p = package_id \<and> v = ''versions'' | _ \<Rightarrow> False)"

definition load_candidate :: "gate_fs \<Rightarrow> core_catalog \<Rightarrow> string \<Rightarrow> path \<Rightarrow> (preflight_error, path \<times> catalog) result" where
  "load_candidate fs core package_id package_path =
     (case gf_resolve_strict fs package_path of
        None \<Rightarrow> Inl PathUnresolved
      | Some target \<Rightarrow>
          if \<not> version_root (gf_resolve fs (cr_state_dir core @ [''packages''])) package_id target
          then Inl OutsideVersionRoot
          else
            rbind (map_err LoadFailed
                     (load_manifest_paths (gf_read fs) (gf_resolve fs) (gf_is_file fs) [target @ [''manifest.json'']]))
              (\<lambda>candidate.
                 if candidate = [] then Inl NoComponents
                 else if set (map c_package_id (dict_values candidate)) \<noteq> {package_id} then Inl IdentityMismatch
                 else Inr (target, candidate)))"

definition candidate_catalog :: "core_catalog \<Rightarrow> catalog \<Rightarrow> catalog \<Rightarrow> catalog" where
  "candidate_catalog core installed candidate =
     replace_package_components (cr_builtin core) (replace_package_components installed candidate)"

definition preflight_installed_candidate ::
  "gate_fs \<Rightarrow> core_catalog \<Rightarrow> string \<Rightarrow> path \<Rightarrow> (catalog_failure, preflight_report) result" where
  "preflight_installed_candidate fs core package_id package_path =
     map_err (CatalogPreflightError package_id (Some package_path))
       (rbind (load_candidate fs core package_id package_path) (\<lambda>(target, candidate).
        rbind (map_err LoadFailed (load_installed_manifests (gf_read fs) (gf_exists fs) (cr_state_dir core) True))
          (\<lambda>installed.
             let prospective = candidate_catalog core installed candidate in
             rbind (check_prospective core prospective) (\<lambda>_.
               Inr \<lparr>pfr_package = package_id, pfr_path = Some target, pfr_components = sort (dict_keys candidate),
                    pfr_catalog_components = length prospective\<rparr>))))"

definition removal_catalog :: "core_catalog \<Rightarrow> catalog \<Rightarrow> string \<Rightarrow> catalog" where
  "removal_catalog core installed package_id =
     replace_package_components (cr_builtin core) (filter (\<lambda>(_, c). c_package_id c \<noteq> package_id) installed)"

definition preflight_installed_removal ::
  "gate_fs \<Rightarrow> core_catalog \<Rightarrow> string \<Rightarrow> (catalog_failure, preflight_report) result" where
  "preflight_installed_removal fs core package_id =
     map_err (CatalogPreflightError package_id None)
       (if package_id = [] then Inl PackageIdRequired
        else
        rbind (map_err LoadFailed (load_installed_manifests (gf_read fs) (gf_exists fs) (cr_state_dir core) True))
          (\<lambda>installed.
             let removed = sort (map fst (filter (\<lambda>(_, c). c_package_id c = package_id) installed));
                 prospective = removal_catalog core installed package_id
             in if removed = [] then Inl NotInstalled
                else rbind (check_prospective core prospective) (\<lambda>_.
                  Inr \<lparr>pfr_package = package_id, pfr_path = None, pfr_components = removed,
                       pfr_catalog_components = length prospective\<rparr>)))"

section \<open>What a passed preflight guarantees\<close>

definition catalog_safe :: "core_catalog \<Rightarrow> catalog \<Rightarrow> bool" where
  "catalog_safe core new \<longleftrightarrow>
     requires_closed new \<and> acyclic (order_rel new) \<and>
     (\<forall>c \<in> set (startup_ids (cr_profile core)). dict_has (cr_components core) c \<longrightarrow> dict_has new c) \<and>
     (\<exists>rg. from_profile new (cr_profile core) = Inr rg \<and>
       (\<forall>role \<in> set (list_roles (cr_registry core)). has_provider (cr_registry core) role \<longrightarrow> has_provider rg role))"

lemma check_prospective_iff: "check_prospective core new = Inr u \<longleftrightarrow> catalog_safe core new"
proof
  assume a: "check_prospective core new = Inr u"
  then have g: "validate_dependency_graph new = Inr ()" by (auto simp: check_prospective_def rbind_Inr_iff)
  from a obtain rg where "from_profile new (cr_profile core) = Inr rg"
    and "removed_startup core new = []" "lost_roles core rg = []"
    by (auto simp: check_prospective_def rbind_Inr_iff split: if_splits)
  with g [unfolded graph_iff] show "catalog_safe core new"
    by (auto simp: catalog_safe_def removed_startup_def lost_roles_def filter_empty_conv)
next
  assume s: "catalog_safe core new"
  then obtain rg where rg: "from_profile new (cr_profile core) = Inr rg"
    and r: "\<forall>role \<in> set (list_roles (cr_registry core)). has_provider (cr_registry core) role \<longrightarrow> has_provider rg role"
    by (auto simp: catalog_safe_def)
  have "role \<in> set (list_roles rg)" if "has_provider rg role" for role
  proof -
    have "map_of (rg_roles rg) role \<noteq> None"
      using that by (auto simp: has_provider_def preferred_provider_def rg_state_def split: option.splits)
    then show ?thesis by (simp add: list_roles_def map_of_eq_None_iff)
  qed
  with r have "lost_roles core rg = []" by (auto simp: lost_roles_def filter_empty_conv)
  moreover have "removed_startup core new = []" using s by (auto simp: catalog_safe_def removed_startup_def filter_empty_conv)
  ultimately show "check_prospective core new = Inr u"
    using rg s graph_iff [of new] by (simp add: check_prospective_def catalog_safe_def)
qed


definition demo_gate :: gate_fs where
  "demo_gate = \<lparr>gf_resolve_strict = Some, gf_resolve = (\<lambda>p. p),
     gf_read = (\<lambda>_. Inr (JObj [(''schema'', JStr ''msys.manifest.v1''), (''package'', JObj [(''id'', JStr ''p'')]),
       (''components'', JList [JObj [(''id'', JStr ''a''), (''exec'', JList [])]])])),
     gf_is_file = (\<lambda>_. True), gf_exists = (\<lambda>_. False)\<rparr>"

definition demo_core :: core_catalog where
  "demo_core = \<lparr>cr_state_dir = [], cr_profile = [], cr_builtin = [], cr_components = [],
     cr_registry = projr (RoleRegistry [] [] [])\<rparr>"


end
