(* ===== verification/Supervision.thy ===== *)
theory Supervision
  imports Manifest Py_Text
begin

text \<open>
  Lifecycle policy of the supervisor (methods of \<open>Msysd\<close> in \<open>msys_core/msysd.py\<close>): what kind of
  application a component is, when a failed component is restarted and when it is quarantined, the
  stack of foreground applications, and the selection of an application to stop under memory pressure.
  Times are exact rationals of seconds on the monotonic clock.

  The lemmas give the restart budget for every history of failures, the bounds of the back-off, the
  invariant of the foreground stack and what a reclaim may stop.
\<close>

section \<open>Kinds of components\<close>

definition windowing_mode :: "component \<Rightarrow> string" where
  "windowing_mode c = py_str (jget_or (c_windowing c) ''mode'' (JStr []))"

definition is_foreground_app :: "component \<Rightarrow> bool" where
  "is_foreground_app c \<longleftrightarrow>
     c_lifecycle c = ''manual'' \<and>
     \<not> list_ex (\<lambda>p. pv_kind p = ''role'' \<and> pv_name p = ''screen-shield'') (c_provides c) \<and>
     windowing_mode c \<in> {''window'', ''fullscreen''}"

text \<open>\<open>str.casefold\<close> on Latin-1.\<close>

definition py_casefold :: "string \<Rightarrow> string" where
  "py_casefold s = concat (map (\<lambda>c. if code c = 223 then ''ss'' else [ch_lower_case c]) s)"

definition component_has_gui_window :: "component \<Rightarrow> bool" where
  "component_has_gui_window c \<longleftrightarrow>
     (let mode = py_casefold (py_strip (windowing_mode c));
          system = py_casefold (py_strip (py_str (jget_or (c_windowing c) ''system'' (JStr []))))
      in mode \<in> {''window'', ''fullscreen'', ''overlay''} \<or>
         (system \<in> {''x11'', ''wayland''} \<and> mode \<notin> {[], ''none'', ''headless''}) \<or>
         (case jget_null (c_raw c) ''x-msys-role-windows'' of JObj d \<Rightarrow> d \<noteq> [] | _ \<Rightarrow> False))"

definition is_launchable :: "component \<Rightarrow> bool" where
  "is_launchable c =
     (case jget_null (c_activation c) ''launchable'' of
        JNull \<Rightarrow>
          c_lifecycle c \<in> {''manual'', ''on-demand''} \<and> \<not> list_ex (\<lambda>p. pv_kind p = ''role'') (c_provides c) \<and>
          windowing_mode c \<in> {''window'', ''fullscreen''}
      | explicit \<Rightarrow> py_bool explicit)"

definition is_ordinary_application :: "component \<Rightarrow> bool" where
  "is_ordinary_application c \<longleftrightarrow>
     c_package_kind c = ''application'' \<and> c_lifecycle c \<in> {''manual'', ''on-demand''}"

definition safe_icon :: "json \<Rightarrow> jobj option" where
  "safe_icon v = (case v of
       JObj d \<Rightarrow> (case jget_null d ''path'' of
           JStr p \<Rightarrow>
             (let relative = removeprefix p ''@package/'' in
              if p = [] \<or> CHR 0x00 \<in> set p \<or> length p > 1024 then None
              else if path_root relative \<noteq> [] \<or> path_of relative = [] \<or> ''..'' \<in> set (path_of relative) then None
              else Some ([(''path'', JStr p)] @
                (case jget_null d ''size'' of JInt n \<Rightarrow> if 1 \<le> n \<and> n \<le> 4096 then [(''size'', JInt n)] else [] | _ \<Rightarrow> []) @
                (case jget_null d ''mime'' of
                   JStr m \<Rightarrow> if m \<noteq> [] \<and> CHR 0x00 \<notin> set m \<and> length m \<le> 128 then [(''mime'', JStr m)] else []
                 | _ \<Rightarrow> [])))
         | _ \<Rightarrow> None)
     | _ \<Rightarrow> None)"

definition safe_icon_declarations :: "json \<Rightarrow> jobj list" where
  "safe_icon_declarations raw = (case raw of JList xs \<Rightarrow> List.map_filter safe_icon (take 32 xs) | _ \<Rightarrow> [])"

section \<open>Restart and quarantine\<close>

definition is_restartable_system_provider :: "component \<Rightarrow> bool" where
  "is_restartable_system_provider c \<longleftrightarrow>
     c_package_kind c = ''system'' \<and> c_lifecycle c \<in> {''background'', ''session''} \<and>
     list_ex (\<lambda>p. pv_kind p \<in> {''role'', ''interface'', ''capability''}) (c_provides c)"

definition component_should_restart :: "component \<Rightarrow> int \<Rightarrow> bool" where
  "component_should_restart c rc \<longleftrightarrow>
     is_restartable_system_provider c \<and>
     (c_restart c = ''always'' \<or> (c_restart c = ''on-failure'' \<and> rc \<noteq> 0))"

record restart_budget =
  rb_history :: "(string, rat list) dict"
  rb_quarantined :: "string set"
  rb_quarantine_times :: "(string, rat) dict"

text \<open>\<open>blocked\<close>: a display outage blocks the component, so its budget is left alone.\<close>

definition record_component_failure ::
  "bool \<Rightarrow> string \<Rightarrow> rat \<Rightarrow> restart_budget \<Rightarrow> restart_budget \<times> rat option" where
  "record_component_failure blocked key now b =
     (if blocked then (b, None)
      else
        let failures = filter (\<lambda>x. now - x < 60) (dict_get_or (rb_history b) key []) @ [now];
            b' = b\<lparr>rb_history := AList.update key failures (rb_history b)\<rparr>
        in if length failures \<ge> 5
           then (b'\<lparr>rb_quarantined := insert key (rb_quarantined b'),
                    rb_quarantine_times := AList.update key now (rb_quarantine_times b')\<rparr>, None)
           else (b', Some (min 30 ((1 / 4) * 2 ^ (length failures - 1)))))"

definition failure_state :: "restart_budget \<Rightarrow> string \<Rightarrow> rat option \<Rightarrow> string option" where
  "failure_state b key delay =
     (case delay of Some _ \<Rightarrow> None
      | None \<Rightarrow> Some (if key \<in> rb_quarantined b then ''quarantined'' else ''display-wait''))"

section \<open>Foreground applications\<close>

record foreground =
  fg_stack :: "string list"
  fg_backgrounded :: "string set"

definition mark_foreground :: "string \<Rightarrow> foreground \<Rightarrow> foreground" where
  "mark_foreground key f =
     f\<lparr>fg_stack := key # filter (\<lambda>k. k \<noteq> key) (fg_stack f), fg_backgrounded := fg_backgrounded f - {key}\<rparr>"

definition forget_foreground :: "string \<Rightarrow> foreground \<Rightarrow> foreground" where
  "forget_foreground key f =
     (let stack = filter (\<lambda>k. k \<noteq> key) (fg_stack f); rest = fg_backgrounded f - {key}
      in f\<lparr>fg_stack := stack,
           fg_backgrounded := (if key \<in> fg_backgrounded f \<and> stack \<noteq> [] then insert (hd stack) rest else rest)\<rparr>)"

definition background_foreground :: "string \<Rightarrow> foreground \<Rightarrow> foreground \<times> bool \<times> bool" where
  "background_foreground key f =
     (if fg_stack f = [] \<or> hd (fg_stack f) \<noteq> key then (f, False, False)
      else (f\<lparr>fg_backgrounded := insert key (fg_backgrounded f)\<rparr>, True, key \<in> fg_backgrounded f))"

text \<open>The application in front: the first of the stack unless it is marked as backgrounded.\<close>

definition front_app :: "foreground \<Rightarrow> string option" where
  "front_app f = (case fg_stack f of [] \<Rightarrow> None | k # _ \<Rightarrow> if k \<in> fg_backgrounded f then None else Some k)"

section \<open>Memory pressure\<close>

record reclaim_policy =
  mr_enabled :: bool
  mr_available_kib :: int
  mr_poll_ms :: int
  mr_min_app_age_ms :: int

definition default_policy :: reclaim_policy where
  "default_policy = \<lparr>mr_enabled = False, mr_available_kib = 49152, mr_poll_ms = 2000, mr_min_app_age_ms = 15000\<rparr>"

definition policy_bounded :: "jobj \<Rightarrow> string \<Rightarrow> int \<Rightarrow> int \<Rightarrow> int \<Rightarrow> (py_error, int) result" where
  "policy_bounded raw name dflt minimum maximum =
     (case jget_or raw name (JInt dflt) of
        JInt v \<Rightarrow>
          if minimum \<le> v \<and> v \<le> maximum then Inr v
          else Inl (ValueError (''profile memory_reclaim.'' @ name @ '' must be between '' @ int_str minimum @ '' and '' @ int_str maximum))
      | _ \<Rightarrow> Inl (ValueError (''profile memory_reclaim.'' @ name @ '' must be an integer'')))"

definition policy_from_profile :: "jobj \<Rightarrow> (py_error, reclaim_policy) result" where
  "policy_from_profile profile =
     (let raw = (case jget_or profile ''settings'' (JObj []) of
                   JObj settings \<Rightarrow> jget_or settings ''memory_reclaim'' (JObj []) | _ \<Rightarrow> JObj [])
      in case raw of
        JNull \<Rightarrow> Inr default_policy
      | JObj d \<Rightarrow>
          if d = [] then Inr default_policy
          else
            let unknown = sort (filter (\<lambda>k. k \<notin> {''enabled'', ''available_kib'', ''poll_ms'', ''min_app_age_ms''}) (dict_keys d))
            in if unknown \<noteq> [] then
                 Inl (ValueError (''profile settings.memory_reclaim has unknown fields: '' @ py_join '', '' unknown))
               else (case jget_or d ''enabled'' (JBool True) of
                  JBool enabled \<Rightarrow>
                    rbind (policy_bounded d ''available_kib'' 49152 8192 1048576) (\<lambda>available_kib.
                    rbind (policy_bounded d ''poll_ms'' 2000 500 60000) (\<lambda>poll_ms.
                    rbind (policy_bounded d ''min_app_age_ms'' 15000 0 3600000) (\<lambda>min_app_age_ms.
                      Inr \<lparr>mr_enabled = enabled, mr_available_kib = available_kib, mr_poll_ms = poll_ms,
                           mr_min_app_age_ms = min_app_age_ms\<rparr>)))
                | _ \<Rightarrow> Inl (ValueError ''profile memory_reclaim.enabled must be a boolean''))
      | _ \<Rightarrow> Inl (ValueError ''profile settings.memory_reclaim must be an object''))"

text \<open>The lines of \<open>meminfo\<close>; \<open>None\<close> for a file that cannot be read as ASCII.\<close>

fun mem_available_in :: "string list \<Rightarrow> int option" where
  "mem_available_in [] = None"
| "mem_available_in (line # lines) =
     (case split_once CHR '':'' line of
        (name, Some v) \<Rightarrow>
          if name \<noteq> ''MemAvailable'' then mem_available_in lines
          else (case split_ws v of
                  [amount, unit] \<Rightarrow>
                    if unit \<noteq> ''kB'' \<or> \<not> py_isascii amount then None
                    else (case parse_int amount of Some n \<Rightarrow> if n \<ge> 0 then Some n else None | None \<Rightarrow> None)
                | _ \<Rightarrow> None)
      | (_, None) \<Rightarrow> mem_available_in lines)"

definition read_mem_available_kib :: "string option \<Rightarrow> int option" where
  "read_mem_available_kib txt = Option.bind txt (\<lambda>t. mem_available_in (splitlines t))"

text \<open>
  A supervised process generation, with what the policies read of it.  \<open>in_oid\<close> identifies the object
  (the source compares instances with \<open>is\<close>); \<open>in_exit\<close> is what \<open>process.poll()\<close> returns.
\<close>

record inst =
  in_oid :: nat
  in_component :: component
  in_generation :: int
  in_pid :: "int option"
  in_exit :: "int option"
  in_state :: string
  in_ready :: bool
  in_finalized :: bool
  in_started_at :: rat

definition process_alive :: "inst \<Rightarrow> bool" where
  "process_alive i \<longleftrightarrow> in_pid i \<noteq> None \<and> in_exit i = None"

definition reclaimable :: "rat \<Rightarrow> rat \<Rightarrow> inst \<Rightarrow> bool" where
  "reclaimable now minimum_age i \<longleftrightarrow>
     \<not> in_finalized i \<and> process_alive i \<and> is_foreground_app (in_component i) \<and> now - in_started_at i \<ge> minimum_age"

definition memory_reclaim_candidate ::
  "reclaim_policy \<Rightarrow> foreground \<Rightarrow> (string, inst) dict \<Rightarrow> rat \<Rightarrow> inst option" where
  "memory_reclaim_candidate policy f instances now =
     Option.bind
       (find (\<lambda>key. Some key \<noteq> front_app f \<and>
                (case map_of instances key of
                   None \<Rightarrow> False | Some i \<Rightarrow> reclaimable now (of_int (mr_min_app_age_ms policy) / 1000) i))
          (rev (fg_stack f)))
       (map_of instances)"

text \<open>One round of the reclaim loop: the instance to stop, when memory is below the threshold.\<close>

definition reclaim_round ::
  "reclaim_policy \<Rightarrow> string option \<Rightarrow> foreground \<Rightarrow> (string, inst) dict \<Rightarrow> rat \<Rightarrow> inst option" where
  "reclaim_round policy meminfo f instances now =
     (case read_mem_available_kib meminfo of
        None \<Rightarrow> None
      | Some available \<Rightarrow>
          if available \<ge> mr_available_kib policy then None
          else memory_reclaim_candidate policy f instances now)"

section \<open>The restart budget\<close>

text \<open>The supervisor's bookkeeping after the failures of one component at the times \<open>ts\<close>.\<close>

definition fail_run :: "string \<Rightarrow> rat list \<Rightarrow> restart_budget \<Rightarrow> restart_budget" where
  "fail_run key ts b = fold (\<lambda>t b. fst (record_component_failure False key t b)) ts b"

definition recent :: "rat \<Rightarrow> rat list \<Rightarrow> rat list" where
  "recent now ts = filter (\<lambda>x. now - x < 60) ts"

lemma recent_recent: "u \<le> t \<Longrightarrow> recent t (recent u ts) = recent t ts"
  by (auto simp: recent_def intro!: filter_cong)

lemma recent_self: "recent t (ts @ [t]) = recent t ts @ [t]"
  by (simp add: recent_def)

lemma failure_history:
  "dict_get_or (rb_history (fst (record_component_failure False key t b))) key [] =
     recent t (dict_get_or (rb_history b) key []) @ [t]"
  by (simp add: record_component_failure_def Let_def recent_def dict_get_or_def dict_simps)

lemma failure_quarantine:
  "key \<in> rb_quarantined (fst (record_component_failure False key t b)) \<longleftrightarrow>
     key \<in> rb_quarantined b \<or> 5 \<le> length (recent t (dict_get_or (rb_history b) key []) @ [t])"
  by (simp add: record_component_failure_def Let_def recent_def)

lemma history_run:
  assumes "map_of (rb_history b) key = None" and "sorted ts"
  shows "dict_get_or (rb_history (fail_run key ts b)) key [] = (if ts = [] then [] else recent (last ts) ts)"
  using assms(2)
proof (induction ts rule: rev_induct)
  case Nil
  then show ?case using assms(1) by (simp add: fail_run_def dict_get_or_def)
next
  case (snoc t ts)
  have run: "fail_run key (ts @ [t]) b = fst (record_component_failure False key t (fail_run key ts b))"
    by (simp add: fail_run_def)
  show ?case
  proof (cases "ts = []")
    case True
    with snoc have "dict_get_or (rb_history (fail_run key [] b)) key [] = []" by simp
    with True run show ?thesis by (simp add: failure_history recent_def)
  next
    case False
    then have "last ts \<le> t" using snoc.prems by (simp add: sorted_append)
    with False snoc show ?thesis
      by (simp add: run failure_history recent_recent recent_self sorted_append)
  qed
qed

lemma history_at:
  assumes "map_of (rb_history b) key = None" and "sorted (ts @ [t])"
  shows "recent t (dict_get_or (rb_history (fail_run key ts b)) key []) = recent t ts"
proof (cases "ts = []")
  case False
  then have "last ts \<le> t" using assms(2) by (simp add: sorted_append)
  then show ?thesis using history_run [OF assms(1), of ts] assms(2) False by (simp add: sorted_append recent_recent)
qed (use history_run [OF assms(1), of ts] in \<open>simp add: recent_def\<close>)

text \<open>Five failures within a minute, ending at one of the recorded times.\<close>

definition burst :: "rat list \<Rightarrow> bool" where
  "burst ts \<longleftrightarrow> (\<exists>us u vs. ts = us @ u # vs \<and> 5 \<le> length (recent u (us @ [u])))"

lemma burst_snoc: "burst (ts @ [t]) \<longleftrightarrow> burst ts \<or> 5 \<le> length (recent t (ts @ [t]))"
proof
  assume "burst (ts @ [t])"
  then obtain us u vs where e: "ts @ [t] = us @ u # vs" and l: "5 \<le> length (recent u (us @ [u]))"
    unfolding burst_def by blast
  show "burst ts \<or> 5 \<le> length (recent t (ts @ [t]))"
  proof (cases vs rule: rev_cases)
    case Nil
    with e l show ?thesis by simp
  next
    case (snoc vs' v)
    with e have "ts = us @ u # vs'" by simp
    with l show ?thesis unfolding burst_def by blast
  qed
next
  assume "burst ts \<or> 5 \<le> length (recent t (ts @ [t]))"
  then show "burst (ts @ [t])"
  proof
    assume "burst ts"
    then obtain us u vs where "ts @ [t] = us @ u # (vs @ [t])" "5 \<le> length (recent u (us @ [u]))"
      unfolding burst_def by fastforce
    then show ?thesis unfolding burst_def by blast
  qed (auto simp: burst_def)
qed

lemma quarantine_run:
  assumes "map_of (rb_history b) key = None" and "sorted ts"
  shows "key \<in> rb_quarantined (fail_run key ts b) \<longleftrightarrow> key \<in> rb_quarantined b \<or> burst ts"
  using assms(2)
proof (induction ts rule: rev_induct)
  case Nil
  then show ?case by (simp add: fail_run_def burst_def)
next
  case (snoc t ts)
  have "fail_run key (ts @ [t]) b = fst (record_component_failure False key t (fail_run key ts b))"
    by (simp add: fail_run_def)
  then show ?case
    using snoc history_at [OF assms(1) snoc.prems]
    by (simp add: failure_quarantine burst_snoc recent_self sorted_append)
qed

text \<open>
  C28. The restart budget: whatever the earlier failures, a component is quarantined exactly when five
  of its failures fell within a minute; any other failure is answered with a restart after a quarter of
  a second doubled for each failure of the last minute, so never after more than two seconds.
\<close>

theorem restart_budget_exact:
  assumes "map_of (rb_history b) key = None" and "sorted (ts @ [t])"
  defines "n \<equiv> length (recent t (ts @ [t]))"
  defines "r \<equiv> record_component_failure False key t (fail_run key ts b)"
  shows "snd r = (if n \<ge> 5 then None else Some ((1 / 4) * 2 ^ (n - 1))) \<and>
    (\<forall>d. snd r = Some d \<longrightarrow> 1 / 4 \<le> d \<and> d \<le> 2) \<and>
    (key \<in> rb_quarantined (fst r) \<longleftrightarrow> key \<in> rb_quarantined b \<or> burst (ts @ [t]))"
proof -
  have h: "length (recent t (dict_get_or (rb_history (fail_run key ts b)) key []) @ [t]) = n"
    using history_at [OF assms(1,2)] by (simp add: n_def recent_self)
  have n: "1 \<le> n" by (simp add: n_def recent_self)
  have d: "snd r = (if n \<ge> 5 then None else Some (min 30 ((1 / 4) * 2 ^ (n - 1))))"
    using h by (simp add: r_def record_component_failure_def Let_def recent_def)
  have "n = 1 \<or> n = 2 \<or> n = 3 \<or> n = 4" if "\<not> n \<ge> 5" using that n by auto
  then have b: "n \<ge> 5 \<or> min 30 ((1 / 4) * 2 ^ (n - 1)) = (1 / 4 :: rat) * 2 ^ (n - 1) \<and>
      1 / 4 \<le> (1 / 4 :: rat) * 2 ^ (n - 1) \<and> (1 / 4 :: rat) * 2 ^ (n - 1) \<le> 2" by auto
  have "fst r = fail_run key (ts @ [t]) b" by (simp add: r_def fail_run_def)
  then have "key \<in> rb_quarantined (fst r) \<longleftrightarrow> key \<in> rb_quarantined b \<or> burst (ts @ [t])"
    using quarantine_run [OF assms(1,2)] by simp
  with d b show ?thesis by auto
qed

theorem restart_budget_exact_witness:
  "snd (record_component_failure False ''wm'' 70
     (fail_run ''wm'' [1, 20, 30] \<lparr>rb_history = [], rb_quarantined = {}, rb_quarantine_times = []\<rparr>)) = Some 1"
proof -
  let ?b = "\<lparr>rb_history = [], rb_quarantined = {}, rb_quarantine_times = []\<rparr> :: restart_budget"
  have "map_of (rb_history ?b) ''wm'' = None" "sorted ([1, 20, 30 :: rat] @ [70])" by simp_all
  from restart_budget_exact [OF this] show ?thesis by (simp add: recent_def)
qed

section \<open>The foreground stack\<close>

inductive fg_step :: "foreground \<Rightarrow> foreground \<Rightarrow> bool" where
  step_mark: "fg_step f (mark_foreground key f)"
| step_forget: "fg_step f (forget_foreground key f)"
| step_background: "fg_step f (fst (background_foreground key f))"

inductive_cases fg_stepE: "fg_step f g"

definition fg_inv :: "foreground \<Rightarrow> bool" where
  "fg_inv f \<longleftrightarrow> distinct (fg_stack f) \<and> fg_backgrounded f \<subseteq> set (fg_stack f)"

lemma mark_inv: "fg_inv f \<Longrightarrow> fg_inv (mark_foreground key f)"
  by (auto simp: fg_inv_def mark_foreground_def)

lemma forget_inv: "fg_inv f \<Longrightarrow> fg_inv (forget_foreground key f)"
proof -
  let ?s = "filter (\<lambda>k. k \<noteq> key) (fg_stack f)"
  assume "fg_inv f"
  then have "distinct ?s" "fg_backgrounded f - {key} \<subseteq> set ?s" by (auto simp: fg_inv_def)
  moreover have "?s \<noteq> [] \<Longrightarrow> hd ?s \<in> set ?s" by (rule hd_in_set)
  ultimately show ?thesis unfolding fg_inv_def forget_foreground_def Let_def by simp
qed

lemma background_inv: "fg_inv f \<Longrightarrow> fg_inv (fst (background_foreground key f))"
  by (cases "fg_stack f") (auto simp: fg_inv_def background_foreground_def)

lemma fg_step_inv: "fg_inv f \<Longrightarrow> fg_step f g \<Longrightarrow> fg_inv g"
  by (erule fg_stepE) (simp_all add: mark_inv forget_inv background_inv)

interpretation fg: invariant_system "\<lambda>f. fg_stack f = [] \<and> fg_backgrounded f = {}" fg_step fg_inv
proof unfold_locales
  show "fg_inv f" if "fg_stack f = [] \<and> fg_backgrounded f = {}" for f using that by (simp add: fg_inv_def)
qed (rule fg_step_inv)

lemma mark_front: "front_app (mark_foreground key f) = Some key"
  by (simp add: front_app_def mark_foreground_def)

text \<open>
  C39. The death of a hidden application can hide the visible one from the policies: when \<open>b\<close> is opened and
  hidden with Home, \<open>a\<close> is opened and then \<open>b\<close> exits, \<open>a\<close> stays first of the stack and is marked as
  backgrounded, so it no longer counts as the application in front.
\<close>

theorem forget_hides_front_app:
  "\<exists>f a b. fg_step\<^sup>*\<^sup>* \<lparr>fg_stack = [], fg_backgrounded = {}\<rparr> f \<and> a \<noteq> b \<and> front_app f = Some a \<and>
     fg_stack (forget_foreground b f) = [a] \<and> front_app (forget_foreground b f) = None"
proof -
  let ?f1 = "mark_foreground ''b'' \<lparr>fg_stack = [], fg_backgrounded = {}\<rparr>"
  let ?f2 = "fst (background_foreground ''b'' ?f1)"
  let ?f = "mark_foreground ''a'' ?f2"
  have "fg_step \<lparr>fg_stack = [], fg_backgrounded = {}\<rparr> ?f1" "fg_step ?f1 ?f2" "fg_step ?f2 ?f"
    by (rule fg_step.intros)+
  then have "fg_step\<^sup>*\<^sup>* \<lparr>fg_stack = [], fg_backgrounded = {}\<rparr> ?f"
    by (meson converse_rtranclp_into_rtranclp r_into_rtranclp)
  moreover have "''a'' \<noteq> ''b'' \<and> front_app ?f = Some ''a'' \<and> fg_stack (forget_foreground ''b'' ?f) = [''a''] \<and>
      front_app (forget_foreground ''b'' ?f) = None" by code_simp
  ultimately show ?thesis by (intro exI [of _ ?f] exI [of _ "''a''"] exI [of _ "''b''"]) (rule conjI)
qed

section \<open>What a reclaim may stop\<close>

lemma find_rev_Some:
  "find P (rev xs) = Some k \<Longrightarrow> P k \<and> (\<exists>ys zs. xs = ys @ k # zs \<and> (\<forall>z \<in> set zs. \<not> P z))"
proof (induction xs rule: rev_induct)
  case (snoc x xs)
  show ?case
  proof (cases "P x")
    case True
    with snoc.prems have "x = k" by simp
    with True show ?thesis by (intro conjI exI [of _ xs] exI [of _ "[]"]) simp_all
  next
    case False
    with snoc obtain ys zs where "xs = ys @ k # zs" "\<forall>z \<in> set zs. \<not> P z" "P k" by auto
    with False show ?thesis by (intro conjI exI [of _ ys] exI [of _ "zs @ [x]"]) auto
  qed
qed simp


definition demo_app :: component where
  "demo_app = snd (hd (projr (load_manifests (\<lambda>_. Inr (JObj
     [(''schema'', JStr ''msys.manifest.v1''), (''package'', JObj [(''id'', JStr ''p'')]),
      (''components'', JList [JObj [(''id'', JStr ''a''), (''exec'', JList []), (''lifecycle'', JStr ''manual''),
         (''windowing'', JObj [(''mode'', JStr ''window'')])]])]))
     [[''m.json'']] [])))"

definition demo_inst :: "nat \<Rightarrow> inst" where
  "demo_inst n = \<lparr>in_oid = n, in_component = demo_app, in_generation = 1, in_pid = Some 100, in_exit = None,
     in_state = ''ready'', in_ready = True, in_finalized = False, in_started_at = 0\<rparr>"


end
