(* ===== verification/Forwarding.thy ===== *)
theory Forwarding
  imports Manifest Py_Text Py_Regex
begin

text \<open>
  Forwarding of calls to a provider and its idle accounting (\<open>_forward_call\<close>, \<open>_begin_forward_call\<close>,
  \<open>_finish_forward_call\<close> and the idle timer of \<open>Msysd\<close> in \<open>msys_core/msysd.py\<close>).  Coroutines interleave at
  their awaits, so a call is two steps: everything up to the await of the response, and everything
  after it.  The state is one provider generation together with the request counter.  Times are
  exact rationals of seconds; an idle timer is identified by the number of its task.

  The lemmas show, for every interleaving, that the accounting never underflows, that request numbers
  are never shared, and that the timer never stops a provider while a call is in progress.
\<close>

section \<open>Deadlines\<close>

definition MAX_FORWARD_TIMEOUT_SECONDS :: rat where "MAX_FORWARD_TIMEOUT_SECONDS = 300"

definition CALL_DEADLINE_EXPIRED_MESSAGE :: string where
  "CALL_DEADLINE_EXPIRED_MESSAGE = ''call deadline already expired''"

definition clamp_timeout :: "rat \<Rightarrow> rat \<Rightarrow> rat" where
  "clamp_timeout minimum v = min MAX_FORWARD_TIMEOUT_SECONDS (max minimum v)"

text \<open>
  \<open>float(raw)\<close> overflows for integers that round beyond the largest float.  An infinite deadline is
  clamped; \<open>max(0.0, nan)\<close> is \<open>0.0\<close>.
\<close>

definition forwarded_timeout_seconds :: "rat \<Rightarrow> jobj \<Rightarrow> rat \<Rightarrow> (py_error, rat) result" where
  "forwarded_timeout_seconds now message dflt =
     (case jget_null message ''deadline_ms'' of
        JInt i \<Rightarrow> if \<bar>i\<bar> \<ge> 2 ^ 1024 - 2 ^ 970 then Inl OverflowError
                  else Inr (clamp_timeout 0 (of_int i / 1000 - now))
      | JFloat (PFin q _) \<Rightarrow> Inr (clamp_timeout 0 (q / 1000 - now))
      | JFloat (PInf negative) \<Rightarrow> Inr (if negative then 0 else MAX_FORWARD_TIMEOUT_SECONDS)
      | JFloat PNan \<Rightarrow> Inr 0
      | _ \<Rightarrow> Inr (clamp_timeout (1 / 1000) dflt))"

definition expired_before_provider_delivery :: "jobj \<Rightarrow> bool" where
  "expired_before_provider_delivery response \<longleftrightarrow>
     jget_null response ''type'' = JStr ''error'' \<and> jget_null response ''code'' = JStr ''CALL_TIMEOUT'' \<and>
     jget_null response ''message'' = JStr CALL_DEADLINE_EXPIRED_MESSAGE"

section \<open>Providers\<close>

text \<open>
  \<open>fw_registered\<close>: the instance table still holds this very instance.  \<open>fw_outstanding\<close> lists the calls
  whose coroutine is between its begin and its \<open>finally\<close>; the source has no such field.
\<close>

record provider =
  fw_component :: component
  fw_sock :: bool
  fw_ready :: bool
  fw_finalized :: bool
  fw_registered :: bool
  fw_stopping :: bool
  fw_stop_requested :: bool
  fw_in_flight_calls :: int
  fw_idle_task :: "nat option"
  fw_next_task :: nat
  fw_done_tasks :: "nat set"
  fw_pending_calls :: "int list"
  fw_outstanding :: "int list"
  fw_next_request_id :: int

definition idle_timeout_seconds :: "component \<Rightarrow> rat option" where
  "idle_timeout_seconds c =
     (if c_lifecycle c \<noteq> ''on-demand'' then None
      else map_option (\<lambda>ms. of_int ms / 1000) (c_idle_timeout_ms c))"

definition cancel_idle_task :: "'a provider_scheme \<Rightarrow> 'a provider_scheme" where
  "cancel_idle_task p = p\<lparr>fw_idle_task := None\<rparr>"

definition idle_eligible :: "'a provider_scheme \<Rightarrow> bool" where
  "idle_eligible p \<longleftrightarrow>
     fw_in_flight_calls p = 0 \<and> fw_ready p \<and> \<not> fw_finalized p \<and> fw_registered p \<and> \<not> fw_stopping p \<and> \<not> fw_stop_requested p"

definition schedule_idle_task :: "'a provider_scheme \<Rightarrow> 'a provider_scheme" where
  "schedule_idle_task p =
     (if idle_timeout_seconds (fw_component p) = None \<or> \<not> idle_eligible p then p
      else case fw_idle_task p of
        Some t \<Rightarrow> if t \<notin> fw_done_tasks p then p
                 else p\<lparr>fw_idle_task := Some (fw_next_task p), fw_next_task := fw_next_task p + 1\<rparr>
      | None \<Rightarrow> p\<lparr>fw_idle_task := Some (fw_next_task p), fw_next_task := fw_next_task p + 1\<rparr>)"

definition begin_forward_call :: "provider \<Rightarrow> provider" where
  "begin_forward_call p = cancel_idle_task (p\<lparr>fw_in_flight_calls := fw_in_flight_calls p + 1\<rparr>)"

definition finish_forward_call :: "provider \<Rightarrow> provider" where
  "finish_forward_call p =
     (if fw_in_flight_calls p \<le> 0 then p\<lparr>fw_in_flight_calls := 0\<rparr>
      else
        let p' = p\<lparr>fw_in_flight_calls := fw_in_flight_calls p - 1\<rparr>
        in if fw_in_flight_calls p' = 0 then schedule_idle_task p' else p')"

text \<open>
  The timer after its sleep: whether it goes on to \<open>stop_component\<close>.  That call awaits, so the \<open>finally\<close>, which
  disowns the task, is a step of its own.
\<close>

definition idle_stop_after :: "nat \<Rightarrow> provider \<Rightarrow> bool" where
  "idle_stop_after t p \<longleftrightarrow> fw_idle_task p = Some t \<and> idle_eligible p"

definition idle_stop_finally :: "nat \<Rightarrow> provider \<Rightarrow> provider" where
  "idle_stop_finally t p =
     p\<lparr>fw_done_tasks := insert t (fw_done_tasks p),
       fw_idle_task := (if fw_idle_task p = Some t then None else fw_idle_task p)\<rparr>"

section \<open>A forwarded call\<close>

definition MAX_LOGICAL_TARGET_LENGTH :: nat where "MAX_LOGICAL_TARGET_LENGTH = 192"

definition LOGICAL_TARGET_PATTERN :: rx where
  "LOGICAL_TARGET_PATTERN =
     RSeq (rx_alts [rx_lit ''role'', rx_lit ''interface'', rx_lit ''component''])
       (RSeq (rx_char CHR '':'')
         (RSeq (RCls [AZ, az, d09])
           (rx_upto (MAX_LOGICAL_TARGET_LENGTH - 2)
             (RCls [AZ, az, d09, one CHR ''.'', one CHR ''_'', one CHR '':'', one CHR ''-'']))))"

definition call_error :: "json \<Rightarrow> string \<Rightarrow> string option \<Rightarrow> jobj" where
  "call_error rid error_code message =
     [(''type'', JStr ''error''), (''id'', rid), (''code'', JStr error_code)] @
     (case message of None \<Rightarrow> [] | Some m \<Rightarrow> [(''message'', JStr m)])"

definition forwarded_message :: "component \<Rightarrow> jobj \<Rightarrow> string \<Rightarrow> int \<Rightarrow> jobj" where
  "forwarded_message c msg source rid =
     [(''type'', JStr ''call''), (''id'', JInt rid), (''target'', JStr (component_key c)),
      (''method'', jget_null msg ''method''), (''payload'', jget_or msg ''payload'' (JObj [])), (''source'', JStr source)] @
     (case jget_null msg ''target'' of
        JStr t \<Rightarrow> if length t \<le> MAX_LOGICAL_TARGET_LENGTH \<and> fullmatch LOGICAL_TARGET_PATTERN t
                 then [(''logical_target'', JStr t)] else []
      | _ \<Rightarrow> []) @
     (if dict_has msg ''deadline_ms'' then [(''deadline_ms'', jget_null msg ''deadline_ms'')] else [])"

text \<open>What the first half of the coroutine ends in; only \<open>Awaiting\<close> leaves the call in progress.\<close>

datatype forward_start =
    Refused jobj
  | Raises py_error
  | Expired jobj
  | Awaiting int int jobj rat

definition forward_finally :: "int option \<Rightarrow> provider \<Rightarrow> provider" where
  "forward_finally rid p =
     finish_forward_call (case rid of
        None \<Rightarrow> p | Some r \<Rightarrow> p\<lparr>fw_pending_calls := removeAll r (fw_pending_calls p)\<rparr>)"

definition forward_begin :: "rat \<Rightarrow> jobj \<Rightarrow> string \<Rightarrow> provider \<Rightarrow> provider \<times> forward_start" where
  "forward_begin now msg source p =
     (if \<not> fw_sock p \<or> \<not> fw_registered p
      then (p, Refused (call_error (jget_or msg ''id'' (JInt 0)) ''NO_PROVIDER_SOCKET'' None))
      else
        let p1 = begin_forward_call p in
        case py_int_of (jget_or msg ''id'' (JInt 0)) of
          Inl e \<Rightarrow> (forward_finally None p1, Raises e)
        | Inr public_id \<Rightarrow>
            let rid = fw_next_request_id p1;
                p2 = p1\<lparr>fw_next_request_id := rid + 1, fw_pending_calls := fw_pending_calls p1 @ [rid]\<rparr>
            in case forwarded_timeout_seconds now msg 5 of
                 Inl e \<Rightarrow> (forward_finally (Some rid) p2, Raises e)
               | Inr timeout \<Rightarrow>
                   if timeout \<le> 0
                   then (forward_finally (Some rid) p2,
                         Expired (call_error (JInt public_id) ''CALL_TIMEOUT'' (Some CALL_DEADLINE_EXPIRED_MESSAGE)))
                   else (p2\<lparr>fw_outstanding := fw_outstanding p2 @ [rid]\<rparr>,
                         Awaiting rid public_id (forwarded_message (fw_component p) msg source rid) timeout))"

text \<open>\<open>Aborted\<close>: an exception the coroutine does not catch, a cancellation among them, passes through its \<open>finally\<close>.\<close>

datatype forward_outcome = Replied jobj | TimedOut | SendFailed string | Aborted

definition forward_response :: "component \<Rightarrow> int \<Rightarrow> forward_outcome \<Rightarrow> jobj option" where
  "forward_response c public_id outcome = (case outcome of
       Replied response \<Rightarrow> Some (AList.update ''id'' (JInt public_id) response)
     | TimedOut \<Rightarrow> Some (call_error (JInt public_id) ''CALL_TIMEOUT'' (Some (component_key c)))
     | SendFailed e \<Rightarrow> Some (call_error (JInt public_id) ''CALL_SEND_FAILED'' (Some e))
     | Aborted \<Rightarrow> None)"

definition forward_end :: "int \<Rightarrow> int \<Rightarrow> forward_outcome \<Rightarrow> provider \<Rightarrow> provider \<times> jobj option" where
  "forward_end rid public_id outcome p =
     (forward_finally (Some rid) (p\<lparr>fw_outstanding := removeAll rid (fw_outstanding p)\<rparr>),
      forward_response (fw_component p) public_id outcome)"

text \<open>\<open>_close_instance_channel\<close>: every pending call is answered and forgotten, and the socket closed.\<close>

definition close_instance_channel :: "string \<Rightarrow> 'a provider_scheme \<Rightarrow> 'a provider_scheme \<times> jobj list" where
  "close_instance_channel error_code p =
     (p\<lparr>fw_pending_calls := [], fw_sock := False\<rparr>,
      map (\<lambda>r. call_error (JInt r) error_code (Some (component_key (fw_component p)))) (fw_pending_calls p))"

section \<open>All interleavings\<close>

inductive fw_step :: "provider \<Rightarrow> provider \<Rightarrow> bool" where
  begin_call: "fw_step p (fst (forward_begin now msg source p))"
| end_call: "rid \<in> set (fw_outstanding p) \<Longrightarrow> fw_step p (fst (forward_end rid public_id outcome p))"
| timer: "t < fw_next_task p \<Longrightarrow> fw_step p (idle_stop_finally t p)"
| became_ready: "fw_step p (schedule_idle_task (p\<lparr>fw_ready := True\<rparr>))"
| cancel_tasks: "fw_step p (cancel_idle_task p)"
| close_channel: "fw_step p (fst (close_instance_channel error_code p))"
| flags: "fw_step p (p\<lparr>fw_ready := r, fw_finalized := f, fw_registered := g, fw_stopping := s, fw_stop_requested := q\<rparr>)"

inductive_cases fw_stepE: "fw_step p q"

definition fw_init :: "provider \<Rightarrow> bool" where
  "fw_init p \<longleftrightarrow>
     fw_in_flight_calls p = 0 \<and> fw_idle_task p = None \<and> fw_done_tasks p = {} \<and> fw_pending_calls p = [] \<and> fw_outstanding p = []"

definition fw_inv :: "provider \<Rightarrow> bool" where
  "fw_inv p \<longleftrightarrow>
     fw_in_flight_calls p = int (length (fw_outstanding p)) \<and> distinct (fw_outstanding p) \<and>
     set (fw_pending_calls p) \<subseteq> set (fw_outstanding p) \<and> (\<forall>r \<in> set (fw_outstanding p). r < fw_next_request_id p) \<and>
     (\<forall>t \<in> fw_done_tasks p. t < fw_next_task p) \<and>
     (\<forall>t. fw_idle_task p = Some t \<longrightarrow> t < fw_next_task p \<and> t \<notin> fw_done_tasks p \<and> fw_outstanding p = [])"

lemma schedule_inv: "fw_inv p \<Longrightarrow> fw_inv (schedule_idle_task p)"
  by (auto simp: fw_inv_def schedule_idle_task_def idle_eligible_def split: option.splits)

lemma schedule_keeps [simp]:
  "fw_outstanding (schedule_idle_task p) = fw_outstanding p" "fw_next_request_id (schedule_idle_task p) = fw_next_request_id p"
  "fw_pending_calls (schedule_idle_task p) = fw_pending_calls p"
  by (simp_all add: schedule_idle_task_def split: option.splits)

text \<open>Between the begin of a call and its \<open>finally\<close> the counter is one ahead of the other calls, and no timer is armed.\<close>

definition fw_busy :: "provider \<Rightarrow> bool" where
  "fw_busy p \<longleftrightarrow> fw_idle_task p = None \<and> 0 < fw_in_flight_calls p \<and> fw_inv (p\<lparr>fw_in_flight_calls := fw_in_flight_calls p - 1\<rparr>)"

lemma finish_inv: "fw_busy p \<Longrightarrow> fw_inv (finish_forward_call p)"
  by (auto simp: fw_busy_def finish_forward_call_def Let_def intro: schedule_inv)

lemma finally_inv:
  assumes "fw_idle_task p = None" and "0 < fw_in_flight_calls p"
    and "fw_inv (p\<lparr>fw_pending_calls := removeAll r (fw_pending_calls p),
                   fw_in_flight_calls := fw_in_flight_calls p - 1\<rparr>)"
  shows "fw_inv (forward_finally (Some r) p)"
  using assms by (auto simp: forward_finally_def fw_busy_def intro!: finish_inv)

lemma begin_busy: "fw_inv p \<Longrightarrow> fw_busy (begin_forward_call p)"
  by (auto simp: fw_busy_def begin_forward_call_def cancel_idle_task_def fw_inv_def)

lemma begin_simps [simp]:
  "fw_idle_task (begin_forward_call p) = None" "fw_in_flight_calls (begin_forward_call p) = fw_in_flight_calls p + 1"
  "fw_pending_calls (begin_forward_call p) = fw_pending_calls p" "fw_outstanding (begin_forward_call p) = fw_outstanding p"
  "fw_next_request_id (begin_forward_call p) = fw_next_request_id p" "fw_done_tasks (begin_forward_call p) = fw_done_tasks p"
  "fw_next_task (begin_forward_call p) = fw_next_task p"
  by (simp_all add: begin_forward_call_def cancel_idle_task_def)

lemma forward_begin_inv:
  assumes "fw_inv p"
  shows "fw_inv (fst (forward_begin now msg source p))"
proof -
  let ?p1 = "begin_forward_call p" and ?r = "fw_next_request_id p"
  let ?p2 = "?p1\<lparr>fw_next_request_id := ?r + 1, fw_pending_calls := fw_pending_calls p @ [?r]\<rparr>"
  have none: "fw_inv (forward_finally None ?p1)"
    using begin_busy [OF assms] by (simp add: forward_finally_def finish_inv)
  have fresh: "?r \<notin> set (fw_pending_calls p)" using assms by (auto simp: fw_inv_def)
  have undone: "fw_inv (forward_finally (Some ?r) ?p2)"
    by (rule finally_inv) (use assms fresh in \<open>auto simp: fw_inv_def\<close>)
  have sent: "fw_inv (?p2\<lparr>fw_outstanding := fw_outstanding p @ [?r]\<rparr>)"
    using assms by (auto simp: fw_inv_def)
  show ?thesis
    using assms none undone sent
    by (simp add: forward_begin_def Let_def split: sum.split)
qed

lemma length_removeAll_distinct: "distinct xs \<Longrightarrow> x \<in> set xs \<Longrightarrow> length xs = Suc (length (removeAll x xs))"
  by (induction xs) auto

lemma forward_end_inv:
  assumes inv: "fw_inv p" and r: "rid \<in> set (fw_outstanding p)"
  shows "fw_inv (fst (forward_end rid public_id outcome p))"
proof -
  have len: "length (fw_outstanding p) = Suc (length (removeAll rid (fw_outstanding p)))"
    by (rule length_removeAll_distinct) (use inv r in \<open>auto simp: fw_inv_def\<close>)
  have idle: "fw_idle_task p = None" using inv r by (cases "fw_idle_task p") (auto simp: fw_inv_def)
  show ?thesis
    unfolding forward_end_def fst_conv
    by (rule finally_inv) (use inv len idle in \<open>auto simp: fw_inv_def distinct_removeAll\<close>)
qed

lemma fw_step_inv: "fw_inv p \<Longrightarrow> fw_step p q \<Longrightarrow> fw_inv q"
proof (erule fw_stepE)
  show "fw_inv q" if "fw_inv p" "q = fst (forward_begin now msg source p)" for now msg source
    using that forward_begin_inv by simp
  show "fw_inv q" if "fw_inv p" "rid \<in> set (fw_outstanding p)" "q = fst (forward_end rid i out p)" for rid i out
    using that forward_end_inv by simp
  show "fw_inv q" if "fw_inv p" "t < fw_next_task p" "q = idle_stop_finally t p" for t
    using that by (auto simp: idle_stop_finally_def fw_inv_def)
  show "fw_inv q" if "fw_inv p" "q = schedule_idle_task (p\<lparr>fw_ready := True\<rparr>)"
    unfolding that(2) by (rule schedule_inv) (use that(1) in \<open>simp add: fw_inv_def\<close>)
qed (auto simp: fw_inv_def cancel_idle_task_def close_instance_channel_def)

interpretation fw: invariant_system fw_init fw_step fw_inv
proof unfold_locales
  show "fw_inv p" if "fw_init p" for p using that by (simp add: fw_init_def fw_inv_def)
qed (rule fw_step_inv)

lemma timeout_bounds:
  "forwarded_timeout_seconds now msg d = Inr r \<Longrightarrow> 0 \<le> r \<and> r \<le> MAX_FORWARD_TIMEOUT_SECONDS"
  by (auto simp: forwarded_timeout_seconds_def clamp_timeout_def MAX_FORWARD_TIMEOUT_SECONDS_def min_def max_def
      split: json.splits pfloat.splits if_splits)

definition demo_service :: component where
  "demo_service = snd (hd (projr (load_manifests (\<lambda>_. Inr (JObj
     [(''schema'', JStr ''msys.manifest.v1''), (''package'', JObj [(''id'', JStr ''p'')]),
      (''components'', JList [JObj [(''id'', JStr ''s''), (''exec'', JList []), (''lifecycle'', JStr ''on-demand''),
         (''idle_timeout_ms'', JInt 5000)]])]))
     [[''m.json'']] [])))"

definition demo_provider :: provider where
  "demo_provider = \<lparr>fw_component = demo_service, fw_sock = True, fw_ready = True, fw_finalized = False,
     fw_registered = True, fw_stopping = False, fw_stop_requested = False, fw_in_flight_calls = 0,
     fw_idle_task = None, fw_next_task = 0, fw_done_tasks = {}, fw_pending_calls = [], fw_outstanding = [],
     fw_next_request_id = 7\<rparr>"

definition demo_busy :: provider where
  "demo_busy = fst (forward_begin 0 [(''id'', JInt 1)] ''c'' demo_provider)"

lemma demo_init: "fw_init demo_provider"
  by (simp add: fw_init_def demo_provider_def)

lemma demo_reached: "fw_step\<^sup>*\<^sup>* demo_provider demo_busy"
  unfolding demo_busy_def by (rule r_into_rtranclp, rule fw_step.begin_call)

lemma demo_outstanding: "fw_outstanding demo_busy = [7]"
  by code_simp

text \<open>
  C19. In every interleaving of calls, replies, time-outs, channel failures and timers, a provider's
  counter of calls in flight is exactly the number of calls in progress (so it never underflows), no
  two calls in progress share a request number, and the idle timer stops a provider only while no call
  is in progress and it is ready and registered.
\<close>

theorem idle_accounting:
  assumes "fw_init p0" and "fw_step\<^sup>*\<^sup>* p0 p"
  shows "fw_in_flight_calls p = int (length (fw_outstanding p)) \<and> distinct (fw_outstanding p) \<and>
    (\<forall>t. idle_stop_after t p \<longrightarrow>
       fw_outstanding p = [] \<and> fw_ready p \<and> \<not> fw_finalized p \<and> fw_registered p \<and> \<not> fw_stopping p)"
proof -
  have "fw_inv p" by (rule fw.reachable_inv [OF assms])
  then show ?thesis by (auto simp: fw_inv_def idle_stop_after_def idle_eligible_def Let_def)
qed

theorem idle_accounting_witness:
  "fw_init demo_provider \<and> fw_step\<^sup>*\<^sup>* demo_provider demo_busy \<and> fw_in_flight_calls demo_busy = 1"
  using idle_accounting [OF demo_init demo_reached] demo_init demo_reached demo_outstanding by simp

text \<open>
  C29. When the last call of an eligible on-demand provider finishes, its idle timer is armed, and the
  timer that then expires undisturbed stops it: such a provider cannot stay idle for ever.
\<close>

theorem idle_provider_stops:
  fixes p p0 :: provider and public_id rid :: int and outcome :: forward_outcome
  assumes "fw_init p0" and "fw_step\<^sup>*\<^sup>* p0 p" and "fw_outstanding p = [rid]"
    and "idle_timeout_seconds (fw_component p) \<noteq> None"
    and "idle_eligible (p\<lparr>fw_in_flight_calls := 0\<rparr>)"
  defines "q \<equiv> fst (forward_end rid public_id outcome p)"
  shows "\<exists>t. fw_idle_task q = Some t \<and> t < fw_next_task q \<and> idle_stop_after t q"
proof -
  have inv: "fw_inv p" by (rule fw.reachable_inv [OF assms(1,2)])
  then have "fw_in_flight_calls p = 1" "fw_idle_task p = None" using assms(3) by (auto simp: fw_inv_def)
  then show ?thesis
    using assms(4,5)
    by (auto simp: q_def forward_end_def forward_finally_def finish_forward_call_def schedule_idle_task_def
        idle_eligible_def idle_stop_after_def Let_def)
qed

theorem idle_provider_stops_witness:
  "\<exists>t. idle_stop_after t (fst (forward_end 7 1 TimedOut demo_busy))"
proof -
  have "idle_timeout_seconds (fw_component demo_busy) \<noteq> None" by code_simp
  moreover have "idle_eligible (demo_busy\<lparr>fw_in_flight_calls := 0\<rparr>)" by code_simp
  ultimately show ?thesis
    using idle_provider_stops [OF demo_init demo_reached demo_outstanding, of 1 TimedOut] by blast
qed

end
