(* ===== verification/Protocol.thy ===== *)
theory Protocol
  imports Py_Json "HOL-Library.Code_Target_Nat"
begin

text \<open>
  Packets of the private channel (\<open>msys_core/protocol.py\<close>): a JSON object with a string \<open>type\<close>, as one
  datagram of at most \<open>MAX_PACKET\<close> bytes.  The text decoder of the standard library is represented by
  its result on the received bytes (\<open>None\<close>: not UTF-8, or not JSON).
\<close>

definition MAX_PACKET :: nat where "MAX_PACKET = 262144"

datatype protocol_error = PacketTooLarge | InvalidPacket | PacketNotObject | PacketWithoutType

definition encode :: "jobj \<Rightarrow> (protocol_error, nat list) result" where
  "encode message =
     (let data = utf8 (json_dumps (JObj message))
      in if length data > MAX_PACKET then Inl PacketTooLarge else Inr data)"

definition decode :: "nat list \<Rightarrow> json option \<Rightarrow> (protocol_error, jobj) result" where
  "decode data parsed =
     (if length data > MAX_PACKET then Inl PacketTooLarge
      else case parsed of
        None \<Rightarrow> Inl InvalidPacket
      | Some (JObj d) \<Rightarrow> if is_str (jget_null d ''type'') then Inr d else Inl PacketWithoutType
      | Some _ \<Rightarrow> Inl PacketNotObject)"

text \<open>\<open>sock.recv\<close>: \<open>None\<close> would block, an empty datagram is the end of the channel.\<close>

definition recv_packet :: "nat list option \<Rightarrow> json option \<Rightarrow> (protocol_error, jobj option) result" where
  "recv_packet received parsed = (case received of
       None \<Rightarrow> Inr None
     | Some [] \<Rightarrow> Inr (Some [(''type'', JStr ''eof'')])
     | Some data \<Rightarrow> rbind (decode data parsed) (\<lambda>d. Inr (Some d)))"

lemma recv_packet_type: "recv_packet r p = Inr (Some d) \<Longrightarrow> \<exists>t. jget_null d ''type'' = JStr t"
  by (auto simp: recv_packet_def decode_def result_simps is_str_iff jget_null_def jget_or_def
      split: option.splits list.splits json.splits if_splits)

section \<open>Sizes\<close>

lemma utf8_append: "utf8 (s @ t) = utf8 s @ utf8 t"
  by (simp add: utf8_def)

lemma utf8_letters: "length (utf8 (replicate n CHR ''a'')) = n"
  by (induction n) (simp_all add: utf8_def utf8_char_def)

lemma json_quote_letters:
  "json_quote (replicate n CHR ''a'') = char_of (34::nat) # replicate n CHR ''a'' @ [char_of (34::nat)]"
  by (induction n) (simp_all add: json_quote_def json_escape_def)

end
