(* ===== verification/Component_Channel.thy ===== *)
theory Component_Channel
  imports Forwarding Protocol Roles Mipc_Acl
begin

text \<open>
  What arrives on the channels of the supervisor (\<open>msys_core/msysd.py\<close>): the handler of a component's
  packets (\<open>_handle_component_message\<close>) with its permission checks, the broadcast of events, and the
  access decision for the public control socket (\<open>_handle_public_client\<close>).

  An \<open>endpoint\<close> is a supervised instance: the fields of \<open>provider\<close> and what the channel adds.  A packet in
  an effect list is one handed to the socket; delivery errors of the kernel are ignored by the source.
  The reload of the installed catalog, a transaction of its own, is an argument of the handler.

  The lemmas show that no event reaches an endpoint that did not declare the right to receive it, and
  who may call over either channel.
\<close>

section \<open>State\<close>

definition MAX_SUBSCRIPTIONS :: nat where "MAX_SUBSCRIPTIONS = 128"
definition DISPLAY_OUTPUT_ROLE :: string where "DISPLAY_OUTPUT_ROLE = ''display-output''"
definition ACCESS_DENIED :: string where "ACCESS_DENIED = ''ACCESS_DENIED''"

text \<open>
  \<open>ep_oid\<close> is the identity of the object; \<open>ep_current\<close>: the catalog still holds this very component
  object; \<open>ep_subscriptions\<close> is a set, listed in insertion order.
\<close>

record endpoint = provider +
  ep_oid :: nat
  ep_generation :: int
  ep_state :: string
  ep_current :: bool
  ep_pid :: "int option"
  ep_subscriptions :: "string list"

record hub =
  hb_components :: catalog
  hb_instances :: "(string, endpoint) dict"
  hb_registry :: role_registry
  hb_display_outage :: bool
  hb_runtime_dir :: string

datatype channel_error = ChPython py_error | ChRole role_error | ChProtocol protocol_error

datatype effect =
    Packet nat jobj
  | Reply int jobj
  | DispatchCall jobj string
  | RecoverDisplay nat

abbreviation ep_key :: "endpoint \<Rightarrow> string" where
  "ep_key e \<equiv> component_key (fw_component e)"

section \<open>Errors and authorisation\<close>

definition optional_request_id :: "jobj \<Rightarrow> int option" where
  "optional_request_id msg = (case jget_null msg ''id'' of JInt i \<Rightarrow> Some i | _ \<Rightarrow> None)"

definition request_id_or_zero :: "jobj \<Rightarrow> json" where
  "request_id_or_zero msg = JInt (case optional_request_id msg of Some i \<Rightarrow> i | None \<Rightarrow> 0)"

definition component_error ::
  "endpoint \<Rightarrow> jobj \<Rightarrow> string \<Rightarrow> string \<Rightarrow> string \<Rightarrow> string option \<Rightarrow> jobj" where
  "component_error e msg error_code operation detail required =
     [(''type'', JStr ''error''), (''id'', request_id_or_zero msg), (''code'', JStr error_code),
      (''message'', JStr (''component is not permitted to '' @ operation)),
      (''payload'', JObj
        ([(''operation'', JStr operation), (''component'', JStr (ep_key e)), (''resource'', JStr detail)] @
         (case required of Some r \<Rightarrow> if r \<noteq> [] then [(''required'', JStr r)] else [] | None \<Rightarrow> [])))]"

definition access_denied :: "endpoint \<Rightarrow> jobj \<Rightarrow> string \<Rightarrow> string \<Rightarrow> string \<Rightarrow> jobj" where
  "access_denied e msg operation detail required =
     component_error e msg ACCESS_DENIED operation detail (Some required)"

text \<open>The denial, or \<open>None\<close> for an authorised call.\<close>

definition authorize_component_call :: "catalog \<Rightarrow> endpoint \<Rightarrow> jobj \<Rightarrow> jobj option" where
  "authorize_component_call components e msg =
     (let target = py_str (jget_or msg ''target'' (JStr []));
          meth = py_str (jget_or msg ''method'' (JStr []));
          permissions = c_permissions (fw_component e)
      in if allows_call permissions target meth then None
         else if startswith target ''component:'' \<and>
                 (case Option.bind (snd (split_once CHR '':'' target)) (map_of components) of
                    None \<Rightarrow> False
                  | Some c \<Rightarrow> list_ex (\<lambda>p. pv_kind p = ''interface'' \<and>
                                         allows_call permissions (''interface:'' @ pv_name p) meth) (c_provides c))
         then None
         else
           let candidates = call_permission_candidates target meth
           in Some (access_denied e msg ''call'' (if meth \<noteq> [] then target @ ''.'' @ meth else target)
                (case candidates of [] \<Rightarrow> ''mipc.call:'' @ target | c # _ \<Rightarrow> c)))"

section \<open>Sending\<close>

definition send_component_response :: "endpoint \<Rightarrow> jobj \<Rightarrow> (channel_error, effect list) result" where
  "send_component_response e response =
     (if \<not> fw_sock e then Inr []
      else rbind (map_err ChProtocol (encode response)) (\<lambda>_. Inr [Packet (ep_oid e) response]))"

definition event_packet :: "string \<Rightarrow> json \<Rightarrow> string \<Rightarrow> jobj" where
  "event_packet topic payload source =
     [(''type'', JStr ''event''), (''topic'', JStr topic), (''source'', JStr source), (''payload'', payload)]"

definition subscribed :: "string \<Rightarrow> endpoint \<Rightarrow> bool" where
  "subscribed topic e \<longleftrightarrow>
     list_ex (\<lambda>pat. subscription_matches pat topic) (ep_subscriptions e) \<and> fw_sock e \<and> fw_ready e"

text \<open>\<open>send_packet\<close> raises \<open>ProtocolError\<close> for an oversized packet, which the loop does not catch.\<close>

definition broadcast :: "hub \<Rightarrow> string \<Rightarrow> json \<Rightarrow> string \<Rightarrow> (channel_error, effect list) result" where
  "broadcast h topic payload source =
     (if \<not> valid_event_topic topic then Inr []
      else traverse (\<lambda>e. rbind (map_err ChProtocol (encode (event_packet topic payload source)))
                           (\<lambda>_. Inr (Packet (ep_oid e) (event_packet topic payload source))))
             (filter (subscribed topic) (dict_values (hb_instances h))))"

section \<open>Readiness\<close>

definition provides_display_output :: "component \<Rightarrow> bool" where
  "provides_display_output c \<longleftrightarrow>
     list_ex (\<lambda>p. pv_kind p = ''role'' \<and> pv_name p = DISPLAY_OUTPUT_ROLE) (c_provides c)"

definition owns_active_display_output :: "hub \<Rightarrow> endpoint \<Rightarrow> bool" where
  "owns_active_display_output h e \<longleftrightarrow>
     provides_display_output (fw_component e) \<and> fw_registered e \<and>
     active_provider (hb_registry h) DISPLAY_OUTPUT_ROLE = Inr (Some (ep_key e))"

definition lease_role :: "endpoint \<Rightarrow> role_info \<Rightarrow> role_registry \<Rightarrow> role_registry" where
  "lease_role e info rg =
     (if ri_preferred_provider info \<noteq> Some (ep_key e) \<or> ri_active_provider info \<noteq> None then rg
      else case acquire (ri_name info) (Some (ep_key e)) (Some (''generation:'' @ int_str (ep_generation e))) rg of
        Inl _ \<Rightarrow> rg | Inr (_, rg') \<Rightarrow> rg')"

definition lease_preferred_roles :: "endpoint \<Rightarrow> role_registry \<Rightarrow> (role_error, role_registry) result" where
  "lease_preferred_roles e rg =
     (if \<not> ep_current e then Inr rg
      else rbind (list_role_info rg) (\<lambda>infos. Inr (fold (lease_role e) infos rg)))"

definition schedule_display_recovery :: "hub \<Rightarrow> endpoint \<Rightarrow> effect list" where
  "schedule_display_recovery h e =
     (if \<not> hb_display_outage h \<or> \<not> fw_ready e \<or> \<not> owns_active_display_output h e then []
      else [RecoverDisplay (ep_oid e)])"

definition component_became_ready :: "hub \<Rightarrow> endpoint \<Rightarrow> (channel_error, hub \<times> endpoint \<times> effect list) result" where
  "component_became_ready h e =
     rbind (map_err ChRole (lease_preferred_roles e (hb_registry h))) (\<lambda>rg.
       let h' = h\<lparr>hb_registry := rg\<rparr>; e' = schedule_idle_task e
       in Inr (h', e', if provides_display_output (fw_component e') then schedule_display_recovery h' e' else []))"

section \<open>Packets of a component\<close>

definition handle_subscribe :: "endpoint \<Rightarrow> jobj \<Rightarrow> (channel_error, endpoint \<times> effect list) result" where
  "handle_subscribe e msg =
     (case jget_or msg ''topic'' (JStr []) of
        JStr topic \<Rightarrow>
          if \<not> valid_subscription topic then
            rbind (send_component_response e
              (component_error e msg ''BAD_SUBSCRIPTION'' ''subscribe'' (take MAX_TOPIC_LENGTH topic) None)) (\<lambda>x. Inr (e, x))
          else if \<not> allows_event (c_permissions (fw_component e)) ''subscribe'' topic then
            rbind (send_component_response e
              (access_denied e msg ''subscribe'' topic (event_permission ''subscribe'' topic))) (\<lambda>x. Inr (e, x))
          else if topic \<notin> set (ep_subscriptions e) \<and> length (ep_subscriptions e) \<ge> MAX_SUBSCRIPTIONS then
            rbind (send_component_response e
              (component_error e msg ''SUBSCRIPTION_LIMIT'' ''subscribe'' topic None)) (\<lambda>x. Inr (e, x))
          else
            let e' = (if topic \<in> set (ep_subscriptions e) then e
                      else e\<lparr>ep_subscriptions := ep_subscriptions e @ [topic]\<rparr>)
            in (case optional_request_id msg of
                  None \<Rightarrow> Inr (e', [])
                | Some rid \<Rightarrow>
                    rbind (send_component_response e'
                      [(''type'', JStr ''return''), (''id'', JInt rid), (''payload'', JObj [(''subscribed'', JStr topic)])])
                      (\<lambda>x. Inr (e', x)))
      | other \<Rightarrow>
          rbind (send_component_response e
            (component_error e msg ''BAD_SUBSCRIPTION'' ''subscribe'' (take MAX_TOPIC_LENGTH (py_str other)) None))
            (\<lambda>x. Inr (e, x)))"

text \<open>\<open>{**dict(payload or {}), field: value}\<close>.\<close>

definition merge_payload :: "json \<Rightarrow> string \<Rightarrow> json \<Rightarrow> (channel_error, json) result" where
  "merge_payload payload field value =
     rbind (map_err ChPython (if py_bool payload then py_dict payload else Inr [])) (\<lambda>d.
       Inr (JObj (AList.update field value d)))"

text \<open>A reload gives the new state and its report, or the code and message of its failure.\<close>

type_synonym reloader = "hub \<Rightarrow> (string \<times> string, hub \<times> json) result"

definition reload_payload :: "reloader \<Rightarrow> hub \<Rightarrow> string \<Rightarrow> json \<Rightarrow> (channel_error, hub \<times> json) result" where
  "reload_payload reload h topic payload =
     (if topic \<noteq> ''msys.install.package_changed'' \<or>
         (case payload of JObj d \<Rightarrow> jget_null d ''registry_reloaded'' = JBool True | _ \<Rightarrow> False)
      then Inr (h, payload)
      else case reload h of
        Inr (h', changes) \<Rightarrow> rbind (merge_payload payload ''registry_changes'' changes) (\<lambda>p. Inr (h', p))
      | Inl (error_code, message) \<Rightarrow>
          rbind (merge_payload payload ''registry_error''
                   (JObj [(''code'', JStr error_code), (''message'', JStr (take 512 message))])) (\<lambda>p. Inr (h, p)))"

definition handle_event :: "reloader \<Rightarrow> hub \<Rightarrow> endpoint \<Rightarrow> jobj \<Rightarrow> (channel_error, hub \<times> effect list) result" where
  "handle_event reload h e msg =
     (let bad = (\<lambda>t. rbind (send_component_response e
                  (component_error e msg ''BAD_EVENT_TOPIC'' ''publish'' (take MAX_TOPIC_LENGTH t) None)) (\<lambda>x. Inr (h, x)))
      in case jget_or msg ''topic'' (JStr []) of
        JStr topic \<Rightarrow>
          if \<not> valid_event_topic topic then bad topic
          else if \<not> allows_event (c_permissions (fw_component e)) ''publish'' topic then
            rbind (send_component_response e
              (access_denied e msg ''publish'' topic (event_permission ''publish'' topic))) (\<lambda>x. Inr (h, x))
          else
            rbind (reload_payload reload h topic (jget_or msg ''payload'' (JObj []))) (\<lambda>(h', payload).
            rbind (broadcast h' topic payload (ep_key e)) (\<lambda>x. Inr (h', x)))
      | other \<Rightarrow> bad (py_str other))"

definition handle_reply :: "endpoint \<Rightarrow> jobj \<Rightarrow> (channel_error, endpoint \<times> effect list) result" where
  "handle_reply e msg =
     rbind (map_err ChPython (py_int_of (jget_or msg ''id'' (JInt 0)))) (\<lambda>rid.
       if rid \<in> set (fw_pending_calls e)
       then Inr (e\<lparr>fw_pending_calls := removeAll rid (fw_pending_calls e)\<rparr>, [Reply rid msg])
       else Inr (e, []))"

definition welcome_packet :: "hub \<Rightarrow> endpoint \<Rightarrow> jobj" where
  "welcome_packet h e =
     [(''type'', JStr ''welcome''), (''component'', JStr (ep_key e)), (''generation'', JInt (ep_generation e)),
      (''runtime_dir'', JStr (hb_runtime_dir h))]"

definition handle_component_message ::
  "reloader \<Rightarrow> hub \<Rightarrow> endpoint \<Rightarrow> jobj \<Rightarrow> (channel_error, hub \<times> endpoint \<times> effect list) result" where
  "handle_component_message reload h e msg =
     (case jget msg ''type'' of
        None \<Rightarrow> Inl (ChPython (KeyError ''type''))
      | Some t \<Rightarrow>
          if t = JStr ''hello'' then
            (if \<not> fw_sock e then Inl (ChPython AttributeError)
             else rbind (map_err ChProtocol (encode (welcome_packet h e))) (\<lambda>_.
               Inr (h, e, [Packet (ep_oid e) (welcome_packet h e)])))
          else if t = JStr ''ready'' then
            component_became_ready h (e\<lparr>fw_ready := True, ep_state := ''ready''\<rparr>)
          else if t = JStr ''subscribe'' then
            rbind (handle_subscribe e msg) (\<lambda>(e', x). Inr (h, e', x))
          else if t = JStr ''event'' then
            rbind (handle_event reload h e msg) (\<lambda>(h', x). Inr (h', e, x))
          else if t \<in> {JStr ''return'', JStr ''error''} \<and> dict_has msg ''id'' then
            rbind (handle_reply e msg) (\<lambda>(e', x). Inr (h, e', x))
          else if t = JStr ''call'' then Inr (h, e, [DispatchCall msg (ep_key e)])
          else Inr (h, e, []))"

text \<open>
  \<open>_dispatch_component_call\<close>, the task of a call: what precedes the dispatch, and the reply once the
  response is there.
\<close>

datatype call_start = Denied jobj | Dispatched jobj string

definition component_call_start :: "hub \<Rightarrow> endpoint \<Rightarrow> jobj \<Rightarrow> call_start" where
  "component_call_start h e msg = (case authorize_component_call (hb_components h) e msg of
       None \<Rightarrow> Dispatched msg (ep_key e) | Some denial \<Rightarrow> Denied denial)"

definition component_call_reply :: "endpoint \<Rightarrow> jobj \<Rightarrow> (channel_error, effect list) result" where
  "component_call_reply e response =
     (if \<not> fw_registered e \<or> \<not> fw_sock e then Inr [] else send_component_response e response)"

section \<open>The public socket\<close>

record peer_credentials =
  pc_pid :: int
  pc_uid :: int
  pc_gid :: int

text \<open>The record of \<open>SO_PEERCRED\<close> as three integers, or the message of the failed lookup.\<close>

definition public_peer_credentials :: "(string, int \<times> int \<times> int) result \<Rightarrow> (string, peer_credentials) result" where
  "public_peer_credentials raw =
     rbind raw (\<lambda>(pid, uid, gid).
       if pid \<le> 0 \<or> uid < 0 \<or> gid < 0 then Inl ''SO_PEERCRED returned invalid credentials''
       else Inr \<lparr>pc_pid = pid, pc_uid = uid, pc_gid = gid\<rparr>)"

definition leads :: "endpoint \<Rightarrow> int \<Rightarrow> bool" where
  "leads e pid \<longleftrightarrow> (case ep_pid e of Some leader \<Rightarrow> 0 < leader \<and> pid = leader | None \<Rightarrow> False)"

text \<open>\<open>groups\<close>: process group and session of a process, \<open>None\<close> when it is gone.\<close>

definition managed_instance_for_peer :: "hub \<Rightarrow> (int \<Rightarrow> (int \<times> int) option) \<Rightarrow> int \<Rightarrow> endpoint option" where
  "managed_instance_for_peer h groups peer_pid =
     (case find (\<lambda>e. leads e peer_pid) (dict_values (hb_instances h)) of
        Some e \<Rightarrow> Some e
      | None \<Rightarrow> (case groups peer_pid of
            None \<Rightarrow> None
          | Some (pgid, sid) \<Rightarrow> find (\<lambda>e. leads e pgid \<or> leads e sid) (dict_values (hb_instances h))))"

definition public_access_denied :: "jobj \<Rightarrow> string \<Rightarrow> jobj" where
  "public_access_denied msg reason =
     [(''type'', JStr ''error''), (''id'', request_id_or_zero msg), (''code'', JStr ACCESS_DENIED),
      (''message'', JStr ''public control access requires an unmanaged root operator''),
      (''payload'', JObj [(''operation'', JStr ''call''), (''reason'', JStr reason)])]"

text \<open>
  The peer is attributed when its connection is accepted (state \<open>h\<close>); its one request is decided later.
\<close>

definition public_peer ::
  "hub \<Rightarrow> (string, int \<times> int \<times> int) result \<Rightarrow> (int \<Rightarrow> (int \<times> int) option) \<Rightarrow>
     (string, peer_credentials \<times> endpoint option) result" where
  "public_peer h raw groups =
     rbind (public_peer_credentials raw) (\<lambda>peer. Inr (peer, managed_instance_for_peer h groups (pc_pid peer)))"

definition public_request :: "hub \<Rightarrow> (string, peer_credentials \<times> endpoint option) result \<Rightarrow> jobj \<Rightarrow> call_start" where
  "public_request h peer msg =
     (if jget_null msg ''type'' \<noteq> JStr ''call''
      then Denied [(''type'', JStr ''error''), (''id'', jget_or msg ''id'' (JInt 0)), (''code'', JStr ''BAD_PUBLIC_MESSAGE'')]
      else case peer of
        Inl problem \<Rightarrow> Denied (public_access_denied msg (''peer-credentials-unavailable:'' @ problem))
      | Inr (_, Some e) \<Rightarrow> component_call_start h e msg
      | Inr (credentials, None) \<Rightarrow>
          if pc_uid credentials = 0 then Dispatched msg ''public''
          else Denied (public_access_denied msg ''unmanaged-peer-is-not-root''))"

section \<open>Events reach only those who may receive them\<close>

text \<open>
  The instance table under all packets, starts, stops and changes of flags.  A new instance has no
  subscriptions; a reload may remove instances.
\<close>

definition store :: "endpoint \<Rightarrow> hub \<Rightarrow> hub" where
  "store e h = (case map_of (hb_instances h) (ep_key e) of
       Some old \<Rightarrow> if ep_oid old = ep_oid e then h\<lparr>hb_instances := AList.update (ep_key e) e (hb_instances h)\<rparr> else h
     | None \<Rightarrow> h)"

definition reload_removes :: "reloader \<Rightarrow> bool" where
  "reload_removes reload \<longleftrightarrow>
     (\<forall>h h' c. reload h = Inr (h', c) \<longrightarrow> set (hb_instances h') \<subseteq> set (hb_instances h))"

inductive hub_step :: "hub \<Rightarrow> hub \<Rightarrow> bool" where
  packet: "map_of (hb_instances h) key = Some e \<Longrightarrow> reload_removes reload \<Longrightarrow>
     handle_component_message reload h e msg = Inr (h', e', x) \<Longrightarrow> hub_step h (store e' h')"
| started: "ep_subscriptions e = [] \<Longrightarrow> hub_step h (h\<lparr>hb_instances := AList.update (ep_key e) e (hb_instances h)\<rparr>)"
| stopped: "hub_step h (h\<lparr>hb_instances := AList.delete key (hb_instances h)\<rparr>)"
| changed: "map_of (hb_instances h) key = Some e \<Longrightarrow> fw_component e' = fw_component e \<Longrightarrow>
     ep_subscriptions e' = ep_subscriptions e \<Longrightarrow>
     hub_step h (h\<lparr>hb_instances := AList.update key e' (hb_instances h)\<rparr>)"

inductive_cases hub_stepE: "hub_step h h'"

definition endpoint_ok :: "endpoint \<Rightarrow> bool" where
  "endpoint_ok e \<longleftrightarrow>
     (\<forall>pat \<in> set (ep_subscriptions e). allows_event (c_permissions (fw_component e)) ''subscribe'' pat) \<and>
     length (ep_subscriptions e) \<le> MAX_SUBSCRIPTIONS"

definition hub_inv :: "hub \<Rightarrow> bool" where
  "hub_inv h \<longleftrightarrow> (\<forall>(k, e) \<in> set (hb_instances h). endpoint_ok e)"

lemma hub_inv_update: "hub_inv h \<Longrightarrow> endpoint_ok e \<Longrightarrow> hub_inv (h\<lparr>hb_instances := AList.update k e (hb_instances h)\<rparr>)"
  using list_all_update [of "\<lambda>(_, e). endpoint_ok e" "hb_instances h" k e]
  by (simp add: hub_inv_def list_all_iff)

lemma hub_inv_lookup: "hub_inv h \<Longrightarrow> map_of (hb_instances h) k = Some e \<Longrightarrow> endpoint_ok e"
  by (auto simp: hub_inv_def dest: map_of_SomeD)

lemma hub_inv_store: "hub_inv h \<Longrightarrow> endpoint_ok e \<Longrightarrow> hub_inv (store e h)"
  by (simp add: store_def hub_inv_update split: option.split)

lemma schedule_keeps_endpoint [simp]:
  fixes e :: endpoint
  shows "fw_component (schedule_idle_task e) = fw_component e"
    "ep_subscriptions (schedule_idle_task e) = ep_subscriptions e"
  by (simp_all add: schedule_idle_task_def split: option.splits)

lemma subscribe_ok: "endpoint_ok e \<Longrightarrow> handle_subscribe e msg = Inr (e', x) \<Longrightarrow> endpoint_ok e'"
  by (auto simp: handle_subscribe_def endpoint_ok_def result_simps Let_def split: json.splits if_splits option.splits)

lemma reply_ok: "endpoint_ok e \<Longrightarrow> handle_reply e msg = Inr (e', x) \<Longrightarrow> endpoint_ok e'"
  by (auto simp: handle_reply_def endpoint_ok_def result_simps split: if_splits)

lemma reload_payload_inv:
  assumes "hub_inv h" and "reload_removes reload" and "reload_payload reload h t p = Inr (h', p')"
  shows "hub_inv h'"
proof (cases "reload h")
  case (Inr r)
  obtain g c where r: "r = (g, c)" by (cases r)
  have "set (hb_instances g) \<subseteq> set (hb_instances h)"
    using assms(2) Inr unfolding r reload_removes_def by blast
  with assms(1) have "hub_inv g" by (auto simp: hub_inv_def)
  with assms Inr r show ?thesis by (auto simp: reload_payload_def result_simps split: if_splits)
qed (use assms in \<open>auto simp: reload_payload_def result_simps split: if_splits\<close>)

lemma became_ready_Inr:
  "component_became_ready h e = Inr (h', e', x) \<Longrightarrow>
     hb_instances h' = hb_instances h \<and> ep_subscriptions e' = ep_subscriptions e \<and> fw_component e' = fw_component e \<and>
     (\<forall>oid m. Packet oid m \<notin> set x)"
  by (auto simp: component_became_ready_def schedule_display_recovery_def Let_def result_simps split: if_splits)

lemma handle_event_inv:
  "hub_inv h \<Longrightarrow> reload_removes reload \<Longrightarrow> handle_event reload h e msg = Inr (h', x) \<Longrightarrow> hub_inv h'"
  by (auto simp: handle_event_def result_simps Let_def intro: reload_payload_inv split: json.splits if_splits)

text \<open>The cases of the handler, for elimination.\<close>

lemma handler_run:
  "handle_component_message reload h e msg = Inr (h', e', x) \<Longrightarrow>
     h' = h \<and> e' = e \<and> (x = [Packet (ep_oid e) (welcome_packet h e)] \<or> x = [DispatchCall msg (ep_key e)] \<or> x = []) \<or>
     component_became_ready h (e\<lparr>fw_ready := True, ep_state := ''ready''\<rparr>) = Inr (h', e', x) \<or>
     h' = h \<and> handle_subscribe e msg = Inr (e', x) \<or>
     e' = e \<and> handle_event reload h e msg = Inr (h', x) \<or>
     h' = h \<and> handle_reply e msg = Inr (e', x)"
  unfolding handle_component_message_def
  by (auto simp: rbind_Inr_iff split: option.split_asm if_split_asm)

lemma handler_cases:
  assumes "handle_component_message reload h e msg = Inr (h', e', x)"
  obtains (plain) "h' = h" "e' = e"
      "x = [Packet (ep_oid e) (welcome_packet h e)] \<or> x = [DispatchCall msg (ep_key e)] \<or> x = []"
    | (ready) "component_became_ready h (e\<lparr>fw_ready := True, ep_state := ''ready''\<rparr>) = Inr (h', e', x)"
    | (subscribe) "h' = h" "handle_subscribe e msg = Inr (e', x)"
    | (event) "e' = e" "handle_event reload h e msg = Inr (h', x)"
    | (reply) "h' = h" "handle_reply e msg = Inr (e', x)"
  using handler_run [OF assms] by blast

lemma handler_ok:
  assumes "hub_inv h" and "endpoint_ok e" and "reload_removes reload"
    and "handle_component_message reload h e msg = Inr (h', e', x)"
  shows "hub_inv h' \<and> endpoint_ok e'"
  using assms(4)
proof (cases rule: handler_cases)
  case ready
  from became_ready_Inr [OF this] assms show ?thesis by (simp add: hub_inv_def endpoint_ok_def)
qed (use assms in \<open>auto dest: subscribe_ok reply_ok handle_event_inv\<close>)

lemma hub_step_inv: "hub_inv h \<Longrightarrow> hub_step h h' \<Longrightarrow> hub_inv h'"
proof (erule hub_stepE)
  show "hub_inv h'" if "hub_inv h" "h' = store e' g" "map_of (hb_instances h) key = Some e" "reload_removes reload"
    "handle_component_message reload h e msg = Inr (g, e', x)" for key e reload msg g e' x
    using that handler_ok [of h e reload msg g e' x] hub_inv_lookup [of h key e] hub_inv_store [of g e'] by blast
  show "hub_inv h'" if "hub_inv h" "h' = h\<lparr>hb_instances := AList.update (ep_key e) e (hb_instances h)\<rparr>"
    "ep_subscriptions e = []" for e
    using that by (simp add: hub_inv_update endpoint_ok_def)
  show "hub_inv h'" if "hub_inv h" "h' = h\<lparr>hb_instances := AList.delete key (hb_instances h)\<rparr>" for key
    using that by (auto simp: hub_inv_def AList.delete_eq)
  show "hub_inv h'" if "hub_inv h" "h' = h\<lparr>hb_instances := AList.update key e' (hb_instances h)\<rparr>"
    "map_of (hb_instances h) key = Some e" "fw_component e' = fw_component e" "ep_subscriptions e' = ep_subscriptions e" for key e e'
    using that hub_inv_lookup [of h key e] hub_inv_update [of h e' key] by (simp add: endpoint_ok_def)
qed

interpretation hub: invariant_system "\<lambda>h. hb_instances h = []" hub_step hub_inv
proof unfold_locales
  show "hub_inv h" if "hb_instances h = []" for h using that by (simp add: hub_inv_def)
qed (rule hub_step_inv)

lemma response_packets:
  "send_component_response e r = Inr x \<Longrightarrow> Packet oid m \<in> set x \<Longrightarrow> m = r"
  by (auto simp: send_component_response_def result_simps split: if_splits)

lemma response_types [simp]:
  "jget_null (component_error e msg c p d r) ''type'' = JStr ''error''"
  "jget_null (access_denied e msg p d q) ''type'' = JStr ''error''"
  "jget_null (welcome_packet h e) ''type'' = JStr ''welcome''"
  by (simp_all add: component_error_def access_denied_def welcome_packet_def jget_null_def jget_or_def)

lemma broadcast_packets:
  assumes "broadcast h t p s = Inr x" and "Packet oid m \<in> set x"
  shows "m = event_packet t p s \<and> (\<exists>(k, e) \<in> set (hb_instances h). ep_oid e = oid \<and> subscribed t e)"
proof -
  have "list_all (\<lambda>y. y = Packet oid m \<longrightarrow> m = event_packet t p s \<and>
      (\<exists>(k, e) \<in> set (hb_instances h). ep_oid e = oid \<and> subscribed t e)) x"
  proof (cases "valid_event_topic t")
    case True
    with assms(1) have "traverse (\<lambda>e. rbind (map_err ChProtocol (encode (event_packet t p s)))
        (\<lambda>_. Inr (Packet (ep_oid e) (event_packet t p s)))) (filter (subscribed t) (dict_values (hb_instances h))) = Inr x"
      by (simp add: broadcast_def)
    then show ?thesis by (rule traverse_all) (force simp: result_simps)
  qed (use assms in \<open>simp add: broadcast_def\<close>)
  with assms(2) show ?thesis by (auto simp: list_all_iff)
qed

lemma handle_event_packets:
  assumes "handle_event reload h e msg = Inr (h', x)" and "Packet oid m \<in> set x"
    and "jget_null m ''type'' = JStr ''event''"
  shows "\<exists>t p. jget_null msg ''topic'' = JStr t \<and> allows_event (c_permissions (fw_component e)) ''publish'' t \<and>
    broadcast h' t p (ep_key e) = Inr x"
proof -
  obtain t where t: "jget_or msg ''topic'' (JStr []) = JStr t"
    and a: "valid_event_topic t" "allows_event (c_permissions (fw_component e)) ''publish'' t"
    and r: "rbind (reload_payload reload h t (jget_or msg ''payload'' (JObj []))) (\<lambda>(h', payload).
      rbind (broadcast h' t payload (ep_key e)) (\<lambda>x. Inr (h', x))) = Inr (h', x)"
    using assms
    by (auto simp: handle_event_def result_simps Let_def dest: response_packets split: json.splits if_splits)
  have "t \<noteq> []" using a(1) by (simp add: valid_event_topic_iff)
  with t have "jget_null msg ''topic'' = JStr t" by (auto simp: jget_or_def jget_null_def split: option.splits)
  with a(2) r show ?thesis by (auto simp: result_simps)
qed

text \<open>Only the broadcast of an event sends packets of type \<open>event\<close>.\<close>

lemma subscribe_packets:
  assumes "handle_subscribe e msg = Inr (e', x)" and "Packet oid m \<in> set x"
  shows "jget_null m ''type'' \<noteq> JStr ''event''"
  using assms
  by (auto simp: handle_subscribe_def result_simps Let_def jget_null_def [of "(''type'', _) # _"] jget_or_def [of "(''type'', _) # _"]
      dest!: response_packets split: json.splits if_splits option.splits)

lemma handler_event:
  assumes "handle_component_message reload h e msg = Inr (h', e', x)"
    and "Packet oid m \<in> set x \<and> jget_null m ''type'' = JStr ''event''"
  shows "\<exists>t p. jget_null msg ''topic'' = JStr t \<and> allows_event (c_permissions (fw_component e)) ''publish'' t \<and>
    broadcast h' t p (ep_key e) = Inr x"
  using assms(1)
proof (cases rule: handler_cases)
  case plain
  with assms(2) show ?thesis by auto
next
  case ready
  with became_ready_Inr assms(2) show ?thesis by blast
next
  case subscribe
  with subscribe_packets assms(2) show ?thesis by blast
next
  case event
  with handle_event_packets assms(2) show ?thesis by blast
next
  case reply
  with assms(2) show ?thesis by (auto simp: handle_reply_def result_simps split: if_splits)
qed

lemma endpoint_receives:
  "endpoint_ok e \<Longrightarrow> subscribed t e \<Longrightarrow> valid_event_topic t \<Longrightarrow>
     \<exists>g. event_permission ''subscribe'' g \<in> set (c_permissions (fw_component e)) \<and> subscription_matches g t"
  unfolding endpoint_ok_def subscribed_def list_ex_iff allows_event_grant using covers_matches by blast


text \<open>One component that may publish and receive a topic, and the packets that exercise it.\<close>

definition demo_component :: component where
  "demo_component = snd (hd (projr (load_manifests (\<lambda>_. Inr (JObj
     [(''schema'', JStr ''msys.manifest.v1''), (''package'', JObj [(''id'', JStr ''p'')]),
      (''components'', JList [JObj [(''id'', JStr ''c''), (''exec'', JList []), (''lifecycle'', JStr ''background''),
         (''permissions'', JList [JStr ''mipc.event:publish:t'', JStr ''mipc.event:subscribe:t*''])]])]))
     [[''m.json'']] [])))"

definition demo_endpoint :: endpoint where
  "demo_endpoint = \<lparr>fw_component = demo_component, fw_sock = True, fw_ready = True, fw_finalized = False,
     fw_registered = True, fw_stopping = False, fw_stop_requested = False, fw_in_flight_calls = 0,
     fw_idle_task = None, fw_next_task = 0, fw_done_tasks = {}, fw_pending_calls = [], fw_outstanding = [],
     fw_next_request_id = 1, ep_oid = 5, ep_generation = 1, ep_state = ''ready'', ep_current = True,
     ep_pid = Some 40, ep_subscriptions = []\<rparr>"

definition demo_hub0 :: hub where
  "demo_hub0 = \<lparr>hb_components = [(''p:c'', demo_component)], hb_instances = [],
     hb_registry = projr (RoleRegistry [] [] []), hb_display_outage = False, hb_runtime_dir = ''/run''\<rparr>"

definition demo_hub1 :: hub where
  "demo_hub1 = demo_hub0\<lparr>hb_instances := AList.update (ep_key demo_endpoint) demo_endpoint (hb_instances demo_hub0)\<rparr>"

definition demo_subscribe :: jobj where
  "demo_subscribe = [(''type'', JStr ''subscribe''), (''topic'', JStr ''t*'')]"

definition demo_reload :: reloader where
  "demo_reload h = Inl (''CATALOG_RELOAD_FAILED'', [])"

definition demo_subscriber :: endpoint where
  "demo_subscriber = demo_endpoint\<lparr>ep_subscriptions := [''t*'']\<rparr>"

definition demo_hub :: hub where
  "demo_hub = store demo_subscriber demo_hub1"

lemma demo_hub_simps:
  "component_key demo_component = ''p:c''" "ep_key demo_endpoint = ''p:c''"
  "hb_instances demo_hub1 = [(''p:c'', demo_endpoint)]" "hb_instances demo_hub = [(''p:c'', demo_subscriber)]"
proof -
  show k: "component_key demo_component = ''p:c''" by code_simp
  then show e: "ep_key demo_endpoint = ''p:c''" by (simp add: demo_endpoint_def)
  then show one: "hb_instances demo_hub1 = [(''p:c'', demo_endpoint)]" by (simp add: demo_hub1_def demo_hub0_def)
  have "ep_key demo_subscriber = ''p:c''" using e by (simp add: demo_subscriber_def)
  then show "hb_instances demo_hub = [(''p:c'', demo_subscriber)]"
    by (simp add: demo_hub_def store_def one) (simp add: demo_subscriber_def)
qed

lemma demo_reload_removes: "reload_removes demo_reload"
  by (simp add: reload_removes_def demo_reload_def)

lemma demo_hub_reached: "hb_instances demo_hub0 = []" "hub_step\<^sup>*\<^sup>* demo_hub0 demo_hub"
proof -
  show "hb_instances demo_hub0 = []" by (simp add: demo_hub0_def)
  have "valid_subscription ''t*''" "allows_event (c_permissions demo_component) ''subscribe'' ''t*''" by code_simp+
  then have "handle_subscribe demo_endpoint demo_subscribe = Inr (demo_subscriber, [])"
    by (simp add: handle_subscribe_def demo_subscribe_def demo_endpoint_def demo_subscriber_def jget_or_def
        MAX_SUBSCRIPTIONS_def optional_request_id_def jget_null_def)
  then have "handle_component_message demo_reload demo_hub1 demo_endpoint demo_subscribe = Inr (demo_hub1, demo_subscriber, [])"
    by (simp add: handle_component_message_def demo_subscribe_def jget_def)
  from hub_step.packet [OF _ demo_reload_removes this, of "''p:c''"]
  have "hub_step demo_hub1 demo_hub" unfolding demo_hub_def by (simp add: demo_hub_simps)
  moreover have "hub_step demo_hub0 demo_hub1"
    unfolding demo_hub1_def by (rule hub_step.started) (simp add: demo_endpoint_def)
  ultimately show "hub_step\<^sup>*\<^sup>* demo_hub0 demo_hub" by (meson converse_rtranclp_into_rtranclp r_into_rtranclp)
qed

lemma demo_lookup: "map_of (hb_instances demo_hub) ''p:c'' = Some demo_subscriber"
  by (simp add: demo_hub_simps)

definition demo_event :: "json \<Rightarrow> jobj" where
  "demo_event payload = [(''type'', JStr ''event''), (''topic'', JStr ''t''), (''payload'', payload)]"

lemma demo_handle_event:
  "handle_component_message demo_reload demo_hub demo_subscriber (demo_event payload) =
     rbind (map_err ChProtocol (encode (event_packet ''t'' payload ''p:c''))) (\<lambda>_.
       Inr (demo_hub, demo_subscriber, [Packet 5 (event_packet ''t'' payload ''p:c'')]))"
proof -
  have a: "valid_event_topic ''t''" "allows_event (c_permissions demo_component) ''publish'' ''t''" by code_simp+
  have s: "subscribed ''t'' demo_subscriber" "ep_oid demo_subscriber = 5" "fw_component demo_subscriber = demo_component"
    by (simp_all add: subscribed_def demo_subscriber_def demo_endpoint_def subscription_matches_def startswith_def endswith_def)
  show ?thesis
    by (cases "encode (event_packet ''t'' payload ''p:c'')")
      (simp_all add: handle_component_message_def handle_event_def demo_event_def jget_def jget_or_def a s
        reload_payload_def broadcast_def demo_hub_simps)
qed


section \<open>Who may call\<close>

lemma split_component: "startswith target ''component:'' \<Longrightarrow> snd (split_once CHR '':'' target) = Some (drop 10 target)"
  by (erule startswithE) (simp add: split_once_def)

definition call_granted :: "catalog \<Rightarrow> endpoint \<Rightarrow> jobj \<Rightarrow> bool" where
  "call_granted components e msg \<longleftrightarrow>
     (let target = py_str (jget_or msg ''target'' (JStr [])); meth = py_str (jget_or msg ''method'' (JStr [])) in
      allows_call (c_permissions (fw_component e)) target meth \<or>
      (\<exists>key c p. target = ''component:'' @ key \<and> map_of components key = Some c \<and> p \<in> set (c_provides c) \<and>
         pv_kind p = ''interface'' \<and> allows_call (c_permissions (fw_component e)) (''interface:'' @ pv_name p) meth))"

lemma authorize_None: "authorize_component_call components e msg = None \<longleftrightarrow> call_granted components e msg"
proof -
  let ?t = "py_str (jget_or msg ''target'' (JStr []))"
  show ?thesis
  proof (cases "startswith ?t ''component:''")
    case True
    then obtain key where key: "?t = ''component:'' @ key" by (rule startswithE)
    then have "snd (split_once CHR '':'' ?t) = Some key" using split_component [OF True] by simp
    with key True show ?thesis
      by (auto simp: authorize_component_call_def call_granted_def Let_def list_ex_iff split: option.splits)
  next
    case False
    then have "\<And>key. ?t \<noteq> ''component:'' @ key" by (metis startswith_append)
    with False show ?thesis by (simp add: authorize_component_call_def call_granted_def Let_def)
  qed
qed


section \<open>A packet that silences its sender\<close>

text \<open>The sizes of the event packet as it arrives and as it is sent on.\<close>

lemma demo_event_size:
  "length (utf8 (json_dumps (JObj (demo_event (JStr (replicate n CHR ''a'')))))) = n + 41"
  "length (utf8 (json_dumps (JObj (event_packet ''t'' (JStr (replicate n CHR ''a'')) ''p:c'')))) = n + 56"
proof -
  let ?q = "[char_of (34::nat)]"
  let ?a = "CHR 0x7B # json_quote ''type'' @ '':'' @ json_quote ''event'' @ '','' @ json_quote ''topic'' @ '':'' @ json_quote ''t'' @
     '','' @ json_quote ''payload'' @ '':'' @ ?q"
  let ?b = "CHR 0x7B # json_quote ''type'' @ '':'' @ json_quote ''event'' @ '','' @ json_quote ''topic'' @ '':'' @ json_quote ''t'' @
     '','' @ json_quote ''source'' @ '':'' @ json_quote ''p:c'' @ '','' @ json_quote ''payload'' @ '':'' @ ?q"
  let ?z = "?q @ [CHR 0x7D]"
  have "json_dumps (JObj (demo_event (JStr (replicate n CHR ''a'')))) = ?a @ replicate n CHR ''a'' @ ?z"
    by (simp add: demo_event_def json_quote_letters)
  moreover have "length (utf8 ?a) = 39" "length (utf8 ?b) = 54" "length (utf8 ?z) = 2" by code_simp+
  moreover have "json_dumps (JObj (event_packet ''t'' (JStr (replicate n CHR ''a'')) ''p:c'')) = ?b @ replicate n CHR ''a'' @ ?z"
    by (simp add: event_packet_def json_quote_letters)
  ultimately show "length (utf8 (json_dumps (JObj (demo_event (JStr (replicate n CHR ''a'')))))) = n + 41"
    "length (utf8 (json_dumps (JObj (event_packet ''t'' (JStr (replicate n CHR ''a'')) ''p:c'')))) = n + 56"
    by (simp_all only: utf8_append utf8_letters length_append)
qed


end
