(* ===== verification/Call_Dispatch.thy ===== *)
theory Call_Dispatch
  imports Component_Channel Services
begin

text \<open>
  Routing of a call to its target (\<open>dispatch_call\<close> and the methods it uses in \<open>msys_core/msysd.py\<close>): a
  role or an interface is served by its providers in order, and a provider that fails is stopped and
  the next one tried, if the call allows it.

  The operating system and the other coroutines are an argument: starting a component, sending a
  call and waiting for its response, stopping an instance, the methods of the core itself.  Each takes
  the state of the dispatcher and may return any other state, so that a reload of the catalog between
  two steps of a call is one of its behaviours.  The loop over the providers has no bound in the source;
  here it is a partial function, \<open>None\<close> standing for a loop that does not end.

  The lemmas show that no provider is asked twice, that a call which may not be repeated is sent at
  most once, and that the loop ends.
\<close>

section \<open>State and environment\<close>

definition ROLE_RETRY_SAFE_METHODS :: "string list" where
  "ROLE_RETRY_SAFE_METHODS = [''list_windows'', ''recents'', ''list'', ''status'', ''capabilities'']"

definition ROLE_NO_START_NOOPS :: "(string \<times> string) list" where
  "ROLE_NO_START_NOOPS = [(''input-method'', ''hide''), (''notification-center'', ''hide'')]"

definition ROLE_LIVENESS_ERRORS :: "string list" where
  "ROLE_LIVENESS_ERRORS =
     [''CALL_TIMEOUT'', ''CALL_SEND_FAILED'', ''NO_PROVIDER_SOCKET'', ''PROVIDER_EXITED'', ''PROVIDER_STOPPED'']"

text \<open>
  The catalog epoch changes exactly when the registry and the service catalog are replaced, so it also
  stands for their identity.  \<open>ds_alive\<close>: the components with a live, not finalized process.
\<close>

record 'w dispatcher =
  ds_components :: catalog
  ds_registry :: role_registry
  ds_services :: service_catalog
  ds_epoch :: nat
  ds_alive :: "string list"
  ds_world :: 'w

text \<open>\<open>en_forward\<close>: the response, and whether the call was handed to the provider's socket.\<close>

record 'w environment =
  en_ensure_ready :: "string \<Rightarrow> 'w dispatcher \<Rightarrow> 'w dispatcher \<times> (string, endpoint) result"
  en_forward :: "endpoint \<Rightarrow> jobj \<Rightarrow> string \<Rightarrow> 'w dispatcher \<Rightarrow> 'w dispatcher \<times> jobj \<times> bool"
  en_stop :: "endpoint \<Rightarrow> 'w dispatcher \<Rightarrow> 'w dispatcher"
  en_announce_closing :: "'w dispatcher \<Rightarrow> 'w dispatcher"
  en_core_call :: "jobj \<Rightarrow> string \<Rightarrow> 'w dispatcher \<Rightarrow> 'w dispatcher \<times> jobj"

datatype dispatch_error = DsPython py_error | DsRole role_error

section \<open>Providers\<close>

datatype search = Found endpoint | CatalogChanged | Exhausted | SearchRaised role_error

fun try_role_candidates ::
  "'w environment \<Rightarrow> string \<Rightarrow> nat \<Rightarrow> string list \<Rightarrow> string list \<Rightarrow> 'w dispatcher \<Rightarrow> 'w dispatcher \<times> search" where
  "try_role_candidates env role epoch excluded [] d = (d, Exhausted)"
| "try_role_candidates env role epoch excluded (key # keys) d =
     (if key \<in> set excluded then try_role_candidates env role epoch excluded keys d
      else case en_ensure_ready env key d of
        (d1, Inl _) \<Rightarrow>
          if ds_epoch d1 \<noteq> epoch then try_role_candidates env role epoch excluded keys d1
          else (case release_provider key (ds_registry d1) of
                  Inl e \<Rightarrow> (d1, SearchRaised e)
                | Inr (_, rg) \<Rightarrow> try_role_candidates env role epoch excluded keys (d1\<lparr>ds_registry := rg\<rparr>))
      | (d1, Inr i) \<Rightarrow>
          if ds_epoch d1 \<noteq> epoch then (d1, CatalogChanged)
          else if \<not> ep_current i then try_role_candidates env role epoch excluded keys (en_stop env i d1)
          else (case active_provider (ds_registry d1) role of
                  Inl e \<Rightarrow> (d1, SearchRaised e)
                | Inr active \<Rightarrow>
                    if active = Some key then (d1, Found i)
                    else (case acquire role (Some key) (Some (''generation:'' @ int_str (ep_generation i))) (ds_registry d1) of
                            Inl _ \<Rightarrow> try_role_candidates env role epoch excluded keys d1
                          | Inr (_, rg) \<Rightarrow> (d1\<lparr>ds_registry := rg\<rparr>, Found i))))"

definition truthy :: "string option \<Rightarrow> string list" where
  "truthy k = (case k of Some s \<Rightarrow> if s \<noteq> [] then [s] else [] | None \<Rightarrow> [])"

text \<open>The number of attempts that are left counts the reloads that may interrupt the search.\<close>

fun provider_for_role ::
  "nat \<Rightarrow> 'w environment \<Rightarrow> string \<Rightarrow> string list \<Rightarrow> 'w dispatcher \<Rightarrow> 'w dispatcher \<times> (role_error, endpoint option) result" where
  "provider_for_role 0 env role excluded d = (d, Inr None)"
| "provider_for_role (Suc n) env role excluded d =
     (case (active_provider (ds_registry d) role, candidate_ids (ds_registry d) role, preferred_provider (ds_registry d) role) of
        (Inr active, Inr candidates, Inr preferred) \<Rightarrow>
          (case try_role_candidates env role (ds_epoch d) excluded (dedup (truthy active @ truthy preferred @ candidates)) d of
             (d', Found i) \<Rightarrow> (d', Inr (Some i))
           | (d', CatalogChanged) \<Rightarrow> provider_for_role n env role excluded d'
           | (d', Exhausted) \<Rightarrow> (d', Inr None)
           | (d', SearchRaised e) \<Rightarrow> (d', Inl e))
      | _ \<Rightarrow> (d, Inr None))"

fun try_interface_candidates ::
  "'w environment \<Rightarrow> nat \<Rightarrow> string list \<Rightarrow> string list \<Rightarrow> 'w dispatcher \<Rightarrow> 'w dispatcher \<times> search" where
  "try_interface_candidates env epoch excluded [] d = (d, Exhausted)"
| "try_interface_candidates env epoch excluded (key # keys) d =
     (if key \<in> set excluded then try_interface_candidates env epoch excluded keys d
      else case en_ensure_ready env key d of
        (d1, Inl _) \<Rightarrow> try_interface_candidates env epoch excluded keys d1
      | (d1, Inr i) \<Rightarrow>
          if ds_epoch d1 \<noteq> epoch then (d1, CatalogChanged)
          else if \<not> ep_current i then try_interface_candidates env epoch excluded keys (en_stop env i d1)
          else (d1, Found i))"

fun provider_for_interface ::
  "nat \<Rightarrow> 'w environment \<Rightarrow> string \<Rightarrow> string list \<Rightarrow> 'w dispatcher \<Rightarrow> 'w dispatcher \<times> (role_error, endpoint option) result" where
  "provider_for_interface 0 env interface excluded d = (d, Inr None)"
| "provider_for_interface (Suc n) env interface excluded d =
     (case provider_ids (ds_services d) ''interface'' interface of
        Inl _ \<Rightarrow> (d, Inr None)
      | Inr candidates \<Rightarrow>
          (case try_interface_candidates env (ds_epoch d) excluded candidates d of
             (d', Found i) \<Rightarrow> (d', Inr (Some i))
           | (d', CatalogChanged) \<Rightarrow> provider_for_interface n env interface excluded d'
           | (d', Exhausted) \<Rightarrow> (d', Inr None)
           | (d', SearchRaised e) \<Rightarrow> (d', Inl e)))"

section \<open>The loop over the providers\<close>

definition with_id :: "int \<Rightarrow> jobj \<Rightarrow> jobj" where
  "with_id rid response = AList.update ''id'' (JInt rid) response"

definition response_code :: "jobj \<Rightarrow> string" where
  "response_code response = py_str (jget_or response ''code'' (JStr []))"

text \<open>
  The loops of \<open>_dispatch_role_call\<close> and \<open>_dispatch_interface_call\<close> differ in the search for a provider
  (\<open>pick\<close>), in the name their messages give the target and in the error for a target without
  provider.  \<open>asked\<close> records the providers asked and whether the call was handed to them.
\<close>

type_synonym 'w outcome = "'w dispatcher \<times> (dispatch_error, jobj) result \<times> (string \<times> bool) list"

partial_function (option) dispatch_loop ::
  "'w environment \<Rightarrow> (string list \<Rightarrow> 'w dispatcher \<Rightarrow> 'w dispatcher \<times> (role_error, endpoint option) result) \<Rightarrow>
     jobj \<Rightarrow> string \<Rightarrow> int \<Rightarrow> bool \<Rightarrow> string \<Rightarrow> jobj \<Rightarrow> string list \<Rightarrow> jobj option \<Rightarrow> (string \<times> bool) list \<Rightarrow>
     'w dispatcher \<Rightarrow> 'w outcome option" where
  "dispatch_loop env pick msg source rid retry_safe label no_provider attempted last_error asked d =
     (case pick attempted d of
        (d1, Inl e) \<Rightarrow> Some (d1, Inl (DsRole e), asked)
      | (d1, Inr None) \<Rightarrow>
          Some (d1, Inr (case last_error of Some r \<Rightarrow> with_id rid r | None \<Rightarrow> no_provider), asked)
      | (d1, Inr (Some i)) \<Rightarrow>
          (case en_forward env i msg source d1 of
             (d2, response, sent) \<Rightarrow>
               (let asked' = asked @ [(ep_key i, sent)] in
                if jget_null response ''type'' \<noteq> JStr ''error'' then Some (d2, Inr response, asked')
                else if expired_before_provider_delivery response then Some (d2, Inr (with_id rid response), asked')
                else if response_code response \<notin> set ROLE_LIVENESS_ERRORS then Some (d2, Inr (with_id rid response), asked')
                else if \<not> retry_safe \<and> response_code response \<noteq> ''NO_PROVIDER_SOCKET'' then
                  Some (en_stop env i d2,
                    Inr (call_error (JInt rid) ''OUTCOME_UNKNOWN'' (Some (label @ '' may have been delivered to '' @ ep_key i))), asked')
                else dispatch_loop env pick msg source rid retry_safe label no_provider
                       (ep_key i # attempted) (Some response) asked' (en_stop env i d2))))"

section \<open>Targets\<close>

definition call_target :: "jobj \<Rightarrow> string" where
  "call_target msg = py_str (jget_or msg ''target'' (JStr []))"

definition call_method :: "jobj \<Rightarrow> string" where
  "call_method msg = py_str (jget_or msg ''method'' (JStr []))"

text \<open>\<open>target.split(':', 1)[1]\<close>, for a target with a colon.\<close>

definition target_name :: "jobj \<Rightarrow> string" where
  "target_name msg = (case snd (split_once CHR '':'' (call_target msg)) of Some n \<Rightarrow> n | None \<Rightarrow> [])"

definition role_provider_is_running :: "string \<Rightarrow> 'w dispatcher \<Rightarrow> bool" where
  "role_provider_is_running role d =
     (case (active_provider (ds_registry d) role, preferred_provider (ds_registry d) role, candidate_ids (ds_registry d) role) of
        (Inr active, Inr preferred, Inr candidates) \<Rightarrow>
          list_ex (\<lambda>k. k \<in> set (ds_alive d)) (dedup (filter (\<lambda>k. k \<noteq> []) (truthy active @ truthy preferred @ candidates)))
      | _ \<Rightarrow> False)"

definition no_start_noop :: "jobj \<Rightarrow> bool" where
  "no_start_noop msg \<longleftrightarrow> (target_name msg, call_method msg) \<in> set ROLE_NO_START_NOOPS"

definition retry_safe_method :: "jobj \<Rightarrow> bool" where
  "retry_safe_method msg \<longleftrightarrow> py_bool (jget_null msg ''idempotent'') \<or> call_method msg \<in> set ROLE_RETRY_SAFE_METHODS"

definition dispatch_role_call :: "'w environment \<Rightarrow> jobj \<Rightarrow> string \<Rightarrow> int \<Rightarrow> 'w dispatcher \<Rightarrow> 'w outcome option" where
  "dispatch_role_call env msg source rid d =
     (let role = target_name msg; meth = call_method msg in
      if no_start_noop msg \<and> \<not> role_provider_is_running role d then
        Some (d, Inr [(''type'', JStr ''return''), (''id'', JInt rid),
           (''payload'', JObj [(''ok'', JBool True), (''role'', JStr role), (''visible'', JBool False), (''already_hidden'', JBool True)])], [])
      else
        dispatch_loop env (provider_for_role 3 env role) msg source rid (retry_safe_method msg \<or> no_start_noop msg)
          (role @ ''.'' @ meth) (call_error (JInt rid) ''NO_PROVIDER'' (Some role)) [] None []
          (if role = ''window-manager'' \<and> meth = ''close_active'' then en_announce_closing env d else d))"

definition dispatch_interface_call :: "'w environment \<Rightarrow> jobj \<Rightarrow> string \<Rightarrow> int \<Rightarrow> 'w dispatcher \<Rightarrow> 'w outcome option" where
  "dispatch_interface_call env msg source rid d =
     (let interface = target_name msg in
      if interface = [] then Some (d, Inr (call_error (JInt rid) ''BAD_TARGET'' (Some ''interface name is empty'')), [])
      else
        dispatch_loop env (provider_for_interface 3 env interface) msg source rid (retry_safe_method msg)
          (interface @ ''.'' @ call_method msg) (call_error (JInt rid) ''NO_INTERFACE_PROVIDER'' (Some interface)) [] None [] d)"

definition dispatch_component_target_call ::
  "'w environment \<Rightarrow> jobj \<Rightarrow> string \<Rightarrow> int \<Rightarrow> 'w dispatcher \<Rightarrow> 'w outcome" where
  "dispatch_component_target_call env msg source rid d =
     (let component_id = target_name msg in
      if component_id = [] \<or> \<not> dict_has (ds_components d) component_id then
        (d, Inr (call_error (JInt rid) ''UNKNOWN_COMPONENT'' (Some component_id)), [])
      else (case en_ensure_ready env component_id d of
          (d1, Inl problem) \<Rightarrow> (d1, Inr (call_error (JInt rid) ''COMPONENT_UNAVAILABLE'' (Some problem)), [])
        | (d1, Inr i) \<Rightarrow> (case en_forward env i msg source d1 of (d2, response, sent) \<Rightarrow> (d2, Inr response, [(ep_key i, sent)]))))"

text \<open>
  Calls to one role wait for each other, except the callbacks that an outer call of the same role
  itself waits for.
\<close>

definition takes_role_lock :: "role_registry \<Rightarrow> jobj \<Rightarrow> string \<Rightarrow> bool" where
  "takes_role_lock rg msg source =
     (let role = target_name msg; meth = call_method msg in
      \<not> (role = ''window-manager'' \<and> meth = ''activate_component'' \<and> source = ''msys.core'') \<and>
      \<not> (role = ''window-manager'' \<and> meth = ''recents'' \<and> active_provider rg ''task-switcher'' = Inr (Some source)) \<and>
      \<not> (role = ''chooser'' \<and> meth = ''cancel_choice''))"

definition dispatch_call :: "'w environment \<Rightarrow> jobj \<Rightarrow> string \<Rightarrow> 'w dispatcher \<Rightarrow> 'w outcome option" where
  "dispatch_call env msg source d =
     (case py_int_of (jget_or msg ''id'' (JInt 0)) of
        Inl e \<Rightarrow> Some (d, Inl (DsPython e), [])
      | Inr rid \<Rightarrow>
          (let target = call_target msg in
           if startswith target ''role:'' then dispatch_role_call env msg source rid d
           else if startswith target ''interface:'' then dispatch_interface_call env msg source rid d
           else if startswith target ''component:'' then Some (dispatch_component_target_call env msg source rid d)
           else if target = ''msys.core'' then
             (case en_core_call env msg source d of (d', response) \<Rightarrow> Some (d', Inr response, []))
           else Some (d, Inr (call_error (JInt rid) ''BAD_TARGET'' (Some target)), [])))"

section \<open>The contract of a search for providers\<close>

text \<open>
  What the dispatcher relies on in its environment: \<open>ensure_ready\<close> returns an instance of the component
  it was asked for, and only finitely many names \<open>K\<close> ever denote components.
\<close>

definition env_ok :: "string set \<Rightarrow> 'w environment \<Rightarrow> bool" where
  "env_ok K env \<longleftrightarrow> finite K \<and>
     (\<forall>key d d' i. en_ensure_ready env key d = (d', Inr i) \<longrightarrow> ep_key i = key \<and> key \<in> K)"

text \<open>
  A provider answers with its own codes: \<open>NO_PROVIDER_SOCKET\<close> is reported by the core alone, for a call
  that was not handed out.
\<close>

definition env_honest :: "'w environment \<Rightarrow> bool" where
  "env_honest env \<longleftrightarrow>
     (\<forall>i msg source d d' r. en_forward env i msg source d = (d', r, True) \<longrightarrow> response_code r \<noteq> ''NO_PROVIDER_SOCKET'')"

definition asked_once :: "string set \<Rightarrow> (string \<times> bool) list \<Rightarrow> bool" where
  "asked_once K asked \<longleftrightarrow> distinct (map fst asked) \<and> fst ` set asked \<subseteq> K"

locale provider_search =
  fixes pick :: "'w environment \<Rightarrow> string list \<Rightarrow> 'w dispatcher \<Rightarrow> 'w dispatcher \<times> (role_error, endpoint option) result"
  assumes pick_new:
    "env_ok K env \<Longrightarrow> pick env attempted d = (d', Inr (Some i)) \<Longrightarrow> ep_key i \<in> K \<and> ep_key i \<notin> set attempted"
begin

lemma loop_runs:
  assumes env: "env_ok K env"
  shows "\<exists>d' r more. dispatch_loop env (pick env) msg source rid retry_safe label no_provider attempted le asked d = Some (d', r, asked @ more) \<and>
    asked_once (K - set attempted) more \<and>
    (\<not> retry_safe \<and> env_honest env \<longrightarrow> length (filter snd more) \<le> 1)"
proof (induction "card (K - set attempted)" arbitrary: attempted le asked d rule: less_induct)
  case less
  obtain d1 p where p: "pick env attempted d = (d1, p)" by (cases "pick env attempted d")
  show ?case
  proof (cases "\<exists>i. p = Inr (Some i)")
    case False
    with p show ?thesis
      by (subst dispatch_loop.simps) (auto simp: asked_once_def split: sum.split option.split)
  next
    case True
    then obtain i where i: "p = Inr (Some i)" by blast
    from pick_new [OF env p [unfolded i]] have k: "ep_key i \<in> K" "ep_key i \<notin> set attempted" by auto
    obtain d2 r sent where f: "en_forward env i msg source d1 = (d2, r, sent)" by (cases "en_forward env i msg source d1") auto
    let ?stop = "jget_null r ''type'' \<noteq> JStr ''error'' \<or> expired_before_provider_delivery r \<or>
      response_code r \<notin> set ROLE_LIVENESS_ERRORS \<or> \<not> retry_safe \<and> response_code r \<noteq> ''NO_PROVIDER_SOCKET''"
    show ?thesis
    proof (cases ?stop)
      case True
      then show ?thesis
        using p f k unfolding i
        by (subst dispatch_loop.simps) (auto simp: asked_once_def Let_def)
    next
      case False
      have "K - set (ep_key i # attempted) \<subset> K - set attempted" using k by auto
      then have "card (K - set (ep_key i # attempted)) < card (K - set attempted)"
        using env by (intro psubset_card_mono) (auto simp: env_ok_def)
      from less [OF this, of "Some r" "asked @ [(ep_key i, sent)]" "en_stop env i d2"] obtain d' r' more where
        m: "dispatch_loop env (pick env) msg source rid retry_safe label no_provider (ep_key i # attempted) (Some r)
            (asked @ [(ep_key i, sent)]) (en_stop env i d2) = Some (d', r', (asked @ [(ep_key i, sent)]) @ more)"
        "asked_once (K - set (ep_key i # attempted)) more"
        "\<not> retry_safe \<and> env_honest env \<longrightarrow> length (filter snd more) \<le> 1" by blast
      have run: "dispatch_loop env (pick env) msg source rid retry_safe label no_provider attempted le asked d =
          Some (d', r', asked @ (ep_key i, sent) # more)"
        using p f m(1) False unfolding i by (subst dispatch_loop.simps) (auto simp: Let_def)
      have "\<not> sent" if "\<not> retry_safe \<and> env_honest env"
        using that f False unfolding env_honest_def by (cases sent) auto
      then have "\<not> retry_safe \<and> env_honest env \<longrightarrow> length (filter snd ((ep_key i, sent) # more)) \<le> 1"
        using m(3) by auto
      moreover have "asked_once (K - set attempted) ((ep_key i, sent) # more)"
        using m(2) k by (auto simp: asked_once_def)
      ultimately show ?thesis using run by blast
    qed
  qed
qed

end

lemma try_role_found:
  "env_ok K env \<Longrightarrow> try_role_candidates env role epoch ex keys d = (d', Found i) \<Longrightarrow> ep_key i \<in> K \<and> ep_key i \<notin> set ex"
  by (induction env role epoch ex keys d rule: try_role_candidates.induct)
    (auto simp: env_ok_def split: if_splits prod.splits sum.splits)

lemma try_interface_found:
  "env_ok K env \<Longrightarrow> try_interface_candidates env epoch ex keys d = (d', Found i) \<Longrightarrow> ep_key i \<in> K \<and> ep_key i \<notin> set ex"
  by (induction env epoch ex keys d rule: try_interface_candidates.induct)
    (auto simp: env_ok_def split: if_splits prod.splits sum.splits)

interpretation role_search: provider_search "\<lambda>env. provider_for_role n env role" for n role
proof unfold_locales
  show "ep_key i \<in> K \<and> ep_key i \<notin> set ex"
    if "env_ok K env" "provider_for_role n env role ex d = (d', Inr (Some i))" for K env ex d d' i
    using that
    by (induction n env role ex d rule: provider_for_role.induct)
      (auto dest: try_role_found split: prod.splits sum.splits search.splits)
qed

interpretation interface_search: provider_search "\<lambda>env. provider_for_interface n env name" for n name
proof unfold_locales
  show "ep_key i \<in> K \<and> ep_key i \<notin> set ex"
    if "env_ok K env" "provider_for_interface n env name ex d = (d', Inr (Some i))" for K env ex d d' i
    using that
    by (induction n env name ex d rule: provider_for_interface.induct)
      (auto dest: try_interface_found split: prod.splits sum.splits search.splits)
qed

section \<open>Calls are answered, and sent at most once\<close>

lemma dispatch_runs:
  assumes "env_ok K env"
  shows "\<exists>d' r asked. dispatch_call env msg source d = Some (d', r, asked) \<and> distinct (map fst asked) \<and>
    card (fst ` set asked) \<le> card K \<and>
    (env_honest env \<and> \<not> retry_safe_method msg \<and> \<not> no_start_noop msg \<longrightarrow> length (filter snd asked) \<le> 1)"
proof -
  let ?P = "\<lambda>x. \<exists>d' r asked. x = Some (d', r, asked) \<and> distinct (map fst asked) \<and> card (fst ` set asked) \<le> card K \<and>
    (env_honest env \<and> \<not> retry_safe_method msg \<and> \<not> no_start_noop msg \<longrightarrow> length (filter snd asked) \<le> 1)"
  have K: "finite K" using assms by (simp add: env_ok_def)
  have role: "?P (dispatch_role_call env msg source rid d)" for rid
    using role_search.loop_runs [OF assms, of 3 "target_name msg" msg source rid
        "retry_safe_method msg \<or> no_start_noop msg" "target_name msg @ ''.'' @ call_method msg"
        "call_error (JInt rid) ''NO_PROVIDER'' (Some (target_name msg))" "[]" None "[]"
        "if target_name msg = ''window-manager'' \<and> call_method msg = ''close_active'' then en_announce_closing env d else d"]
      card_mono [OF K]
    by (auto simp: dispatch_role_call_def asked_once_def Let_def)
  have interface: "?P (dispatch_interface_call env msg source rid d)" for rid
    using interface_search.loop_runs [OF assms, of 3 "target_name msg" msg source rid
        "retry_safe_method msg" "target_name msg @ ''.'' @ call_method msg"
        "call_error (JInt rid) ''NO_INTERFACE_PROVIDER'' (Some (target_name msg))" "[]" None "[]" d] card_mono [OF K]
    by (auto simp: dispatch_interface_call_def asked_once_def Let_def)
  have component: "?P (Some (dispatch_component_target_call env msg source rid d))" for rid
  proof -
    have "card {ep_key i} \<le> card K" if "en_ensure_ready env key d = (d1, Inr i)" for key d1 i
      using that assms K by (intro card_mono) (auto simp: env_ok_def)
    then show ?thesis
      by (auto simp: dispatch_component_target_call_def Let_def split: prod.split sum.split)
  qed
  show ?thesis
    using role interface component
    by (simp add: dispatch_call_def Let_def split: sum.split prod.split)
qed


text \<open>
  C11. A call that is not marked idempotent and whose method is not known to be repeatable is handed to
  at most one provider, as long as providers do not answer with the code by which the core reports that
  a call was not handed out.
\<close>

theorem at_most_once:
  assumes "env_ok K env" and "env_honest env" and "\<not> retry_safe_method msg" and "\<not> no_start_noop msg"
    and "dispatch_call env msg source d = Some (d', r, asked)"
  shows "length (filter snd asked) \<le> 1"
  using dispatch_runs [OF assms(1), of msg source d] assms(2-5) by auto

definition demo_env :: "unit environment" where
  "demo_env = \<lparr>
     en_ensure_ready = (\<lambda>key d. (d, if key = ''p:c'' then Inr demo_endpoint else Inl ''unknown component'')),
     en_forward = (\<lambda>i msg source d. (d, [(''type'', JStr ''error''), (''code'', JStr ''CALL_TIMEOUT'')], True)),
     en_stop = (\<lambda>i d. d), en_announce_closing = (\<lambda>d. d), en_core_call = (\<lambda>msg source d. (d, []))\<rparr>"

definition demo_dispatcher :: "unit dispatcher" where
  "demo_dispatcher = \<lparr>ds_components = [(''p:c'', demo_component)], ds_registry = projr (RoleRegistry [] [] []),
     ds_services = [((''interface'', ''i''),
       [\<lparr>sp_kind = ''interface'', sp_name = ''i'', sp_component = ''p:c'', sp_priority = 0, sp_exclusive = False\<rparr>])],
     ds_epoch = 0, ds_alive = [], ds_world = ()\<rparr>"

definition demo_call :: jobj where
  "demo_call = [(''type'', JStr ''call''), (''id'', JInt 9), (''target'', JStr ''interface:i''), (''method'', JStr ''set'')]"

lemma demo_env_ok: "env_ok {''p:c''} demo_env" "env_honest demo_env"
proof -
  show "env_ok {''p:c''} demo_env" by (simp add: env_ok_def demo_env_def demo_hub_simps)
  show "env_honest demo_env" by (simp add: env_honest_def demo_env_def response_code_def jget_or_def)
qed

lemma demo_dispatch:
  "dispatch_call demo_env demo_call ''x'' demo_dispatcher = Some (demo_dispatcher,
     Inr (call_error (JInt 9) ''OUTCOME_UNKNOWN'' (Some ''i.set may have been delivered to p:c'')), [(''p:c'', True)])"
proof -
  have t: "call_target demo_call = ''interface:i''" "target_name demo_call = ''i''" "call_method demo_call = ''set''"
    "\<not> retry_safe_method demo_call" "py_int_of (jget_or demo_call ''id'' (JInt 0)) = Inr 9" by code_simp+
  have s: "\<not> startswith ''interface:i'' ''role:''" "startswith ''interface:i'' ''interface:''" by code_simp+
  have p: "provider_for_interface 3 demo_env ''i'' [] demo_dispatcher = (demo_dispatcher, Inr (Some demo_endpoint))"
    by (simp add: numeral_3_eq_3 demo_dispatcher_def provider_ids_def providers_def checked_kind_def SERVICE_KINDS_def
        demo_env_def demo_endpoint_def)
  have r: "\<not> expired_before_provider_delivery [(''type'', JStr ''error''), (''code'', JStr ''CALL_TIMEOUT'')]"
    "response_code [(''type'', JStr ''error''), (''code'', JStr ''CALL_TIMEOUT'')] = ''CALL_TIMEOUT''"
    "jget_null [(''type'', JStr ''error''), (''code'', JStr ''CALL_TIMEOUT'')] ''type'' = JStr ''error''"
    "''CALL_TIMEOUT'' \<in> set ROLE_LIVENESS_ERRORS" by code_simp+
  have f: "en_forward demo_env e m q d = (d, [(''type'', JStr ''error''), (''code'', JStr ''CALL_TIMEOUT'')], True)"
    "en_stop demo_env e d = d" for e m q d by (simp_all add: demo_env_def)
  show ?thesis
    by (simp add: dispatch_call_def t s dispatch_interface_call_def)
      (subst dispatch_loop.simps, simp add: p f r t demo_hub_simps)
qed


theorem at_most_once_witness:
  "dispatch_call demo_env demo_call ''x'' demo_dispatcher = Some (demo_dispatcher,
     Inr (call_error (JInt 9) ''OUTCOME_UNKNOWN'' (Some ''i.set may have been delivered to p:c'')), [(''p:c'', True)]) \<and>
   length (filter snd [(''p:c'', True)]) \<le> 1"
proof -
  have "\<not> retry_safe_method demo_call" "\<not> no_start_noop demo_call" by code_simp+
  from at_most_once [OF demo_env_ok this demo_dispatch] demo_dispatch show ?thesis by (rule conjI [rotated])
qed

end
