(* ===== verification/Component_Launch.thy ===== *)
theory Component_Launch
  imports Roles Locale_Names
begin

text \<open>
  What the supervisor hands to a component it starts (\<open>msys_core/msysd.py\<close>): the environment
  (\<open>_component_environment\<close>, \<open>_apply_component_isolation\<close> and the variables that \<open>_ensure_started_locked\<close>
  adds), the argument vector (\<open>_resolve_exec\<close>), and the session language that enters both.  The file
  system is an argument, as are the environment of the supervisor and its Python interpreter.

  The lemmas show which variables a manifest can and cannot influence, and that a package-relative
  argument never leaves its package.
\<close>

section \<open>The display of the session\<close>

definition DEFAULT_X11_DISPLAY :: string where "DEFAULT_X11_DISPLAY = '':0''"

definition display_for_provider :: "component \<Rightarrow> string option" where
  "display_for_provider c =
     find (\<lambda>v. v \<noteq> []) (map (\<lambda>name. py_strip (dict_get_or (c_env c) name [])) [''DISPLAY_ID'', ''DISPLAY''])"

definition selected_display :: "role_registry \<Rightarrow> catalog \<Rightarrow> string option" where
  "selected_display rg components =
     (case active_provider rg ''display-output'' of
        Inl _ \<Rightarrow> None
      | Inr active \<Rightarrow>
          (case (if active = None \<or> active = Some [] then preferred_provider rg ''display-output'' else Inr active) of
             Inl _ \<Rightarrow> None
           | Inr provider_id \<Rightarrow> Option.bind (Option.bind provider_id (map_of components)) display_for_provider))"

text \<open>\<open>profile.get('env', {})\<close> with string keys and values.\<close>

definition profile_env :: "jobj \<Rightarrow> (string, json) dict" where
  "profile_env profile = (case jget_or profile ''env'' (JObj []) of JObj d \<Rightarrow> d | _ \<Rightarrow> [])"

definition session_display :: "role_registry \<Rightarrow> catalog \<Rightarrow> jobj \<Rightarrow> (string, string) dict \<Rightarrow> string" where
  "session_display rg components profile host =
     (case selected_display rg components of
        Some d \<Rightarrow> d
      | None \<Rightarrow>
          (let configured = jget_null (profile_env profile) ''DISPLAY'' in
           if py_bool configured then py_str configured
           else let inherited = dict_get_or host ''DISPLAY'' [] in
             if inherited \<noteq> [] then inherited else DEFAULT_X11_DISPLAY))"

section \<open>The session language\<close>

definition SESSION_PREFERENCES_SCHEMA :: string where
  "SESSION_PREFERENCES_SCHEMA = ''msys.session-preferences.v1''"

definition validate_session_language :: "json \<Rightarrow> (py_error, string) result" where
  "validate_session_language v =
     (let language = py_strip (py_str v) in
      if language = ''system'' then Inr language
      else (case normalize_msys_locale language of
              Some n \<Rightarrow> if n = language then Inr n else Inl (ValueError ''language must be system or a canonical locale'')
            | None \<Rightarrow> Inl (ValueError ''language must be system or a canonical locale'')))"

text \<open>\<open>data\<close>: the decoded file, \<open>None\<close> when it cannot be read as JSON.\<close>

definition load_session_preferences :: "json option \<Rightarrow> string \<Rightarrow> string" where
  "load_session_preferences data current = (case data of
       Some (JObj d) \<Rightarrow>
         if jget_null d ''schema'' \<noteq> JStr SESSION_PREFERENCES_SCHEMA then current
         else (case validate_session_language (jget_or d ''language'' (JStr ''system'')) of
                 Inr l \<Rightarrow> l | Inl _ \<Rightarrow> current)
     | _ \<Rightarrow> current)"

definition session_preferences_document :: "string \<Rightarrow> jobj" where
  "session_preferences_document language =
     [(''schema'', JStr SESSION_PREFERENCES_SCHEMA), (''language'', JStr language)]"

definition session_environment :: "(string, string) dict \<Rightarrow> jobj \<Rightarrow> (string, string) dict" where
  "session_environment host profile = dict_update host (map (\<lambda>(k, v). (k, py_str v)) (profile_env profile))"

definition profile_session_locale :: "(string, string) dict \<Rightarrow> jobj \<Rightarrow> string option" where
  "profile_session_locale host profile = map_of (supervisor_locale_environment (session_environment host profile)) ''MSYS_LOCALE''"

definition session_preferences_payload :: "(string, string) dict \<Rightarrow> jobj \<Rightarrow> string \<Rightarrow> jobj" where
  "session_preferences_payload host profile language =
     (let resolved = (if language = ''system'' then profile_session_locale host profile else Some language) in
      [(''schema'', JStr SESSION_PREFERENCES_SCHEMA), (''language'', JStr language),
       (''resolved_language'', JStr (case resolved of Some r \<Rightarrow> r | None \<Rightarrow> []))])"

section \<open>The environment\<close>

definition session_locale :: "(string, string) dict \<Rightarrow> jobj \<Rightarrow> string \<Rightarrow> (string, string) dict" where
  "session_locale host profile language =
     (let derived = supervisor_locale_environment (session_environment host profile) in
      if language \<noteq> ''system'' then AList.update ''MSYS_LOCALE'' language derived else derived)"

definition component_environment ::
  "(string, string) dict \<Rightarrow> jobj \<Rightarrow> string \<Rightarrow> string \<Rightarrow> component \<Rightarrow> (string, string) dict" where
  "component_environment host profile language display c =
     (let env = AList.update ''DISPLAY'' display (session_environment host profile);
          env = dict_update env (c_env c);
          env = filter (\<lambda>(name, _). \<not> is_i18n_environment_name name) env
      in dict_update env (session_locale host profile language))"

datatype file_kind = RegularFile | SymbolicLink | OtherFile

text \<open>\<open>None\<close> is the \<open>OSError\<close> (or, for a loop of links, the \<open>RuntimeError\<close>) of the operation.\<close>

record launch_fs =
  lf_resolve_strict :: "path \<Rightarrow> path option"
  lf_resolve :: "path \<Rightarrow> path option"
  lf_is_dir :: "path \<Rightarrow> bool"
  lf_is_file :: "path \<Rightarrow> bool"
  lf_lstat :: "path \<Rightarrow> file_kind option"
  lf_executable :: "path \<Rightarrow> bool"
  lf_mkdir :: "path \<Rightarrow> bool"

text \<open>The one inherited Python path that system packages may use: directories that hold the SDK.\<close>

definition approved_directory :: "launch_fs \<Rightarrow> string \<Rightarrow> string option" where
  "approved_directory fs value =
     (if value = [] then None
      else Option.bind (lf_resolve_strict fs (path_of value)) (\<lambda>resolved.
        if lf_is_dir fs resolved \<and> lf_is_file fs (resolved @ [''msys_sdk'', ''__init__.py''])
        then Some (path_str resolved) else None))"

definition platform_pythonpath :: "launch_fs \<Rightarrow> (string, string) dict \<Rightarrow> component \<Rightarrow> string" where
  "platform_pythonpath fs host c =
     (if c_package_kind c \<noteq> ''system'' then []
      else
        let configured = dict_get_or host ''MSYS_PLATFORM_PYTHONPATH'' [];
            candidates = py_split CHR '':'' (if configured \<noteq> [] then configured else dict_get_or host ''PYTHONPATH'' [])
        in py_join '':'' (dedup (List.map_filter (approved_directory fs) candidates)))"

definition PYTHON_VARIABLES :: "string list" where
  "PYTHON_VARIABLES =
     [''PYTHONPATH'', ''PYTHONHOME'', ''PYTHONSTARTUP'', ''PYTHONUSERBASE'', ''VIRTUAL_ENV'', ''MSYS_PLATFORM_PYTHONPATH'']"

record launch_roots =
  lr_state_dir :: path
  lr_runtime_dir :: path

definition app_root :: "launch_roots \<Rightarrow> component \<Rightarrow> path" where
  "app_root roots c = path_join (lr_state_dir roots @ [''apps'']) (c_package_id c)"

definition app_runtime :: "launch_roots \<Rightarrow> component \<Rightarrow> path" where
  "app_runtime roots c = path_join (path_join (lr_runtime_dir roots @ [''components'']) (c_package_id c)) (c_id c)"

definition private_variables :: "launch_roots \<Rightarrow> component \<Rightarrow> (string, string) dict" where
  "private_variables roots c =
     (let root = app_root roots c; runtime = app_runtime roots c in
      [(''HOME'', path_str (root @ [''home''])), (''XDG_CONFIG_HOME'', path_str (root @ [''config''])),
       (''XDG_DATA_HOME'', path_str (root @ [''data''])), (''XDG_CACHE_HOME'', path_str (root @ [''cache''])),
       (''XDG_RUNTIME_DIR'', path_str runtime), (''TMPDIR'', path_str (runtime @ [''tmp''])),
       (''PYTHONNOUSERSITE'', ''1''), (''PYTHONDONTWRITEBYTECODE'', ''1''),
       (''MSYS_APP_STATE_DIR'', path_str root), (''MSYS_APP_RUNTIME_DIR'', path_str runtime)])"

definition private_directories :: "launch_roots \<Rightarrow> component \<Rightarrow> path list" where
  "private_directories roots c =
     map (\<lambda>name. app_root roots c @ [name]) [''home'', ''config'', ''data'', ''cache''] @
     [app_runtime roots c, app_runtime roots c @ [''tmp'']]"

definition isolated_environment ::
  "launch_fs \<Rightarrow> launch_roots \<Rightarrow> (string, string) dict \<Rightarrow> component \<Rightarrow> (string, string) dict \<Rightarrow> (string, string) dict" where
  "isolated_environment fs roots host c env =
     (let env = filter (\<lambda>(name, _). name \<notin> set PYTHON_VARIABLES) env;
          env = dict_update env (private_variables roots c);
          platform = platform_pythonpath fs host c
      in if platform \<noteq> [] then AList.update ''PYTHONPATH'' platform (AList.update ''MSYS_PLATFORM_PYTHONPATH'' platform env)
         else env)"

datatype exec_error =
    PrivateDirectoryFailed path
  | PackageRootUnresolved
  | NoManifest
  | EmptyPackagePath
  | UnsafePackagePath string
  | AbsolutePackagePath string
  | EscapesPackage string
  | ExecutableUnavailable string
  | ExecutableIsSymlink string
  | ExecutableNotRegular string
  | ExecutableNotExecutable string

text \<open>
  \<open>builtin\<close>: the component is the very object of the built-in catalog.  The first directory that cannot
  be created ends the start with the error of \<open>mkdir\<close>; a failing \<open>chmod\<close> is ignored.
\<close>

definition apply_component_isolation ::
  "launch_fs \<Rightarrow> launch_roots \<Rightarrow> (string, string) dict \<Rightarrow> bool \<Rightarrow> component \<Rightarrow> (string, string) dict \<Rightarrow>
     (exec_error, (string, string) dict) result" where
  "apply_component_isolation fs roots host builtin c env =
     (if builtin then Inr env
      else (case find (\<lambda>directory. \<not> lf_mkdir fs directory) (private_directories roots c) of
              Some directory \<Rightarrow> Inl (PrivateDirectoryFailed directory)
            | None \<Rightarrow> Inr (isolated_environment fs roots host c env)))"

record launch_ids =
  li_control_fd :: int
  li_generation :: int
  li_activation :: jobj

definition identity_variables :: "component \<Rightarrow> (string, string) dict" where
  "identity_variables c = (case jget_null (c_windowing c) ''identity'' of
       JObj d \<Rightarrow>
         (let app_id = py_str (jget_or d ''app_id'' (JStr []));
              cls = jget_null d ''x11_wm_class'';
              wm_class = (if py_bool cls then py_str cls else app_id);
              instance_name = jget_null d ''x11_wm_instance''
          in (if app_id \<noteq> [] then [(''MSYS_APP_ID'', app_id)] else []) @
             (if wm_class \<noteq> [] then [(''MSYS_WINDOW_IDENTITY'', wm_class)] else []) @
             (if py_bool instance_name then [(''MSYS_X11_WM_INSTANCE'', py_str instance_name)] else []))
     | other \<Rightarrow>
         if py_bool other then [(''MSYS_APP_ID'', py_str other), (''MSYS_WINDOW_IDENTITY'', py_str other)] else [])"

definition package_root_variable :: "launch_fs \<Rightarrow> component \<Rightarrow> (exec_error, (string, string) dict) result" where
  "package_root_variable fs c = (case c_manifest_path c of
       None \<Rightarrow> Inr []
     | Some m \<Rightarrow> (case lf_resolve fs (butlast m) of
           None \<Rightarrow> Inl PackageRootUnresolved
         | Some resolved \<Rightarrow> Inr [(''MSYS_PACKAGE_ROOT'', path_str resolved)]))"

definition launch_variables ::
  "launch_roots \<Rightarrow> launch_ids \<Rightarrow> component \<Rightarrow> (string, string) dict \<Rightarrow> (string, string) dict" where
  "launch_variables roots ids c package_root =
     [(''MSYS_CONTROL_FD'', int_str (li_control_fd ids)), (''MSYS_COMPONENT_ID'', component_key c),
      (''MSYS_GENERATION'', int_str (li_generation ids)), (''MSYS_RUNTIME_DIR'', path_str (lr_runtime_dir roots)),
      (''MSYS_PACKAGE_ID'', c_package_id c), (''MSYS_PACKAGE_VERSION'', c_package_version c),
      (''MSYS_STATE_DIR'', path_str (lr_state_dir roots))] @
     (let title = jget_null (c_windowing c) ''title'' in if py_bool title then [(''MSYS_WINDOW_TITLE'', py_str title)] else []) @
     identity_variables c @
     package_root @
     (if li_activation ids \<noteq> [] then [(''MSYS_ACTIVATION_JSON'', json_dumps (JObj (li_activation ids)))] else [])"

definition launch_environment ::
  "launch_fs \<Rightarrow> launch_roots \<Rightarrow> (string, string) dict \<Rightarrow> jobj \<Rightarrow> string \<Rightarrow> string \<Rightarrow> bool \<Rightarrow> launch_ids \<Rightarrow>
     isolation_launch_plan \<Rightarrow> component \<Rightarrow> (exec_error, (string, string) dict) result" where
  "launch_environment fs roots host profile language display builtin ids plan c =
     rbind (apply_component_isolation fs roots host builtin c (component_environment host profile language display c)) (\<lambda>env.
     rbind (package_root_variable fs c) (\<lambda>package_root.
       Inr (dict_update (dict_update env (launch_variables roots ids c package_root)) (plan_environment plan))))"

section \<open>The argument vector\<close>

definition package_relative :: "string \<Rightarrow> string" where
  "package_relative value = (if value = ''@package'' then [] else removeprefix value ''@package/'')"

definition resolve_package_argument :: "launch_fs \<Rightarrow> component \<Rightarrow> string \<Rightarrow> (exec_error, path \<times> path) result" where
  "resolve_package_argument fs c value =
     (case c_manifest_path c of
        None \<Rightarrow> Inl NoManifest
      | Some manifest_path \<Rightarrow>
          (let relative = package_relative value in
           if relative = [] then Inl EmptyPackagePath
           else if CHR 0x00 \<in> set relative \<or> CHR 0x5C \<in> set relative then Inl (UnsafePackagePath value)
           else
             let segments = py_split CHR ''/'' relative in
             if list_ex (\<lambda>s. s \<in> {[], ''.'', ''..''}) segments then Inl (UnsafePackagePath value)
             else if path_root relative \<noteq> [] \<or> path_of relative = [] then Inl (AbsolutePackagePath value)
             else (case lf_resolve_strict fs (butlast manifest_path) of
                     None \<Rightarrow> Inl (EscapesPackage value)
                   | Some package_root \<Rightarrow>
                       (case lf_resolve fs (package_root @ segments) of
                          None \<Rightarrow> Inl (EscapesPackage value)
                        | Some resolved \<Rightarrow>
                            if prefix package_root resolved then Inr (package_root @ segments, resolved)
                            else Inl (EscapesPackage value)))))"

definition validate_package_executable :: "launch_fs \<Rightarrow> string \<Rightarrow> path \<Rightarrow> path \<Rightarrow> (exec_error, unit) result" where
  "validate_package_executable fs declared candidate resolved =
     (case lf_lstat fs candidate of
        None \<Rightarrow> Inl (ExecutableUnavailable declared)
      | Some SymbolicLink \<Rightarrow> Inl (ExecutableIsSymlink declared)
      | Some OtherFile \<Rightarrow> Inl (ExecutableNotRegular declared)
      | Some RegularFile \<Rightarrow>
          if lf_executable fs resolved then Inr () else Inl (ExecutableNotExecutable declared))"

definition is_package_reference :: "string \<Rightarrow> bool" where
  "is_package_reference value \<longleftrightarrow> value = ''@package'' \<or> startswith value ''@package/''"

fun resolve_arguments ::
  "launch_fs \<Rightarrow> component \<Rightarrow> bool \<Rightarrow> string list \<Rightarrow> (exec_error, string list) result" where
  "resolve_arguments fs c first [] = Inr []"
| "resolve_arguments fs c first (value # values) =
     rbind (if is_package_reference value then
              rbind (resolve_package_argument fs c value) (\<lambda>(candidate, resolved).
              rbind (if first then validate_package_executable fs value candidate resolved else Inr ()) (\<lambda>_.
                Inr (path_str resolved)))
            else Inr value) (\<lambda>arg.
     rbind (resolve_arguments fs c False values) (\<lambda>args. Inr (arg # args)))"

definition resolve_exec ::
  "launch_fs \<Rightarrow> string \<Rightarrow> component \<Rightarrow> (exec_error, string list) result" where
  "resolve_exec fs interpreter c =
     rbind (resolve_arguments fs c True (c_exec c)) (\<lambda>argv.
       case argv of
         a # rest \<Rightarrow> Inr (if a \<in> {''python'', ''@msys-python''} then interpreter # rest else argv)
       | [] \<Rightarrow> Inr [])"

section \<open>What a manifest can influence\<close>

lemma map_of_filter_names: "map_of (filter (\<lambda>(k, _). P k) d) k = (if P k then map_of d k else None)"
  by (induction d) auto

lemma derive_locale_wf [simp]: "dict_wf env \<Longrightarrow> dict_wf (derive_locale names env)"
  by (induction names env rule: derive_locale.induct) (auto split: option.splits)

lemma derive_locale_names:
  "map_of (derive_locale names env) k \<noteq> None \<Longrightarrow> map_of env k \<noteq> None \<or> k = ''MSYS_LOCALE''"
  by (induction names env rule: derive_locale.induct) (auto simp: dict_simps split: option.splits if_splits)

lemma session_locale_wf: "dict_wf host \<Longrightarrow> dict_wf (session_locale host profile language)"
  by (simp add: session_locale_def supervisor_locale_environment_def session_environment_def Let_def)

lemma session_locale_names: "map_of (session_locale host profile language) k \<noteq> None \<Longrightarrow> is_i18n_environment_name k"
proof -
  have "is_i18n_environment_name ''MSYS_LOCALE''" by (simp add: is_i18n_environment_name_def)
  moreover have "map_of (supervisor_locale_environment e) k \<noteq> None \<Longrightarrow> is_i18n_environment_name k" for e
    using derive_locale_names [of I18N_LOCALE_PRECEDENCE "filter (\<lambda>(name, _). is_i18n_environment_name name) e" k] calculation
    by (auto simp: supervisor_locale_environment_def map_of_filter_names split: if_splits)
  ultimately show "map_of (session_locale host profile language) k \<noteq> None \<Longrightarrow> is_i18n_environment_name k"
    by (auto simp: session_locale_def Let_def dict_simps split: if_splits)
qed

lemma component_environment_locale:
  assumes "dict_wf host" and "is_i18n_environment_name name"
  shows "map_of (component_environment host profile language display c) name = map_of (session_locale host profile language) name"
  using assms(2) map_of_rev_wf [OF session_locale_wf [OF assms(1)], of profile language]
  by (simp add: component_environment_def Let_def map_of_dict_update map_of_filter_names map_add_def split: option.split)

text \<open>The names under which the later stages store never are locale names, and the reverse.\<close>

lemma i18n_names [simp]:
  "is_i18n_environment_name (CHR ''M'' # CHR ''S'' # CHR ''Y'' # CHR ''S'' # CHR ''_'' # c # s) \<Longrightarrow> c = CHR ''L''"
  "\<not> is_i18n_environment_name (CHR ''P'' # s)" "\<not> is_i18n_environment_name (CHR ''H'' # s)"
  "\<not> is_i18n_environment_name (CHR ''X'' # s)" "\<not> is_i18n_environment_name (CHR ''T'' # s)"
  "\<not> is_i18n_environment_name (CHR ''V'' # s)"
  by (auto simp: is_i18n_environment_name_def startswith_def)

definition stage_names :: "(string, string) dict \<Rightarrow> string set" where
  "stage_names d = fst ` set d"

lemma map_of_stage: "name \<notin> stage_names e \<Longrightarrow> map_of (dict_update d e) name = map_of d name"
proof -
  assume "name \<notin> stage_names e"
  then have "map_of (rev e) name = None" by (simp add: map_of_eq_None_iff stage_names_def)
  then show ?thesis by (simp add: map_of_dict_update map_add_def)
qed

lemma map_of_stage_hit: "dict_wf e \<Longrightarrow> map_of e name = Some v \<Longrightarrow> map_of (dict_update d e) name = Some v"
  by (simp add: map_of_dict_update map_of_rev_wf)

lemma identity_names: "stage_names (identity_variables c) \<subseteq> {''MSYS_APP_ID'', ''MSYS_WINDOW_IDENTITY'', ''MSYS_X11_WM_INSTANCE''}"
  by (cases "jget_null (c_windowing c) ''identity''") (auto simp: identity_variables_def stage_names_def Let_def)

lemma identity_wf: "dict_wf (identity_variables c)"
  by (cases "jget_null (c_windowing c) ''identity''") (auto simp: identity_variables_def dict_wf_def Let_def)

definition CORE_NAMES :: "string list" where
  "CORE_NAMES = [''MSYS_CONTROL_FD'', ''MSYS_COMPONENT_ID'', ''MSYS_GENERATION'', ''MSYS_RUNTIME_DIR'', ''MSYS_PACKAGE_ID'',
     ''MSYS_PACKAGE_VERSION'', ''MSYS_STATE_DIR'']"

definition LATER_NAMES :: "string list" where
  "LATER_NAMES = [''MSYS_WINDOW_TITLE'', ''MSYS_APP_ID'', ''MSYS_WINDOW_IDENTITY'', ''MSYS_X11_WM_INSTANCE'', ''MSYS_PACKAGE_ROOT'',
     ''MSYS_ACTIVATION_JSON'', ''MSYS_ISOLATION_PROFILE'', ''MSYS_ISOLATION_FAILURE_POLICY'', ''MSYS_ISOLATION_DEGRADED'', ''MSYS_ISOLATION_JSON'']"

definition core_variables :: "launch_roots \<Rightarrow> launch_ids \<Rightarrow> component \<Rightarrow> (string, string) dict" where
  "core_variables roots ids c =
     [(''MSYS_CONTROL_FD'', int_str (li_control_fd ids)), (''MSYS_COMPONENT_ID'', component_key c),
      (''MSYS_GENERATION'', int_str (li_generation ids)), (''MSYS_RUNTIME_DIR'', path_str (lr_runtime_dir roots)),
      (''MSYS_PACKAGE_ID'', c_package_id c), (''MSYS_PACKAGE_VERSION'', c_package_version c),
      (''MSYS_STATE_DIR'', path_str (lr_state_dir roots))]"

lemma dict_update_append: "dict_update d (e @ f) = dict_update (dict_update d e) f"
  by (simp add: dict_update_def)

text \<open>All that follows the identity of the component is stored under the later names.\<close>

lemma launch_split:
  assumes "launch_environment fs roots host profile language display False ids plan c = Inr env"
  shows "\<exists>rest. stage_names rest \<subseteq> set LATER_NAMES \<and>
    env = dict_update (dict_update (isolated_environment fs roots host c (component_environment host profile language display c))
            (core_variables roots ids c)) rest"
proof -
  from assms obtain pr where pr: "package_root_variable fs c = Inr pr" and env: "env = dict_update (dict_update
      (isolated_environment fs roots host c (component_environment host profile language display c))
      (launch_variables roots ids c pr)) (plan_environment plan)"
    by (auto simp: launch_environment_def apply_component_isolation_def result_simps split: option.splits)
  have names: "stage_names pr \<subseteq> {''MSYS_PACKAGE_ROOT''}"
    using pr by (auto simp: package_root_variable_def stage_names_def split: option.splits)
  let ?t = "let title = jget_null (c_windowing c) ''title'' in if py_bool title then [(''MSYS_WINDOW_TITLE'', py_str title)] else []"
  let ?a = "if li_activation ids \<noteq> [] then [(''MSYS_ACTIVATION_JSON'', json_dumps (JObj (li_activation ids)))] else []"
  let ?rest = "?t @ identity_variables c @ pr @ ?a @ plan_environment plan"
  have "stage_names ?rest \<subseteq> set LATER_NAMES"
    using names identity_names [of c]
    by (auto simp: stage_names_def LATER_NAMES_def plan_environment_def Let_def)
  moreover have "env = dict_update (dict_update (isolated_environment fs roots host c
      (component_environment host profile language display c)) (core_variables roots ids c)) ?rest"
    unfolding env launch_variables_def core_variables_def dict_update_append by simp
  ultimately show ?thesis by blast
qed

lemma private_wf: "dict_wf (private_variables roots c)"
  by (simp add: private_variables_def dict_wf_def Let_def)

lemma private_names:
  "stage_names (private_variables roots c) = {''HOME'', ''XDG_CONFIG_HOME'', ''XDG_DATA_HOME'', ''XDG_CACHE_HOME'', ''XDG_RUNTIME_DIR'',
     ''TMPDIR'', ''PYTHONNOUSERSITE'', ''PYTHONDONTWRITEBYTECODE'', ''MSYS_APP_STATE_DIR'', ''MSYS_APP_RUNTIME_DIR''}"
  by (auto simp: private_variables_def stage_names_def Let_def)

lemma isolation_lookup:
  "map_of (isolated_environment fs roots host c env) name =
     (let platform = platform_pythonpath fs host c in
      if name \<in> {''PYTHONPATH'', ''MSYS_PLATFORM_PYTHONPATH''} then (if platform \<noteq> [] then Some platform else None)
      else if name \<in> stage_names (private_variables roots c) then map_of (private_variables roots c) name
      else if name \<in> set PYTHON_VARIABLES then None else map_of env name)"
proof -
  let ?f = "filter (\<lambda>(name, _). name \<notin> set PYTHON_VARIABLES) env"
  have p: "map_of (dict_update ?f (private_variables roots c)) name =
      (if name \<in> stage_names (private_variables roots c) then map_of (private_variables roots c) name
       else if name \<in> set PYTHON_VARIABLES then None else map_of env name)"
  proof (cases "name \<in> stage_names (private_variables roots c)")
    case True
    then obtain v where "map_of (private_variables roots c) name = Some v"
      by (metis map_of_eq_None_iff not_None_eq stage_names_def)
    with True show ?thesis using map_of_stage_hit [OF private_wf] by simp
  next
    case False
    then show ?thesis using map_of_filter_names [of "\<lambda>n. n \<notin> set PYTHON_VARIABLES" env name]
      by (simp add: map_of_stage)
  qed
  have n: "''PYTHONPATH'' \<notin> stage_names (private_variables roots c)" "''MSYS_PLATFORM_PYTHONPATH'' \<notin> stage_names (private_variables roots c)"
    "''PYTHONPATH'' \<in> set PYTHON_VARIABLES" "''MSYS_PLATFORM_PYTHONPATH'' \<in> set PYTHON_VARIABLES"
    by (simp_all add: private_names PYTHON_VARIABLES_def)
  show ?thesis
    using p n by (auto simp: isolated_environment_def Let_def dict_simps)
qed

text \<open>
  C17. Whatever environment the manifest of an installed component declares, the component is started
  with the locale of the session, with the identity and the channel the supervisor assigned, with the
  home, configuration, data, cache, runtime and temporary directories derived from its ids, and with
  no Python search path but the approved platform directories.
\<close>

theorem launch_environment_owned:
  assumes "dict_wf host"
    and "launch_environment fs roots host profile language display False ids plan c = Inr env"
  shows "(\<forall>name. is_i18n_environment_name name \<longrightarrow> map_of env name = map_of (session_locale host profile language) name) \<and>
    (\<forall>(name, v) \<in> set (core_variables roots ids c @ private_variables roots c). map_of env name = Some v) \<and>
    (\<forall>name \<in> set PYTHON_VARIABLES. map_of env name =
       (if name \<in> {''PYTHONPATH'', ''MSYS_PLATFORM_PYTHONPATH''} \<and> platform_pythonpath fs host c \<noteq> []
        then Some (platform_pythonpath fs host c) else None))"
proof -
  let ?iso = "isolated_environment fs roots host c (component_environment host profile language display c)"
  obtain rest where rest: "stage_names rest \<subseteq> set LATER_NAMES"
    and env: "env = dict_update (dict_update ?iso (core_variables roots ids c)) rest"
    using launch_split [OF assms(2)] by blast
  have core: "stage_names (core_variables roots ids c) = set CORE_NAMES" "dict_wf (core_variables roots ids c)"
    by (auto simp: core_variables_def stage_names_def CORE_NAMES_def dict_wf_def)
  have keep: "map_of env name = map_of ?iso name" if "name \<notin> set LATER_NAMES" "name \<notin> set CORE_NAMES" for name
  proof -
    have "name \<notin> stage_names rest" "name \<notin> stage_names (core_variables roots ids c)" using that rest core(1) by auto
    then show ?thesis by (simp add: env map_of_stage)
  qed
  have i18n: "name \<notin> set LATER_NAMES \<union> set CORE_NAMES \<union> set PYTHON_VARIABLES \<union> stage_names (private_variables roots c)"
    if "is_i18n_environment_name name" for name
    using that by (auto simp: LATER_NAMES_def CORE_NAMES_def PYTHON_VARIABLES_def private_names is_i18n_environment_name_def startswith_def)
  have loc: "map_of env name = map_of (session_locale host profile language) name" if "is_i18n_environment_name name" for name
    using i18n [OF that] component_environment_locale [OF assms(1) that] keep [of name]
    by (auto simp: isolation_lookup Let_def PYTHON_VARIABLES_def)
  have own: "map_of env name = Some v" if "(name, v) \<in> set (core_variables roots ids c)" for name v
  proof -
    have n: "name \<in> set CORE_NAMES" using that core(1) by (force simp: stage_names_def)
    then have "name \<notin> set LATER_NAMES" by (auto simp: CORE_NAMES_def LATER_NAMES_def)
    with rest have "name \<notin> stage_names rest" by blast
    moreover have "map_of (core_variables roots ids c) name = Some v" using that core(2) by (simp add: dict_wf_map_of)
    ultimately show ?thesis using map_of_stage_hit [OF core(2)] by (simp add: env map_of_stage)
  qed
  have priv: "map_of env name = Some v" if "(name, v) \<in> set (private_variables roots c)" for name v
  proof -
    have n: "name \<in> stage_names (private_variables roots c)" using that by (force simp: stage_names_def)
    then have "name \<notin> set LATER_NAMES" "name \<notin> set CORE_NAMES" "name \<notin> {''PYTHONPATH'', ''MSYS_PLATFORM_PYTHONPATH''}"
      by (auto simp: CORE_NAMES_def LATER_NAMES_def private_names)
    moreover have "map_of (private_variables roots c) name = Some v" using that private_wf by (simp add: dict_wf_map_of)
    ultimately show ?thesis using n keep [of name] by (simp add: isolation_lookup Let_def)
  qed
  have python: "map_of env name = (if name \<in> {''PYTHONPATH'', ''MSYS_PLATFORM_PYTHONPATH''} \<and> platform_pythonpath fs host c \<noteq> []
      then Some (platform_pythonpath fs host c) else None)" if "name \<in> set PYTHON_VARIABLES" for name
  proof -
    have "name \<notin> set LATER_NAMES" "name \<notin> set CORE_NAMES" "name \<notin> stage_names (private_variables roots c)"
      using that by (auto simp: CORE_NAMES_def LATER_NAMES_def PYTHON_VARIABLES_def private_names)
    then show ?thesis using that keep [of name] by (simp add: isolation_lookup Let_def)
  qed
  from loc own priv python show ?thesis by auto
qed

definition demo_launch_component :: component where
  "demo_launch_component = snd (hd (projr (load_manifests (\<lambda>_. Inr (JObj
     [(''schema'', JStr ''msys.manifest.v1''), (''package'', JObj [(''id'', JStr ''p'')]),
      (''components'', JList [JObj [(''id'', JStr ''a''), (''exec'', JList [JStr ''@package/bin/run'', JStr ''-x'']), (''lifecycle'', JStr ''manual''),
         (''env'', JObj [(''LANG'', JStr ''xx''), (''PYTHONPATH'', JStr ''/evil''), (''HOME'', JStr ''/root''), (''MSYS_COMPONENT_ID'', JStr ''q:b'')])]])]))
     [[''/'', ''pkg'', ''manifest.json'']] [])))"

definition demo_launch_fs :: launch_fs where
  "demo_launch_fs = \<lparr>lf_resolve_strict = Some, lf_resolve = Some, lf_is_dir = (\<lambda>_. True), lf_is_file = (\<lambda>_. True),
     lf_lstat = (\<lambda>_. Some RegularFile), lf_executable = (\<lambda>_. True),
     lf_mkdir = (\<lambda>_. True)\<rparr>"

definition demo_launch_roots :: launch_roots where
  "demo_launch_roots = \<lparr>lr_state_dir = [''/'', ''state''], lr_runtime_dir = [''/'', ''run'']\<rparr>"

definition demo_launch_ids :: launch_ids where
  "demo_launch_ids = \<lparr>li_control_fd = 7, li_generation = 1, li_activation = []\<rparr>"

definition demo_launch_plan :: isolation_launch_plan where
  "demo_launch_plan = projr (prepare_isolation_launch
     \<lparr>cap_linux = True, cap_prctl = True, cap_unshare = True, cap_namespaces = [], cap_rlimits = [], cap_seccomp_helper = None\<rparr>
     IsolationSpec [''/pkg/bin/run'', ''-x''])"

theorem launch_environment_owned_witness:
  "\<exists>env. launch_environment demo_launch_fs demo_launch_roots [(''LANG'', ''de_DE.UTF-8'')] [] ''system'' '':0'' False demo_launch_ids demo_launch_plan
       demo_launch_component = Inr env \<and>
     map_of env ''LANG'' = Some ''de_DE.UTF-8'' \<and> map_of env ''HOME'' = Some ''/state/apps/p/home'' \<and>
     map_of env ''PYTHONPATH'' = None \<and> map_of env ''MSYS_COMPONENT_ID'' = Some ''p:a''"
proof -
  let ?host = "[(''LANG'', ''de_DE.UTF-8'')] :: (string, string) dict"
  have "is_ok (package_root_variable demo_launch_fs demo_launch_component)"
    "find (\<lambda>directory. \<not> lf_mkdir demo_launch_fs directory) (private_directories demo_launch_roots demo_launch_component) = None"
    by code_simp+
  then obtain env where env: "launch_environment demo_launch_fs demo_launch_roots ?host [] ''system'' '':0'' False demo_launch_ids demo_launch_plan
      demo_launch_component = Inr env"
    by (auto simp: is_ok_iff launch_environment_def apply_component_isolation_def)
  have wf: "dict_wf ?host" by (simp add: dict_wf_def)
  have "map_of (session_locale ?host [] ''system'') ''LANG'' = Some ''de_DE.UTF-8''"
    "(''HOME'', ''/state/apps/p/home'') \<in> set (private_variables demo_launch_roots demo_launch_component)"
    "(''MSYS_COMPONENT_ID'', ''p:a'') \<in> set (core_variables demo_launch_roots demo_launch_ids demo_launch_component)"
    "platform_pythonpath demo_launch_fs ?host demo_launch_component = []" "''PYTHONPATH'' \<in> set PYTHON_VARIABLES"
    "is_i18n_environment_name ''LANG''" by code_simp+
  with launch_environment_owned [OF wf env] env show ?thesis by (intro exI [of _ env]) auto
qed

section \<open>Arguments stay in their package\<close>

lemma resolve_package_argument_Inr:
  assumes "resolve_package_argument fs c v = Inr (candidate, resolved)"
  shows "\<exists>m package_root. c_manifest_path c = Some m \<and> lf_resolve_strict fs (butlast m) = Some package_root \<and>
    prefix package_root candidate \<and> prefix package_root resolved \<and> lf_resolve fs candidate = Some resolved"
proof -
  let ?segments = "py_split CHR ''/'' (package_relative v)"
  obtain m where m: "c_manifest_path c = Some m"
    using assms by (cases "c_manifest_path c") (simp_all add: resolve_package_argument_def)
  have "(case lf_resolve_strict fs (butlast m) of
      None \<Rightarrow> Inl (EscapesPackage v)
    | Some package_root \<Rightarrow>
        (case lf_resolve fs (package_root @ ?segments) of
           None \<Rightarrow> Inl (EscapesPackage v)
         | Some r \<Rightarrow> if prefix package_root r then Inr (package_root @ ?segments, r) else Inl (EscapesPackage v))) =
      (Inr (candidate, resolved) :: (exec_error, path \<times> path) result)"
    using assms m unfolding resolve_package_argument_def Let_def by (simp split: if_split_asm)
  with m show ?thesis by (simp split: option.split_asm if_split_asm) auto
qed

definition argument_ok :: "launch_fs \<Rightarrow> component \<Rightarrow> bool \<Rightarrow> string \<Rightarrow> string \<Rightarrow> bool" where
  "argument_ok fs c first declared arg \<longleftrightarrow>
     (if is_package_reference declared then
        \<exists>m package_root candidate resolved. c_manifest_path c = Some m \<and> lf_resolve_strict fs (butlast m) = Some package_root \<and>
          prefix package_root candidate \<and> lf_resolve fs candidate = Some resolved \<and> prefix package_root resolved \<and> arg = path_str resolved \<and>
          (first \<longrightarrow> lf_lstat fs candidate = Some RegularFile \<and> lf_executable fs resolved)
      else arg = declared)"

lemma resolve_arguments_ok:
  "resolve_arguments fs c first vs = Inr args \<Longrightarrow>
     length args = length vs \<and> (\<forall>k < length vs. argument_ok fs c (first \<and> k = 0) (vs ! k) (args ! k))"
proof (induction fs c first vs arbitrary: args rule: resolve_arguments.induct)
  case (2 fs c first v vs)
  from "2.prems" obtain a as where r: "resolve_arguments fs c False vs = Inr as" and args: "args = a # as"
    and a: "(if is_package_reference v then
              rbind (resolve_package_argument fs c v) (\<lambda>(candidate, resolved).
              rbind (if first then validate_package_executable fs v candidate resolved else Inr ()) (\<lambda>_.
                Inr (path_str resolved)))
            else Inr v) = Inr a"
    by (auto simp: rbind_Inr_iff)
  have "argument_ok fs c first v a"
  proof (cases "is_package_reference v")
    case True
    with a obtain candidate resolved where p: "resolve_package_argument fs c v = Inr (candidate, resolved)"
      and e: "first \<longrightarrow> validate_package_executable fs v candidate resolved = Inr ()" and "a = path_str resolved"
      by (auto simp: rbind_Inr_iff split: if_splits)
    moreover have "first \<longrightarrow> lf_lstat fs candidate = Some RegularFile \<and> lf_executable fs resolved"
      using e by (auto simp: validate_package_executable_def split: option.splits file_kind.splits if_splits)
    ultimately show ?thesis
      using True resolve_package_argument_Inr [OF p] unfolding argument_ok_def by auto
  qed (use a in \<open>simp add: argument_ok_def\<close>)
  moreover have "length as = length vs \<and> (\<forall>k < length vs. argument_ok fs c False (vs ! k) (as ! k))"
    using "2.IH" [OF r] by simp
  ultimately show ?case by (auto simp: args nth_Cons split: nat.split)
qed simp

text \<open>
  C18. When the argument vector of a component is resolved, every package-relative argument is the
  resolved path of a file below the resolved package directory, symbolic links included; a
  package-relative program is a regular executable file; and all other arguments are passed on
  unchanged, but for the name of the shared Python interpreter.
\<close>

theorem exec_confined:
  assumes "resolve_exec fs interpreter c = Inr argv"
  shows "length argv = length (c_exec c) \<and>
    (\<forall>k < length argv. argument_ok fs c (k = 0) (c_exec c ! k) (argv ! k) \<or>
       k = 0 \<and> argv ! 0 = interpreter \<and>
       (argument_ok fs c True (c_exec c ! 0) ''python'' \<or> argument_ok fs c True (c_exec c ! 0) ''@msys-python''))"
proof -
  from assms obtain args where r: "resolve_arguments fs c True (c_exec c) = Inr args"
    and k: "(case args of a # rest \<Rightarrow> Inr (if a \<in> {''python'', ''@msys-python''} then interpreter # rest else args) | [] \<Rightarrow> Inr []) =
      (Inr argv :: (exec_error, string list) result)"
    unfolding resolve_exec_def rbind_Inr_iff by blast
  show ?thesis
  proof (cases args)
    case (Cons a rest)
    then have argv: "argv = (if a \<in> {''python'', ''@msys-python''} then interpreter # rest else a # rest)" using k by auto
    have len: "length argv = length (c_exec c)" using resolve_arguments_ok [OF r] argv Cons by simp
    show ?thesis
    proof (intro conjI allI impI)
      show "length argv = length (c_exec c)" by (rule len)
      fix j assume "j < length argv"
      with len have "j < length (c_exec c)" by simp
      with resolve_arguments_ok [OF r] have ok: "argument_ok fs c (j = 0) (c_exec c ! j) (args ! j)" by auto
      show "argument_ok fs c (j = 0) (c_exec c ! j) (argv ! j) \<or> j = 0 \<and> argv ! 0 = interpreter \<and>
         (argument_ok fs c True (c_exec c ! 0) ''python'' \<or> argument_ok fs c True (c_exec c ! 0) ''@msys-python'')"
        using ok by (cases j) (auto simp: argv Cons)
    qed
  qed (use k resolve_arguments_ok [OF r] in simp)
qed

theorem exec_confined_witness:
  "resolve_exec demo_launch_fs ''/py'' demo_launch_component = Inr [''/pkg/bin/run'', ''-x''] \<and>
   argument_ok demo_launch_fs demo_launch_component True ''@package/bin/run'' ''/pkg/bin/run''"
proof -
  have r: "resolve_exec demo_launch_fs ''/py'' demo_launch_component = Inr [''/pkg/bin/run'', ''-x'']"
    "c_exec demo_launch_component = [''@package/bin/run'', ''-x'']" by code_simp+
  from exec_confined [OF r(1)] r show ?thesis by auto
qed

end
