(* ===== verification/Runtime_Assembler.thy ===== *)
theory Runtime_Assembler
  imports Manifest Plan_Compiler
begin

text \<open>
  The assembler of runtime sources (\<open>native/scripts/assemble_runtime_source.py\<close>): it reads a profile
  and the manifests of the packages that are given on the command line and writes the document that
  the plan compiler of \<open>Plan_Compiler\<close> reads.  The file system is an argument.

  The lemmas show that an assembled document is closed: every reference in it names one of its own
  components, so that the compiler never refuses it for a missing one.
\<close>

section \<open>Reading documents\<close>

definition RUNTIME_SCHEMA :: string where "RUNTIME_SCHEMA = ''msys.native-runtime.source.v2''"
definition MAX_SOURCE_BYTES :: nat where "MAX_SOURCE_BYTES = 1024 * 1024"

datatype assembly_error = AssemblyError string | AssemblyPython py_error | AssemblyOSError

text \<open>
  \<open>af_read\<close>: the number of bytes of a file and its JSON tree, or the text of the decoding error;
  \<open>None\<close> is an \<open>OSError\<close>.
\<close>

record assembly_fs =
  af_resolve :: "path \<Rightarrow> path option"
  af_read :: "path \<Rightarrow> (nat \<times> (string, json) result) option"

definition no_duplicates :: "jobj \<Rightarrow> (assembly_error, jobj) result" where
  "no_duplicates = unique_fields (\<lambda>key. AssemblyError (''duplicate JSON key: '' @ key)) []"

text \<open>The constants that \<open>json.loads\<close> accepts unless it is told otherwise.\<close>

definition json_constant :: "string \<Rightarrow> (assembly_error, json) result" where
  "json_constant c = Inr (JFloat (if c = ''NaN'' then PNan else PInf (c = ''-Infinity'')))"

definition load_json :: "assembly_fs \<Rightarrow> path \<Rightarrow> (assembly_error, jobj) result" where
  "load_json fs p = (case af_read fs p of
       None \<Rightarrow> Inl AssemblyOSError
     | Some (bytes, tree) \<Rightarrow>
         if \<not> (1 \<le> bytes \<and> bytes \<le> MAX_SOURCE_BYTES) then
           Inl (AssemblyError (path_str p @ '': size is outside 1..1048576 bytes''))
         else (case tree of
             Inl problem \<Rightarrow> Inl (AssemblyError (path_str p @ '': invalid UTF-8 JSON: '' @ problem))
           | Inr t \<Rightarrow> rbind (decode_with no_duplicates json_constant t) (\<lambda>value.
               case value of
                 JObj d \<Rightarrow> Inr d
               | _ \<Rightarrow> Inl (AssemblyError (path_str p @ '': root must be an object'')))))"

section \<open>Fields of a component\<close>

definition package_path :: "path \<Rightarrow> string \<Rightarrow> string" where
  "package_path root_dir value =
     (if value = ''@package'' then path_str root_dir
      else if startswith value ''@package/'' then path_str (path_join root_dir (drop (length ''@package/'') value))
      else value)"

definition assembled_exec ::
  "json \<Rightarrow> path \<Rightarrow> (string, string) dict \<Rightarrow> string \<Rightarrow> (assembly_error, string list) result" where
  "assembled_exec argv root_dir commands component = (case argv of
       JList (v # vs) \<Rightarrow>
         if list_all is_str (v # vs) then
           (case map (package_path root_dir \<circ> py_str) (v # vs) of
              program # args \<Rightarrow>
                if startswith program ''/'' then Inr (program # args)
                else (case map_of commands program of
                    Some replacement \<Rightarrow> Inr (replacement # args)
                  | None \<Rightarrow> Inl (AssemblyError (component @ '': bare executable '' @ repr_string program @
                      '' needs --command NAME=/absolute/path'')))
            | [] \<Rightarrow> Inr [])
         else Inl (AssemblyError (component @ '': exec must be a non-empty string array''))
     | _ \<Rightarrow> Inl (AssemblyError (component @ '': exec must be a non-empty string array'')))"

definition icon_candidate :: "json \<Rightarrow> jobj option" where
  "icon_candidate entry = (case entry of
       JObj d \<Rightarrow> if is_str (jget_null d ''path'') then Some d else None
     | _ \<Rightarrow> None)"

text \<open>\<open>sort\<close> with \<open>reverse=True\<close> keeps the order of entries of equal size.\<close>

definition first_icon :: "jobj \<Rightarrow> jobj \<Rightarrow> path \<Rightarrow> (assembly_error, string) result" where
  "first_icon component package root_dir =
     (let own = jget_null component ''icons''; shared = jget_null package ''icons'';
          icons = (if py_bool own then own else if py_bool shared then shared else JList []) in
      case icons of
        JList entries \<Rightarrow>
          (case List.map_filter icon_candidate entries of
             [] \<Rightarrow> Inr []
           | candidates \<Rightarrow>
               rbind (traverse (\<lambda>d. rbind (map_err AssemblyPython (py_int_of (jget_or d ''size'' (JInt 0)))) (\<lambda>n. Inr (n, d)))
                 candidates) (\<lambda>sized.
                 Inr (package_path root_dir (py_str (jget_null (snd (hd (sort_key (\<lambda>e. - fst e) sized))) ''path'')))))
      | _ \<Rightarrow> Inr [])"

definition component_kind :: "json list \<Rightarrow> string" where
  "component_kind provides =
     (let roles = concat (map (\<lambda>entry. case entry of JObj d \<Rightarrow> [py_str (jget_or d ''role'' (JStr []))] | _ \<Rightarrow> []) provides) in
      if ''display-output'' \<in> set roles then ''display''
      else if list_ex (\<lambda>r. r \<in> {''window-manager'', ''window-policy''}) roles then ''window''
      else if list_ex (\<lambda>r. r \<in> {''launcher'', ''system-chrome'', ''navigation-bar''}) roles then ''shell''
      else ''other'')"

definition native_provide :: "string \<Rightarrow> json \<Rightarrow> (assembly_error, json) result" where
  "native_provide key provided = (case provided of
       JObj d \<Rightarrow>
         (case filter (dict_has d) [''role'', ''interface'', ''capability''] of
            [kind] \<Rightarrow>
              rbind (map_err AssemblyPython (py_int_of (jget_or d ''priority'' (JInt 0)))) (\<lambda>priority.
                Inr (JObj [(kind, JStr (py_str (jget_null d kind))),
                  (''exclusive'', JBool (py_bool (jget_or d ''exclusive'' (JBool False)))), (''priority'', JInt priority)]))
          | _ \<Rightarrow> Inl (AssemblyError (key @ '': provide entry needs exactly one kind'')))
     | _ \<Rightarrow> Inl (AssemblyError (key @ '': invalid provide entry'')))"

definition window_identity :: "jobj \<Rightarrow> jobj" where
  "window_identity windowing = (case jget_or windowing ''identity'' (JObj []) of
       JStr s \<Rightarrow> [(''app_id'', JStr s), (''x11_wm_class'', JStr s)]
     | JObj d \<Rightarrow> d
     | _ \<Rightarrow> [])"

definition native_windowing :: "jobj \<Rightarrow> json" where
  "native_windowing windowing =
     (let identity = window_identity windowing;
          text = (\<lambda>d name. JStr (py_str (jget_or d name (JStr [])))) in
      JObj [(''system'', text windowing ''system''), (''display'', text windowing ''display''), (''mode'', text windowing ''mode''),
        (''title'', text windowing ''title''), (''app_id'', text identity ''app_id''),
        (''wm_class'', JStr (py_str (jget_or identity ''x11_wm_class'' (jget_or identity ''app_id'' (JStr []))))),
        (''wm_instance'', text identity ''x11_wm_instance'')])"

definition string_values :: "jobj \<Rightarrow> json" where
  "string_values d = JObj (map (\<lambda>(name, value). (name, JStr (py_str value))) d)"

section \<open>Components\<close>

definition as_list :: "json \<Rightarrow> string \<Rightarrow> (assembly_error, json list) result" where
  "as_list v message = (case v of JList xs \<Rightarrow> Inr xs | _ \<Rightarrow> Inl (AssemblyError message))"

definition as_object :: "json \<Rightarrow> string \<Rightarrow> (assembly_error, jobj) result" where
  "as_object v message = (case v of JObj d \<Rightarrow> Inr d | _ \<Rightarrow> Inl (AssemblyError message))"

definition assemble_component ::
  "json list \<Rightarrow> path \<Rightarrow> (string, string) dict \<Rightarrow> jobj \<Rightarrow> jobj \<Rightarrow> string \<Rightarrow> jobj \<Rightarrow> (assembly_error, jobj) result" where
  "assemble_component startup target_root commands package metadata key raw =
     rbind (as_list (jget_or raw ''provides'' (JList [])) (key @ '': provides/permissions are invalid'')) (\<lambda>provides.
     rbind (as_list (jget_or raw ''permissions'' (JList [])) (key @ '': provides/permissions are invalid'')) (\<lambda>permissions.
     rbind (as_object (jget_or raw ''env'' (JObj [])) (key @ '': env/readiness are invalid'')) (\<lambda>environment.
     rbind (as_object (jget_or raw ''readiness'' (JObj [(''mode'', JStr ''exec''), (''timeout_ms'', JInt 5000)]))
              (key @ '': env/readiness are invalid'')) (\<lambda>readiness.
     rbind (as_object (jget_or raw ''windowing'' (JObj [])) (key @ '': windowing/activation are invalid'')) (\<lambda>windowing.
     rbind (as_object (jget_or raw ''activation'' (JObj [])) (key @ '': windowing/activation are invalid'')) (\<lambda>activation.
     let lifecycle = py_str (jget_or raw ''lifecycle'' (JStr ''manual'')) in
     rbind (if lifecycle = ''on-demand''
            then map_err AssemblyPython (py_int_of (jget_or raw ''idle_timeout_ms'' (JInt 30000))) else Inr 0) (\<lambda>idle_timeout.
     rbind (traverse (native_provide key) provides) (\<lambda>native_provides.
     rbind (map_err AssemblyPython (py_int_of (jget_or readiness ''timeout_ms'' (JInt 5000)))) (\<lambda>timeout_ms.
     rbind (assembled_exec (jget_null raw ''exec'') target_root commands key) (\<lambda>argv.
     rbind (map_err AssemblyPython (py_iter (jget_or raw ''after'' (JList [])))) (\<lambda>after.
     rbind (first_icon raw package target_root) (\<lambda>icon.
       Inr [(''id'', JStr key), (''kind'', JStr (component_kind provides)), (''critical'', JBool (JStr key \<in> set startup)),
         (''lifecycle'', JStr lifecycle), (''idle_timeout_ms'', JInt idle_timeout),
         (''restart'', JStr (py_str (jget_or raw ''restart'' (JStr ''never'')))),
         (''readiness'', JObj [(''mode'', JStr (py_str (jget_or readiness ''mode'' (JStr ''exec'')))), (''timeout_ms'', JInt timeout_ms)]),
         (''exec'', JList (map JStr argv)), (''after'', JList (map (\<lambda>v. JStr (py_str v)) after)),
         (''env'', string_values environment), (''provides'', JList native_provides),
         (''permissions'', JList (map (\<lambda>v. JStr (py_str v)) permissions)), (''package'', JObj metadata),
         (''name'', JStr (py_str (jget_or raw ''name'' (jget_null metadata ''name'')))),
         (''summary'', JStr (py_str (jget_or raw ''summary'' (jget_or package ''summary'' (JStr []))))),
         (''icon'', JStr icon), (''launchable'', JBool (py_bool (jget_or activation ''launchable'' (JBool False)))),
         (''windowing'', native_windowing windowing)]))))))))))))"

text \<open>The keys known so far and the components assembled so far, each in their order.\<close>

type_synonym assembled = "string list \<times> jobj list"

fun assemble_components ::
  "json list \<Rightarrow> path \<Rightarrow> (string, string) dict \<Rightarrow> jobj \<Rightarrow> jobj \<Rightarrow> string \<Rightarrow> path \<Rightarrow> json list \<Rightarrow> assembled \<Rightarrow>
     (assembly_error, assembled) result" where
  "assemble_components startup target_root commands package metadata package_id manifest_path [] acc = Inr acc"
| "assemble_components startup target_root commands package metadata package_id manifest_path (raw # raws) (known, components) =
     (case raw of
        JObj c \<Rightarrow>
          (case jget_null c ''id'' of
             JStr local_id \<Rightarrow>
               (let key = package_id @ '':'' @ local_id in
                if key \<in> set known then Inl (AssemblyError (''duplicate component '' @ key))
                else rbind (assemble_component startup target_root commands package metadata key c) (\<lambda>component.
                  assemble_components startup target_root commands package metadata package_id manifest_path raws
                    (known @ [key], components @ [component])))
           | _ \<Rightarrow> Inl (AssemblyError (path_str manifest_path @ '': invalid component'')))
      | _ \<Rightarrow> Inl (AssemblyError (path_str manifest_path @ '': invalid component'')))"

definition assemble_package ::
  "assembly_fs \<Rightarrow> json list \<Rightarrow> (string, string) dict \<Rightarrow> path \<times> path \<Rightarrow> assembled \<Rightarrow> (assembly_error, assembled) result" where
  "assemble_package fs startup commands roots acc =
     (case af_resolve fs (fst roots) of
        None \<Rightarrow> Inl AssemblyOSError
      | Some source_root \<Rightarrow>
          (let manifest_path = source_root @ [''manifest.json''] in
           rbind (load_json fs manifest_path) (\<lambda>manifest.
           if jget_null manifest ''schema'' \<noteq> JStr ''msys.manifest.v1'' then
             Inl (AssemblyError (path_str manifest_path @ '': schema must be msys.manifest.v1''))
           else
           rbind (as_object (jget_null manifest ''package'') (path_str manifest_path @ '': package/components are invalid'')) (\<lambda>package.
           rbind (as_list (jget_null manifest ''components'') (path_str manifest_path @ '': package/components are invalid'')) (\<lambda>raws.
           case jget_null package ''id'' of
             JStr package_id \<Rightarrow>
               assemble_components startup (snd roots) commands package
                 [(''id'', JStr package_id), (''name'', JStr (py_str (jget_or package ''name'' (JStr package_id)))),
                  (''version'', JStr (py_str (jget_or package ''version'' (JStr [])))),
                  (''kind'', JStr (py_str (jget_or package ''kind'' (JStr ''system''))))]
                 package_id manifest_path raws acc
           | _ \<Rightarrow> Inl (AssemblyError (path_str manifest_path @ '': package.id is invalid'')))))))"

fun assemble_packages ::
  "assembly_fs \<Rightarrow> json list \<Rightarrow> (string, string) dict \<Rightarrow> (path \<times> path) list \<Rightarrow> assembled \<Rightarrow> (assembly_error, assembled) result" where
  "assemble_packages fs startup commands [] acc = Inr acc"
| "assemble_packages fs startup commands (roots # package_roots) acc =
     rbind (assemble_package fs startup commands roots acc) (assemble_packages fs startup commands package_roots)"

section \<open>The document\<close>

definition restrict_after :: "string list \<Rightarrow> jobj \<Rightarrow> jobj" where
  "restrict_after known component =
     AList.update ''after'' (JList (filter (\<lambda>v. v \<in> JStr ` set known)
       (case jget_null component ''after'' of JList xs \<Rightarrow> xs | _ \<Rightarrow> []))) component"

definition native_role :: "string list \<Rightarrow> string \<times> json \<Rightarrow> (assembly_error, string \<times> string list) result" where
  "native_role known entry =
     rbind (as_list (snd entry) ''profile roles must map strings to arrays'') (\<lambda>providers.
       Inr (fst entry, filter (\<lambda>v. v \<in> set known) (map py_str providers)))"

definition assemble ::
  "assembly_fs \<Rightarrow> path \<Rightarrow> (path \<times> path) list \<Rightarrow> (string, string) dict \<Rightarrow> (assembly_error, jobj) result" where
  "assemble fs profile_path package_roots commands =
     rbind (load_json fs profile_path) (\<lambda>profile.
     if jget_null profile ''schema'' \<noteq> JStr ''msys.profile.v1'' then
       Inl (AssemblyError ''profile schema must be msys.profile.v1'')
     else if \<not> is_str (jget_null profile ''id'') then Inl (AssemblyError ''profile id/roles are invalid'')
     else
     rbind (as_object (jget_or profile ''roles'' (JObj [])) ''profile id/roles are invalid'') (\<lambda>roles.
     rbind (as_list (jget_or profile ''startup'' (JList [])) ''profile startup/env/settings are invalid'') (\<lambda>startup.
     rbind (as_object (jget_or profile ''env'' (JObj [])) ''profile startup/env/settings are invalid'') (\<lambda>environment.
     rbind (as_object (jget_or profile ''settings'' (JObj [])) ''profile startup/env/settings are invalid'') (\<lambda>settings.
     rbind (assemble_packages fs startup commands package_roots ([], [])) (\<lambda>(known, components).
     rbind (traverse (native_role known) roles) (\<lambda>native_roles.
     let native_startup = filter (\<lambda>v. v \<in> set known) (map py_str startup) in
     if native_startup = [] then Inl (AssemblyError ''profile has no startup component in the supplied catalog'')
     else Inr [(''schema'', JStr RUNTIME_SCHEMA), (''stop_grace_ms'', JInt 2000),
       (''profile'', JObj [(''id'', jget_null profile ''id''),
          (''display'', JStr (py_str (jget_or settings ''display'' (JStr [])))),
          (''roles'', JObj (map (\<lambda>(role, present). (role, JList (map JStr present))) (filter (\<lambda>(_, present). present \<noteq> []) native_roles))),
          (''startup'', JList (map JStr native_startup)), (''env'', string_values environment)]),
       (''components'', JList (map (JObj \<circ> restrict_after known) components))])))))))"

section \<open>The command line\<close>

definition DEFAULT_COMMANDS :: "(string, string) dict" where
  "DEFAULT_COMMANDS =
     [(''python'', ''/opt/msys-dev/.runtime/python/bin/python3''), (''python3'', ''/opt/msys-dev/.runtime/python/bin/python3''),
      (''bash'', ''/bin/bash''), (''sh'', ''/bin/sh'')]"

definition parse_command :: "string \<Rightarrow> (assembly_error, string \<times> string) result" where
  "parse_command assignment = (case split_once CHR ''='' assignment of
       (name, Some value) \<Rightarrow>
         if name = [] \<or> \<not> startswith value ''/'' then Inl (AssemblyError ''--command must be NAME=/absolute/path'')
         else Inr (name, value)
     | (_, None) \<Rightarrow> Inl (AssemblyError ''--command must be NAME=/absolute/path''))"

definition parse_package_root :: "assembly_fs \<Rightarrow> string \<Rightarrow> (assembly_error, path \<times> path) result" where
  "parse_package_root fs declaration = (case split_once CHR ''='' declaration of
       (source, Some target) \<Rightarrow>
         if path_root target = [] then Inl (AssemblyError ''--package-root target must be absolute'')
         else Inr (path_of source, path_of target)
     | (source, None) \<Rightarrow>
         (case af_resolve fs (path_of source) of
            None \<Rightarrow> Inl AssemblyOSError
          | Some target \<Rightarrow> Inr (path_of source, target)))"

text \<open>\<open>main\<close> up to writing the document.\<close>

definition assemble_main :: "assembly_fs \<Rightarrow> string \<Rightarrow> string list \<Rightarrow> string list \<Rightarrow> (assembly_error, jobj) result" where
  "assemble_main fs profile package_root command =
     rbind (traverse parse_command command) (\<lambda>assignments.
     rbind (traverse (parse_package_root fs) package_root) (\<lambda>package_roots.
       assemble fs (path_of profile) package_roots (dict_update DEFAULT_COMMANDS assignments)))"

section \<open>Assembled components\<close>

definition component_shape :: "json list \<Rightarrow> (string, string) dict \<Rightarrow> string \<Rightarrow> jobj \<Rightarrow> bool" where
  "component_shape startup commands key c \<longleftrightarrow>
     jget_null c ''id'' = JStr key \<and> jget_null c ''critical'' = JBool (JStr key \<in> set startup) \<and>
     (\<exists>after. jget_null c ''after'' = JList (map JStr after)) \<and>
     (\<exists>program args. jget_null c ''exec'' = JList (map JStr (program # args)) \<and>
        (startswith program ''/'' \<or> program \<in> set (dict_values commands)))"

lemma assembled_exec_program:
  assumes "assembled_exec argv root_dir commands component = Inr out"
  shows "\<exists>program args. out = program # args \<and> (startswith program ''/'' \<or> program \<in> set (dict_values commands))"
proof -
  from assms obtain v vs where argv: "argv = JList (v # vs)" "list_all is_str (v # vs)"
    by (auto simp: assembled_exec_def split: json.splits list.splits if_splits)
  let ?p = "package_path root_dir (py_str v)"
  show ?thesis
  proof (cases "startswith ?p ''/''")
    case False
    with assms argv obtain r where "map_of commands ?p = Some r" "out = r # map (package_path root_dir \<circ> py_str) vs"
      by (auto simp: assembled_exec_def split: option.splits)
    then show ?thesis by (force dest: map_of_SomeD)
  qed (use assms argv in \<open>auto simp: assembled_exec_def\<close>)
qed

lemma assemble_component_shape:
  assumes "assemble_component startup target_root commands package metadata key raw = Inr c"
  shows "component_shape startup commands key c"
proof -
  obtain argv after where
    e: "assembled_exec (jget_null raw ''exec'') target_root commands key = Inr argv" and
    c: "map_of c ''id'' = Some (JStr key)" "map_of c ''critical'' = Some (JBool (JStr key \<in> set startup))"
      "map_of c ''exec'' = Some (JList (map JStr argv))" "map_of c ''after'' = Some (JList (map (\<lambda>v. JStr (py_str v)) after))"
    using assms unfolding assemble_component_def Let_def rbind_Inr_iff
    by (elim exE conjE) (drule sum.inject(2) [THEN iffD1], hypsubst, simp)
  have "map (\<lambda>v. JStr (py_str v)) after = map JStr (map py_str after)" by simp
  with c(4) have "\<exists>xs. map_of c ''after'' = Some (JList (map JStr xs))" by metis
  moreover have "\<exists>program args. map_of c ''exec'' = Some (JList (map JStr (program # args))) \<and>
      (startswith program ''/'' \<or> program \<in> set (dict_values commands))"
    using assembled_exec_program [OF e] c(3) by blast
  ultimately show ?thesis using c(1,2)
    unfolding component_shape_def jget_null_def jget_or_def by (metis (no_types, lifting) option.simps(5))
qed

definition assembled_ok :: "json list \<Rightarrow> (string, string) dict \<Rightarrow> assembled \<Rightarrow> bool" where
  "assembled_ok startup commands acc \<longleftrightarrow>
     distinct (fst acc) \<and> list_all2 (component_shape startup commands) (fst acc) (snd acc)"

lemma assemble_components_ok:
  assumes "assemble_components startup target_root commands package metadata package_id manifest_path raws acc = Inr acc'"
    and "assembled_ok startup commands acc"
  shows "assembled_ok startup commands acc'"
  using assms
proof (induction startup target_root commands package metadata package_id manifest_path raws acc rule: assemble_components.induct)
  case (2 startup target_root commands package metadata package_id manifest_path raw raws known components)
  from 2(2) obtain c local_id component where raw: "raw = JObj c" "jget_null c ''id'' = JStr local_id"
    and fresh: "package_id @ '':'' @ local_id \<notin> set known"
    and comp: "assemble_component startup target_root commands package metadata (package_id @ '':'' @ local_id) c = Inr component"
    and rec: "assemble_components startup target_root commands package metadata package_id manifest_path raws
       (known @ [package_id @ '':'' @ local_id], components @ [component]) = Inr acc'"
    by (auto simp: Let_def rbind_Inr_iff split: json.split_asm if_split_asm)
  have "assembled_ok startup commands (known @ [package_id @ '':'' @ local_id], components @ [component])"
    using 2(3) fresh assemble_component_shape [OF comp] by (simp add: assembled_ok_def list_all2_appendI)
  from "2.IH" [OF raw refl fresh rec this] show ?case .
qed simp

lemma assemble_packages_ok:
  assumes "assemble_packages fs startup commands package_roots acc = Inr acc'" and "assembled_ok startup commands acc"
  shows "assembled_ok startup commands acc'"
  using assms
proof (induction package_roots arbitrary: acc)
  case (Cons roots package_roots)
  from Cons.prems(1) obtain mid where p: "assemble_package fs startup commands roots acc = Inr mid"
    and r: "assemble_packages fs startup commands package_roots mid = Inr acc'" by (auto simp: rbind_Inr_iff)
  then obtain package metadata package_id manifest_path raws where
    "assemble_components startup (snd roots) commands package metadata package_id manifest_path raws acc = Inr mid"
  proof -
    from p obtain source_root manifest package raws
      where "(case jget_null package ''id'' of
           JStr package_id \<Rightarrow>
             assemble_components startup (snd roots) commands package
               [(''id'', JStr package_id), (''name'', JStr (py_str (jget_or package ''name'' (JStr package_id)))),
                (''version'', JStr (py_str (jget_or package ''version'' (JStr [])))),
                (''kind'', JStr (py_str (jget_or package ''kind'' (JStr ''system''))))]
               package_id (source_root @ [''manifest.json'']) raws acc
         | _ \<Rightarrow> Inl (AssemblyError (path_str (source_root @ [''manifest.json'']) @ '': package.id is invalid''))) = Inr mid"
      unfolding assemble_package_def Let_def rbind_Inr_iff by (auto split: option.split_asm if_split_asm simp: rbind_Inr_iff)
    then show thesis using that by (cases "jget_null package ''id''") auto
  qed
  then have "assembled_ok startup commands mid" by (rule assemble_components_ok [OF _ Cons.prems(2)])
  with Cons.IH [OF r] show ?case .
qed simp

lemma parse_command_absolute: "parse_command a = Inr e \<Longrightarrow> startswith (snd e) ''/''"
  by (auto simp: parse_command_def split: prod.splits option.splits if_splits)

lemma commands_absolute:
  assumes "traverse parse_command command = Inr assignments"
    and "value \<in> set (dict_values (dict_update DEFAULT_COMMANDS assignments))"
  shows "startswith value ''/''"
proof -
  have "list_all (\<lambda>e. startswith (snd e) ''/'') assignments"
    by (rule traverse_all [OF assms(1)]) (rule parse_command_absolute)
  moreover have "list_all (\<lambda>e. startswith (snd e) ''/'') DEFAULT_COMMANDS"
    by (simp add: DEFAULT_COMMANDS_def startswith_def)
  ultimately have "list_all (\<lambda>e. startswith (snd e) ''/'') (dict_update DEFAULT_COMMANDS assignments)"
    by (rule list_all_dict_update [rotated])
  with assms(2) show ?thesis by (auto simp: list_all_iff)
qed

section \<open>Closed documents\<close>

definition list_items :: "json \<Rightarrow> json list" where
  "list_items v = (case v of JList xs \<Rightarrow> xs | _ \<Rightarrow> [])"

definition object_fields :: "json \<Rightarrow> jobj" where
  "object_fields v = (case v of JObj d \<Rightarrow> d | _ \<Rightarrow> [])"

definition source_components :: "jobj \<Rightarrow> jobj list" where
  "source_components doc = map object_fields (list_items (jget_null doc ''components''))"

definition source_ids :: "jobj \<Rightarrow> json list" where
  "source_ids doc = map (\<lambda>c. jget_null c ''id'') (source_components doc)"

definition source_profile :: "jobj \<Rightarrow> jobj" where
  "source_profile doc = object_fields (jget_null doc ''profile'')"

definition absolute_program :: "jobj \<Rightarrow> bool" where
  "absolute_program c \<longleftrightarrow> (case list_items (jget_null c ''exec'') of JStr program # _ \<Rightarrow> startswith program ''/'' | _ \<Rightarrow> False)"

text \<open>
  A closed source: identifiers are unique; the order, the startup list and the preferred providers
  name only components of the source; something is started; every program is an absolute path.
\<close>

definition closed_source :: "jobj \<Rightarrow> bool" where
  "closed_source doc \<longleftrightarrow>
     distinct (source_ids doc) \<and> list_all is_str (source_ids doc) \<and>
     list_all (\<lambda>c. set (list_items (jget_null c ''after'')) \<subseteq> set (source_ids doc) \<and> absolute_program c) (source_components doc) \<and>
     (let startup = list_items (jget_null (source_profile doc) ''startup'') in
        startup \<noteq> [] \<and> set startup \<subseteq> set (source_ids doc)) \<and>
     list_all (\<lambda>(_, ps). list_items ps \<noteq> [] \<and> set (list_items ps) \<subseteq> set (source_ids doc))
       (object_fields (jget_null (source_profile doc) ''roles''))"

lemma restrict_after_lookup:
  "jget_null (restrict_after known c) name =
     (if name = ''after'' then JList (filter (\<lambda>v. v \<in> JStr ` set known) (list_items (jget_null c ''after'')))
      else jget_null c name)"
  by (simp add: restrict_after_def jget_null_def jget_or_def dict_simps list_items_def)

lemma restrict_after_items:
  "JStr ` xs = set (list_items (jget_or (restrict_after known c) ''after'' v)) \<Longrightarrow> x \<in> xs \<Longrightarrow> x \<in> set known"
proof -
  assume "JStr ` xs = set (list_items (jget_or (restrict_after known c) ''after'' v))" and "x \<in> xs"
  then have "JStr x \<in> set (list_items (jget_or (restrict_after known c) ''after'' v))" by blast
  then show "x \<in> set known" by (auto simp: restrict_after_def jget_or_def dict_simps list_items_def)
qed

text \<open>What is left of an assembled document once its fields are read.\<close>

lemma assemble_document:
  assumes "assemble fs profile_path package_roots commands = Inr doc"
  obtains profile startup known components native_roles where
    "load_json fs profile_path = Inr profile" "jget_or profile ''startup'' (JList []) = JList startup"
    "assembled_ok startup commands (known, components)"
    "source_components doc = map (restrict_after known) components"
    "jget_null doc ''components'' = JList (map JObj (source_components doc))"
    "jget_null (source_profile doc) ''startup'' = JList (map JStr (filter (\<lambda>v. v \<in> set known) (map py_str startup)))"
    "filter (\<lambda>v. v \<in> set known) (map py_str startup) \<noteq> []"
    "\<And>role ps. (role, ps) \<in> set (object_fields (jget_null (source_profile doc) ''roles'')) \<Longrightarrow>
       \<exists>present. ps = JList (map JStr present) \<and> present \<noteq> [] \<and> set present \<subseteq> set known"
proof -
  from assms obtain profile roles startup environment settings known components native_roles where
    p: "load_json fs profile_path = Inr profile" and st: "as_list (jget_or profile ''startup'' (JList [])) ''profile startup/env/settings are invalid'' = Inr startup"
    and pk: "assemble_packages fs startup commands package_roots ([], []) = Inr (known, components)"
    and nr: "traverse (native_role known) roles = Inr native_roles"
    and ne: "filter (\<lambda>v. v \<in> set known) (map py_str startup) \<noteq> []"
    and doc: "jget_null doc ''components'' = JList (map (JObj \<circ> restrict_after known) components)"
      "jget_null (source_profile doc) ''startup'' = JList (map JStr (filter (\<lambda>v. v \<in> set known) (map py_str startup)))"
      "jget_null (source_profile doc) ''roles'' =
         JObj (map (\<lambda>(role, present). (role, JList (map JStr present))) (filter (\<lambda>(_, present). present \<noteq> []) native_roles))"
    by (auto simp: assemble_def Let_def rbind_Inr_iff jget_null_def jget_or_def source_profile_def object_fields_def split: if_split_asm)
  have "assembled_ok startup commands (known, components)"
    by (rule assemble_packages_ok [OF pk]) (simp add: assembled_ok_def)
  moreover have "list_all (\<lambda>r. set (snd r) \<subseteq> set known) native_roles"
    by (rule traverse_all [OF nr]) (auto simp: native_role_def rbind_Inr_iff)
  moreover have "jget_or profile ''startup'' (JList []) = JList startup"
    using st by (auto simp: as_list_def split: json.split_asm)
  moreover have sc: "source_components doc = map (restrict_after known) components"
    by (simp add: source_components_def doc(1) list_items_def object_fields_def o_def)
  moreover from this have "jget_null doc ''components'' = JList (map JObj (source_components doc))" by (simp add: doc(1))
  moreover have "\<exists>present. ps = JList (map JStr present) \<and> present \<noteq> [] \<and> set present \<subseteq> set known"
    if "(role, ps) \<in> set (object_fields (jget_null (source_profile doc) ''roles''))" for role ps
  proof -
    from that obtain present where "(role, present) \<in> set native_roles" "present \<noteq> []" "ps = JList (map JStr present)"
      by (auto simp: doc(3) object_fields_def)
    then show ?thesis using \<open>list_all _ native_roles\<close> by (force simp: list_all_iff)
  qed
  ultimately show thesis using p ne doc(2) by (intro that [of profile startup known components]) blast+
qed

lemma assembled_ids:
  assumes "assembled_ok startup commands (known, components)" and "source_components doc = map (restrict_after known) components"
  shows "source_ids doc = map JStr known" and "distinct known"
proof -
  have "list_all2 (component_shape startup commands) known components" and "distinct known"
    using assms(1) by (simp_all add: assembled_ok_def)
  then show "distinct known" by simp
  have "map (\<lambda>c. jget_null c ''id'') components = map JStr known"
    using \<open>list_all2 _ known components\<close> by (induction rule: list_all2_induct) (simp_all add: component_shape_def)
  then show "source_ids doc = map JStr known"
    by (simp add: source_ids_def assms(2) restrict_after_lookup o_def)
qed

text \<open>
  C23. A document that the assembler writes is closed: its component ids are unique, its ordering
  constraints, its startup list and its preferred providers name only its own components, at least one
  component is started, and the program of every component is an absolute path.
\<close>

theorem assembled_source_closed:
  assumes "assemble_main fs profile package_root command = Inr doc"
  shows "closed_source doc"
proof -
  from assms obtain assignments package_roots where cmd: "traverse parse_command command = Inr assignments"
    and a: "assemble fs (path_of profile) package_roots (dict_update DEFAULT_COMMANDS assignments) = Inr doc"
    by (auto simp: assemble_main_def rbind_Inr_iff)
  let ?commands = "dict_update DEFAULT_COMMANDS assignments"
  obtain pr startup known components where ok: "assembled_ok startup ?commands (known, components)"
    and sc: "source_components doc = map (restrict_after known) components"
    and st: "jget_null (source_profile doc) ''startup'' = JList (map JStr (filter (\<lambda>v. v \<in> set known) (map py_str startup)))"
    and ne: "filter (\<lambda>v. v \<in> set known) (map py_str startup) \<noteq> []"
    and roles: "\<And>role ps. (role, ps) \<in> set (object_fields (jget_null (source_profile doc) ''roles'')) \<Longrightarrow>
       \<exists>present. ps = JList (map JStr present) \<and> present \<noteq> [] \<and> set present \<subseteq> set known"
    by (rule assemble_document [OF a]) blast
  note ids = assembled_ids [OF ok sc]
  have comp: "absolute_program c" if "c \<in> set components" for c
  proof -
    from ok that obtain key where "component_shape startup ?commands key c"
      by (auto simp: assembled_ok_def list_all2_conv_all_nth in_set_conv_nth)
    then obtain program args where "jget_null c ''exec'' = JList (map JStr (program # args))"
      "startswith program ''/'' \<or> program \<in> set (dict_values ?commands)" by (auto simp: component_shape_def)
    then show ?thesis using commands_absolute [OF cmd, of program] by (auto simp: absolute_program_def list_items_def)
  qed
  have "list_all (\<lambda>c. set (list_items (jget_null c ''after'')) \<subseteq> set (source_ids doc) \<and> absolute_program c) (source_components doc)"
    using comp by (auto simp: sc list_all_iff restrict_after_lookup list_items_def ids(1) absolute_program_def)
  moreover have "list_all (\<lambda>(_, ps). list_items ps \<noteq> [] \<and> set (list_items ps) \<subseteq> set (source_ids doc))
       (object_fields (jget_null (source_profile doc) ''roles''))"
    using roles by (fastforce simp: list_all_iff ids(1) list_items_def)
  moreover have "set (filter (\<lambda>v. v \<in> set known) (map py_str startup)) \<subseteq> set known" by auto
  ultimately show ?thesis
    using ne ids by (auto simp: closed_source_def Let_def st list_items_def distinct_map list_all_iff is_str_def inj_on_def)
qed

definition demo_source_profile :: jobj where
  "demo_source_profile = [(''schema'', JStr ''msys.profile.v1''), (''id'', JStr ''demo''), (''startup'', JList [JStr ''p:wm'', JStr ''q:gone'']),
     (''roles'', JObj [(''window-manager'', JList [JStr ''p:wm'', JStr ''q:wm'']), (''launcher'', JList [JStr ''q:gone''])])]"

definition demo_source_manifest :: jobj where
  "demo_source_manifest = [(''schema'', JStr ''msys.manifest.v1''), (''package'', JObj [(''id'', JStr ''p'')]),
     (''components'', JList
       [JObj [(''id'', JStr ''wm''), (''exec'', JList [JStr ''@package/wm'']), (''after'', JList [JStr ''p:x'', JStr ''q:gone'']), (''lifecycle'', JStr ''background''),
          (''provides'', JList [JObj [(''role'', JStr ''window-manager'')]])],
        JObj [(''id'', JStr ''x''), (''exec'', JList [JStr ''sh'', JStr ''-c'']), (''lifecycle'', JStr ''background'')]])]"

definition demo_source_fs :: assembly_fs where
  "demo_source_fs = \<lparr>af_resolve = Some,
     af_read = (\<lambda>p. if p = [''profile.json''] then Some (1, Inr (JObj demo_source_profile))
       else if p = [''pkg'', ''manifest.json''] then Some (1, Inr (JObj demo_source_manifest)) else None)\<rparr>"

definition demo_source :: jobj where
  "demo_source = projr (assemble_main demo_source_fs ''profile.json'' [''pkg=/opt/p''] [])"

lemma demo_source_eq: "assemble_main demo_source_fs ''profile.json'' [''pkg=/opt/p''] [] = Inr demo_source"
proof -
  have "is_ok (assemble_main demo_source_fs ''profile.json'' [''pkg=/opt/p''] [])" by code_simp
  then show ?thesis by (auto simp: demo_source_def is_ok_iff)
qed

theorem assembled_source_closed_witness:
  "source_ids demo_source = [JStr ''p:wm'', JStr ''p:x''] \<and> closed_source demo_source"
proof -
  have "source_ids demo_source = [JStr ''p:wm'', JStr ''p:x'']" by code_simp
  with assembled_source_closed [OF demo_source_eq] show ?thesis by blast
qed

section \<open>Compiling an assembled document\<close>

text \<open>The fields of a component that decide its place in the plan survive normalisation.\<close>

lemma normalize_v2_order_fields:
  assumes "normalize_v2_component (JObj item) i = Inr c"
  shows "jget_null item ''id'' = JStr (pl_id c)" and "jget_null item ''critical'' = JBool (pl_critical c)"
    and "set (map JStr (pl_after c)) = set (list_items (jget_or item ''after'' (JList [])))"
proof -
  obtain path item' after where o: "closed_object (JObj item) path
        [''id'', ''kind'', ''critical'', ''lifecycle'', ''idle_timeout_ms'', ''restart'', ''readiness'', ''backoff'',
         ''exec'', ''after'', ''env'', ''provides'', ''permissions'', ''package'', ''name'', ''summary'', ''icon'',
         ''windowing'', ''launchable'']
        [''id'', ''kind'', ''critical'', ''lifecycle'', ''restart'', ''readiness'', ''exec'', ''package'', ''name''] = Inr item'"
    and f: "id_string (jget_null item' ''id'') (path @ ''.id'') = Inr (pl_id c)"
      "boolean_at (jget_null item' ''critical'') (path @ ''.critical'') = Inr (pl_critical c)"
      "after_v2 (jget_or item' ''after'' (JList [])) path = Inr after" "pl_after c = sort after"
    using assms unfolding normalize_v2_component_def Let_def rbind_Inr_iff
    by (elim exE conjE) (drule sum.inject(2) [THEN iffD1], hypsubst, simp)
  have i: "item' = item" using o by (auto simp: closed_object_def Let_def plan_fail_def split: if_split_asm)
  show "jget_null item ''id'' = JStr (pl_id c)"
    using f(1) by (auto simp: i id_string_def bounded_string_def plan_fail_def rbind_Inr_iff split: json.split_asm if_split_asm)
  show "jget_null item ''critical'' = JBool (pl_critical c)"
    using f(2) by (auto simp: i boolean_at_def plan_fail_def split: json.split_asm)
  from f(3) obtain xs where xs: "jget_or item ''after'' (JList []) = JList xs" "bounded_strings xs (path @ ''.after'') 128 True = Inr after"
    by (auto simp: i after_v2_def array_of_def plan_fail_def rbind_Inr_iff split: json.split_asm if_split_asm)
  have "xs = map JStr after"
  proof -
    have "list_all2 (\<lambda>(i, v) s. v = JStr s) (enumerate 0 xs) after"
      using xs(2) unfolding bounded_strings_def traverse_Inr_iff
      by (rule list_all2_mono) (auto simp: bounded_string_def plan_fail_def split: json.split_asm if_split_asm)
    then have "list_all2 (\<lambda>v s. v = JStr s) xs after"
      by (auto simp: list_all2_conv_all_nth nth_enumerate_eq split: prod.splits)
    then show ?thesis by (auto simp: list_all2_conv_all_nth intro: nth_equalityI)
  qed
  then show "set (map JStr (pl_after c)) = set (list_items (jget_or item ''after'' (JList [])))"
    by (simp add: f(4) xs(1) list_items_def)
qed

lemma normalized_items:
  assumes "traverse (\<lambda>(i, v). normalize_v2_component v i) (enumerate 0 (map JObj cs)) = Inr items"
  shows "list_all2 (\<lambda>c item. jget_null c ''id'' = JStr (pl_id item) \<and> jget_null c ''critical'' = JBool (pl_critical item) \<and>
    set (map JStr (pl_after item)) = set (list_items (jget_or c ''after'' (JList [])))) cs items"
proof -
  have len: "length items = length cs" and n: "\<And>k. k < length cs \<Longrightarrow> normalize_v2_component (JObj (cs ! k)) k = Inr (items ! k)"
    using assms by (auto simp: traverse_Inr_iff list_all2_conv_all_nth nth_enumerate_eq split: prod.splits)
  show ?thesis unfolding list_all2_conv_all_nth using len normalize_v2_order_fields [OF n] by (intro conjI allI impI) simp_all
qed

text \<open>
  When the components of an assembled document pass the compiler's checks one by one, the
  compiler orders them unless their ordering constraints are cyclic: a missing or repeated component
  and a plan without a critical component cannot occur.
\<close>

lemma assembled_plan_ordered:
  assumes "assemble_main fs profile package_root command = Inr doc"
    and "load_json fs (path_of profile) = Inr p" and "list_all is_str (list_items (jget_or p ''startup'' (JList [])))"
    and "traverse (\<lambda>(i, v). normalize_v2_component v i) (enumerate 0 (list_items (jget_null doc ''components''))) = Inr items"
  shows "(\<exists>plan. topological_components items = Inr plan) \<longleftrightarrow> acyclic (dep_rel items)"
proof -
  from assms(1) obtain commands package_roots where a: "assemble fs (path_of profile) package_roots commands = Inr doc"
    by (auto simp: assemble_main_def rbind_Inr_iff)
  obtain pr startup known components where pr: "load_json fs (path_of profile) = Inr pr" "jget_or pr ''startup'' (JList []) = JList startup"
    and ok: "assembled_ok startup commands (known, components)"
    and sc: "source_components doc = map (restrict_after known) components"
    and dc: "jget_null doc ''components'' = JList (map JObj (source_components doc))"
    and ne: "filter (\<lambda>v. v \<in> set known) (map py_str startup) \<noteq> []"
    by (rule assemble_document [OF a]) blast
  have items: "list_all2 (\<lambda>c item. jget_null c ''id'' = JStr (pl_id item) \<and> jget_null c ''critical'' = JBool (pl_critical item) \<and>
    set (map JStr (pl_after item)) = set (list_items (jget_or c ''after'' (JList [])))) (source_components doc) items"
    using normalized_items assms(4) by (simp add: dc list_items_def)
  have "map JStr (map pl_id items) = source_ids doc"
    using items unfolding source_ids_def by (induction rule: list_all2_induct) simp_all
  then have known: "map pl_id items = known" using assembled_ids(1) [OF ok sc]
    by (simp add: inj_map_eq_map [of JStr] inj_on_def del: map_map)
  have d: "distinct (map pl_id items)" using known assembled_ids(2) [OF ok sc] by simp
  have "list_all2 (\<lambda>c item. pl_critical item = (JStr (pl_id item) \<in> set startup) \<and> set (pl_after item) \<subseteq> set known) components items"
  proof -
    have "list_all2 (component_shape startup commands) known components" using ok by (simp add: assembled_ok_def)
    moreover have "list_all2 (\<lambda>c item. jget_null c ''id'' = JStr (pl_id item) \<and> jget_null c ''critical'' = JBool (pl_critical item) \<and>
        set (pl_after item) \<subseteq> set known) components items"
      using items unfolding sc list_all2_map1 by (rule list_all2_mono) (auto simp: restrict_after_lookup restrict_after_items)
    ultimately show ?thesis by (auto simp: list_all2_conv_all_nth component_shape_def)
  qed
  then have each: "\<And>item. item \<in> set items \<Longrightarrow> pl_critical item = (JStr (pl_id item) \<in> set startup) \<and> set (pl_after item) \<subseteq> set known"
    by (auto simp: list_all2_conv_all_nth in_set_conv_nth)
  have k: "deps_known items" unfolding deps_known_def set_map [symmetric] known using each by blast
  obtain v where v: "v \<in> set startup" "py_str v \<in> set known" using ne by (auto simp: filter_empty_conv)
  then have "is_str v" using assms(2,3) pr by (auto simp: list_items_def list_all_iff)
  then have "v = JStr (py_str v)" by (auto simp: is_str_iff)
  with v each known have c: "list_ex pl_critical items" by (force simp: list_ex_iff)
  from topological_accepts [OF d c k] show ?thesis .
qed

definition demo_items :: "plan_component_v2 list" where
  "demo_items = projr (traverse (\<lambda>(i, v). normalize_v2_component v i) (enumerate 0 (list_items (jget_null demo_source ''components''))))"

end
