(* ===== verification/Role_Switch.thy ===== *)
theory Role_Switch
  imports Component_Channel Supervision
begin

text \<open>
  Choosing the provider of a role at run time (methods of \<open>Msysd\<close> in \<open>msys_core/msysd.py\<close>): the
  preferences that survive a restart, the switch of a role to another provider (\<open>_switch_role\<close>) with its
  rollback, the same transaction for the display role, and the providers that are started eagerly.

  A step that may raise returns the state it leaves behind together with its result, since the source
  mutates the registry in place.  The sections under the catalog lock contain no \<open>await\<close> and are single
  operations here; what happens between them is an argument.

  The lemmas show that a switch either takes full effect or leaves the role as it was.
\<close>

section \<open>Settings of the roles\<close>

datatype switch_error = SwRole role_error | SwRuntime string | SwValue string | SwWrite | SwPython py_error

text \<open>\<open>rw_saved\<close>: the preferences in the file, which is replaced atomically.\<close>

record role_settings =
  rw_registry :: role_registry
  rw_overrides :: "(string, string) dict"
  rw_saved :: "(string, string) dict"

type_synonym 'a act = "role_settings \<Rightarrow> role_settings \<times> (switch_error, 'a) result"

definition and_then :: "role_settings \<times> (switch_error, 'a) result \<Rightarrow> ('a \<Rightarrow> 'b act) \<Rightarrow> role_settings \<times> (switch_error, 'b) result" where
  "and_then m f = (case m of (s, Inl e) \<Rightarrow> (s, Inl e) | (s, Inr x) \<Rightarrow> f x s)"

definition registry_op :: "(role_registry \<Rightarrow> (role_error, 'a \<times> role_registry) result) \<Rightarrow> 'a act" where
  "registry_op oper s = (case oper (rw_registry s) of
       Inl e \<Rightarrow> (s, Inl (SwRole e)) | Inr (x, rg) \<Rightarrow> (s\<lparr>rw_registry := rg\<rparr>, Inr x))"

definition registry_query :: "(role_registry \<Rightarrow> (role_error, 'a) result) \<Rightarrow> 'a act" where
  "registry_query q s = (s, map_err SwRole (q (rw_registry s)))"

text \<open>\<open>data\<close>: the decoded file, \<open>None\<close> when it cannot be read; a preference that fails is ignored.\<close>

definition load_role_preference :: "string \<times> json \<Rightarrow> role_settings \<Rightarrow> role_settings" where
  "load_role_preference entry s =
     (case select_preferred (fst entry) (py_str (snd entry)) (rw_registry s) of
        Inl _ \<Rightarrow> s
      | Inr (_, rg) \<Rightarrow> s\<lparr>rw_registry := rg, rw_overrides := AList.update (fst entry) (py_str (snd entry)) (rw_overrides s)\<rparr>)"

definition load_role_preferences :: "json option \<Rightarrow> role_settings \<Rightarrow> (py_error, role_settings) result" where
  "load_role_preferences data s = (case data of
       None \<Rightarrow> Inr s
     | Some v \<Rightarrow> rbind (py_get v ''roles'' (JObj [])) (\<lambda>roles.
         rbind (py_dict roles) (\<lambda>entries. Inr (fold load_role_preference entries s))))"

definition role_preferences_document :: "role_settings \<Rightarrow> jobj" where
  "role_preferences_document s =
     [(''schema'', JStr ''msys.role-preferences.v1''), (''roles'', JObj (map (\<lambda>(r, p). (r, JStr p)) (rw_overrides s)))]"

definition persist_role_preferences :: "bool \<Rightarrow> unit act" where
  "persist_role_preferences writable s =
     (if writable then (s\<lparr>rw_saved := rw_overrides s\<rparr>, Inr ()) else (s, Inl SwWrite))"

section \<open>Eager providers\<close>

definition preferred_exclusive_roles :: "role_info list \<Rightarrow> string \<Rightarrow> string list" where
  "preferred_exclusive_roles infos key =
     map ri_name (filter (\<lambda>i. ri_exclusive i \<and> ri_preferred_provider i = Some key) infos)"

definition is_candidate_of :: "string \<Rightarrow> role_info \<Rightarrow> bool" where
  "is_candidate_of key i \<longleftrightarrow> list_ex (\<lambda>c. rc_provider_id c = key) (ri_candidates i)"

definition exclusive_candidate_roles :: "role_info list \<Rightarrow> string \<Rightarrow> string list" where
  "exclusive_candidate_roles infos key = map ri_name (filter (\<lambda>i. ri_exclusive i \<and> is_candidate_of key i) infos)"

definition enabled_candidate_roles :: "role_info list \<Rightarrow> string \<Rightarrow> string list" where
  "enabled_candidate_roles infos key = map ri_name (filter (is_candidate_of key) infos)"

definition is_eager_role_provider :: "catalog \<Rightarrow> role_info list \<Rightarrow> string \<Rightarrow> bool" where
  "is_eager_role_provider components infos key =
     (let component = map_of components key;
          declared = (case component of Some c \<Rightarrow> map pv_name (filter (\<lambda>p. pv_kind p = ''role'') (c_provides c)) | None \<Rightarrow> [])
      in if (case component of Some c \<Rightarrow> jget_null (c_raw c) ''x-msys-role-activation'' = JStr ''always'' | None \<Rightarrow> False) then True
         else if declared \<noteq> [] \<and> enabled_candidate_roles infos key = [] then False
         else if exclusive_candidate_roles infos key = [] then True
         else preferred_exclusive_roles infos key \<noteq> [])"

definition startup_keys :: "catalog \<Rightarrow> role_info list \<Rightarrow> string list \<Rightarrow> string list" where
  "startup_keys components infos profile_startup =
     (let startup = filter (is_eager_role_provider components infos) profile_startup;
          eager = map fst (filter (\<lambda>(key, c). (c_lifecycle c \<in> {''session'', ''background''} \<or> key \<in> set startup) \<and>
                                    is_eager_role_provider components infos key) components)
      in filter (dict_has components) (dedup (startup @ eager)))"

definition catalog_health_targets :: "catalog \<Rightarrow> role_info list \<Rightarrow> string list \<Rightarrow> string list" where
  "catalog_health_targets components infos affected =
     (let services = filter (\<lambda>key. (case map_of components key of
                        Some c \<Rightarrow> c_lifecycle c \<in> {''background'', ''session''} | None \<Rightarrow> False) \<and>
                      is_eager_role_provider components infos key) affected;
          preferred = filter (\<lambda>p. p \<in> set affected) (List.map_filter ri_preferred_provider infos)
      in sort (dedup (services @ preferred)))"

text \<open>\<open>state_of\<close>: the state of a running provider.\<close>

definition candidate_summary :: "(string \<Rightarrow> string option) \<Rightarrow> role_candidate \<Rightarrow> json" where
  "candidate_summary state_of c =
     JObj [(''component'', JStr (rc_provider_id c)), (''priority'', JInt (rc_priority c)), (''exclusive'', JBool (rc_exclusive c)),
       (''explicit'', JBool (candidate_explicit c)), (''declared'', JBool (rc_declared c)),
       (''state'', JStr (case state_of (rc_provider_id c) of Some s \<Rightarrow> s | None \<Rightarrow> ''declared''))]"

definition json_option :: "string option \<Rightarrow> json" where
  "json_option s = (case s of Some x \<Rightarrow> JStr x | None \<Rightarrow> JNull)"

definition role_summary :: "(string \<Rightarrow> string option) \<Rightarrow> role_registry \<Rightarrow> string \<Rightarrow> (role_error, jobj) result" where
  "role_summary state_of rg role =
     rbind (role_info_of rg role) (\<lambda>info.
       Inr [(''role'', JStr (ri_name info)), (''exclusive'', JBool (ri_exclusive info)),
         (''preferred'', json_option (ri_preferred_provider info)), (''active'', json_option (ri_active_provider info)),
         (''active_providers'', JList (map JStr (ri_active_providers info))),
         (''candidates'', JList (map (candidate_summary state_of) (ri_candidates info)))])"

section \<open>The switch\<close>

definition generation_holder :: "int \<Rightarrow> string option" where
  "generation_holder generation = Some (''generation:'' @ int_str generation)"

fun release_each :: "role_lease list \<Rightarrow> unit act" where
  "release_each [] s = (s, Inr ())"
| "release_each (l # ls) s = and_then (registry_op (release (ByLease l)) s) (\<lambda>_. release_each ls)"

text \<open>\<open>what\<close>: how the error names the operation.\<close>

definition prefer_provider :: "string \<Rightarrow> string \<Rightarrow> string \<Rightarrow> string \<Rightarrow> unit act" where
  "prefer_provider what mode role provider s =
     (if mode = ''select'' then
        and_then (registry_op (select_preferred role provider) s) (\<lambda>_ s.
          (s\<lparr>rw_overrides := AList.update role provider (rw_overrides s)\<rparr>, Inr ()))
      else if mode = ''reset'' then
        and_then (registry_query (\<lambda>rg. candidate_ids rg role) s) (\<lambda>ids s.
          if ids = [] \<or> hd ids \<noteq> provider then (s, Inl (SwRuntime what))
          else and_then (registry_op (reset_preferred role) s) (\<lambda>_ s.
            (s\<lparr>rw_overrides := AList.delete role (rw_overrides s)\<rparr>, Inr ())))
      else (s, Inl (SwValue (''unknown preference mode '' @ mode))))"

definition take_lease :: "string \<Rightarrow> string \<Rightarrow> int \<Rightarrow> unit act" where
  "take_lease role provider generation s =
     and_then (registry_query (\<lambda>rg. active_leases rg role) s) (\<lambda>ls s.
     and_then (release_each ls s) (\<lambda>_ s.
     and_then (registry_op (acquire role (Some provider) (generation_holder generation)) s) (\<lambda>_ s. (s, Inr ()))))"

definition switch_apply :: "bool \<Rightarrow> string \<Rightarrow> string \<Rightarrow> string \<Rightarrow> int \<Rightarrow> string option \<Rightarrow> unit act" where
  "switch_apply writable mode role provider generation old_active s =
     and_then (prefer_provider ''role default changed during reset'' mode role provider s) (\<lambda>_ s.
     and_then (if old_active \<noteq> Some provider then take_lease role provider generation s else (s, Inr ())) (\<lambda>_.
       persist_role_preferences writable))"

text \<open>\<open>holder_of\<close>: the holder under which a former lease is taken again.\<close>

fun reacquire :: "(role_lease \<Rightarrow> string option) \<Rightarrow> string \<Rightarrow> role_lease list \<Rightarrow> unit act" where
  "reacquire holder_of role [] s = (s, Inr ())"
| "reacquire holder_of role (l # ls) s =
     and_then (registry_query (\<lambda>rg. is_candidate rg role (ls_provider_id l)) s) (\<lambda>known s.
     and_then (if known then and_then (registry_op (acquire role (Some (ls_provider_id l)) (holder_of l)) s) (\<lambda>_ s. (s, Inr ()))
               else (s, Inr ())) (\<lambda>_. reacquire holder_of role ls))"

definition set_override :: "string \<Rightarrow> string option \<Rightarrow> role_settings \<Rightarrow> role_settings" where
  "set_override role override s = s\<lparr>rw_overrides :=
     (case override of Some p \<Rightarrow> AList.update role p (rw_overrides s) | None \<Rightarrow> AList.delete role (rw_overrides s))\<rparr>"

definition restore_leases :: "(role_lease \<Rightarrow> string option) \<Rightarrow> string \<Rightarrow> role_lease list \<Rightarrow> unit act" where
  "restore_leases holder_of role old_leases s =
     and_then (registry_query (\<lambda>rg. active_leases rg role) s) (\<lambda>ls s.
     and_then (release_each ls s) (\<lambda>_. reacquire holder_of role old_leases))"

definition switch_undo :: "string \<Rightarrow> role_lease list \<Rightarrow> string option \<Rightarrow> string option \<Rightarrow> unit act" where
  "switch_undo role old_leases old_preferred old_override s =
     and_then (case old_preferred of
         Some p \<Rightarrow> and_then (registry_op (select_preferred role p) s) (\<lambda>_ s. (s, Inr ()))
       | None \<Rightarrow> (s, Inr ())) (\<lambda>_ s.
       restore_leases ls_holder role old_leases (set_override role old_override s))"

datatype switch_outcome = Unchanged | Switched "string option"

definition holds_a_role :: "role_registry \<Rightarrow> string \<Rightarrow> bool" where
  "holds_a_role rg provider =
     list_ex (\<lambda>name. case active_providers rg name of Inr ps \<Rightarrow> provider \<in> set ps | Inl _ \<Rightarrow> False) (list_roles rg)"

text \<open>
  The section of \<open>_switch_role\<close> under the catalog lock, once the provider is ready.  \<open>Switched\<close> names the
  former provider when it holds no role any more and has to be stopped.
\<close>

definition switch_commit ::
  "bool \<Rightarrow> string \<Rightarrow> string \<Rightarrow> string \<Rightarrow> int \<Rightarrow> (string \<Rightarrow> bool) \<Rightarrow> switch_outcome act" where
  "switch_commit writable mode role provider generation running s =
     (let rg = rw_registry s in
      case (get_candidate rg role provider, active_leases rg role, active_provider rg role, preferred_provider rg role) of
        (Inr _, Inr old_leases, Inr old_active, Inr old_preferred) \<Rightarrow>
          (let old_override = map_of (rw_overrides s) role in
           if old_active = Some provider \<and> old_preferred = Some provider \<and>
              (mode = ''select'' \<and> old_override = Some provider \<or> mode = ''reset'' \<and> old_override = None)
           then (s, Inr Unchanged)
           else (case switch_apply writable mode role provider generation old_active s of
               (s', Inr _) \<Rightarrow>
                 (s', Inr (Switched (case old_active of
                    Some old \<Rightarrow> if old \<noteq> [] \<and> old \<noteq> provider \<and> \<not> holds_a_role (rw_registry s') old \<and> running old then Some old else None
                  | None \<Rightarrow> None)))
             | (s', Inl e) \<Rightarrow>
                 (case switch_undo role old_leases old_preferred old_override s' of
                    (s'', Inr _) \<Rightarrow> (s'', Inl e)
                  | (s'', Inl e') \<Rightarrow> (s'', Inl e'))))
      | (Inl e, _, _, _) \<Rightarrow> (s, Inl (SwRole e))
      | (_, Inl e, _, _) \<Rightarrow> (s, Inl (SwRole e))
      | (_, _, Inl e, _) \<Rightarrow> (s, Inl (SwRole e))
      | (_, _, _, Inl e) \<Rightarrow> (s, Inl (SwRole e)))"

text \<open>
  \<open>_switch_role\<close> up to the retirement of the former provider: three attempts, each of which may be
  overtaken by a catalog change while the provider starts.
\<close>

record 'w switcher =
  sw_settings :: role_settings
  sw_epoch :: nat
  sw_running :: "string list"
  sw_world :: 'w

fun switch_role ::
  "nat \<Rightarrow> (string \<Rightarrow> 'w switcher \<Rightarrow> 'w switcher \<times> (string, endpoint) result) \<Rightarrow> bool \<Rightarrow> string \<Rightarrow> string \<Rightarrow> string \<Rightarrow>
     'w switcher \<Rightarrow> 'w switcher \<times> (switch_error, switch_outcome) result" where
  "switch_role 0 ensure_ready writable mode role provider w =
     (w, Inl (SwRuntime (''role catalog changed repeatedly while switching '' @ role)))"
| "switch_role (Suc n) ensure_ready writable mode role provider w =
     (case get_candidate (rw_registry (sw_settings w)) role provider of
        Inl e \<Rightarrow> (w, Inl (SwRole e))
      | Inr _ \<Rightarrow> (case ensure_ready provider w of
            (w1, Inl problem) \<Rightarrow> (w1, Inl (SwRuntime problem))
          | (w1, Inr i) \<Rightarrow>
              if sw_epoch w1 \<noteq> sw_epoch w \<or> \<not> ep_current i \<or> \<not> fw_ready i
              then switch_role n ensure_ready writable mode role provider w1
              else (case switch_commit writable mode role provider (ep_generation i) (\<lambda>k. k \<in> set (sw_running w1)) (sw_settings w1) of
                  (s, r) \<Rightarrow> (w1\<lparr>sw_settings := s\<rparr>, r))))"

section \<open>The display role\<close>

text \<open>
  What a migration of the display remembers of the role, and how it sets and restores it.  The snapshot
  also names the instance, the \<open>DISPLAY\<close> and the foreground, which the role operations do not read.
\<close>

record display_snapshot =
  sn_epoch :: nat
  sn_leases :: "role_lease list"
  sn_active :: "string option"
  sn_provider :: "string option"
  sn_preferred :: "string option"
  sn_override :: "string option"

definition snapshot_display_role :: "nat \<Rightarrow> role_settings \<Rightarrow> (role_error, display_snapshot) result" where
  "snapshot_display_role epoch s =
     rbind (active_provider (rw_registry s) DISPLAY_OUTPUT_ROLE) (\<lambda>old_active.
     rbind (preferred_provider (rw_registry s) DISPLAY_OUTPUT_ROLE) (\<lambda>old_preferred.
     rbind (active_leases (rw_registry s) DISPLAY_OUTPUT_ROLE) (\<lambda>ls.
       Inr \<lparr>sn_epoch = epoch, sn_leases = ls, sn_active = old_active,
            sn_provider = (case old_active of Some p \<Rightarrow> if p = [] then old_preferred else Some p | None \<Rightarrow> old_preferred),
            sn_preferred = old_preferred, sn_override = map_of (rw_overrides s) DISPLAY_OUTPUT_ROLE\<rparr>)))"

definition apply_display_preference :: "string \<Rightarrow> string \<Rightarrow> int \<Rightarrow> unit act" where
  "apply_display_preference mode provider generation s =
     and_then (prefer_provider ''display-output default changed during migration'' mode DISPLAY_OUTPUT_ROLE provider s) (\<lambda>_.
       take_lease DISPLAY_OUTPUT_ROLE provider generation)"

definition restore_preference :: "string \<Rightarrow> string option \<Rightarrow> unit act" where
  "restore_preference role override s = (case override of
       Some p \<Rightarrow> and_then (registry_op (select_preferred role p) s) (\<lambda>_ s. (set_override role override s, Inr ()))
     | None \<Rightarrow> and_then (registry_op (reset_preferred role) s) (\<lambda>_ s. (set_override role override s, Inr ())))"

text \<open>\<open>ready_generation\<close>: the generation of an instance that is ready.\<close>

definition restore_display_role ::
  "nat \<Rightarrow> (string \<Rightarrow> int option) \<Rightarrow> bool \<Rightarrow> display_snapshot \<Rightarrow> unit act" where
  "restore_display_role epoch ready_generation writable snap s =
     (if epoch \<noteq> sn_epoch snap then (s, Inl (SwRuntime ''display role catalog changed during rollback''))
      else
        and_then (restore_preference DISPLAY_OUTPUT_ROLE (sn_override snap) s) (\<lambda>_ s.
        and_then (restore_leases (\<lambda>l. case ready_generation (ls_provider_id l) of
                      Some g \<Rightarrow> generation_holder g | None \<Rightarrow> ls_holder l) DISPLAY_OUTPUT_ROLE (sn_leases snap) s) (\<lambda>_.
          persist_role_preferences writable)))"

definition provider_active_outside_display :: "role_registry \<Rightarrow> string \<Rightarrow> bool" where
  "provider_active_outside_display rg provider =
     list_ex (\<lambda>role. role \<noteq> DISPLAY_OUTPUT_ROLE \<and>
       (case active_providers rg role of Inr ps \<Rightarrow> provider \<in> set ps | Inl _ \<Rightarrow> False)) (list_roles rg)"

section \<open>What the steps do to a consistent registry\<close>

lemma and_then_simps [simp]:
  "and_then (s, Inl e) f = (s, Inl e)" "and_then (s, Inr x) f = f x s"
  by (simp_all add: and_then_def)

lemma registry_op_Inr: "oper (rw_registry s) = Inr (x, rg) \<Longrightarrow> registry_op oper s = (s\<lparr>rw_registry := rg\<rparr>, Inr x)"
  by (simp add: registry_op_def)

lemma release_each_eq: "release_all ls (rw_registry s) = Inr rg \<Longrightarrow> release_each ls s = (s\<lparr>rw_registry := rg\<rparr>, Inr ())"
proof (induction ls arbitrary: s)
  case (Cons l ls)
  then obtain x r1 where r: "release (ByLease l) (rw_registry s) = Inr (x, r1)" "release_all ls r1 = Inr rg"
    by (auto simp: rbind_Inr_iff)
  with Cons.IH [of "s\<lparr>rw_registry := r1\<rparr>"] show ?case by (simp add: registry_op_Inr)
qed (simp add: role_settings.surjective)

text \<open>The leases of a role, seen as who holds them and for whom.\<close>

definition holders :: "role_registry \<Rightarrow> string \<Rightarrow> (string \<times> string option) list" where
  "holders rg role = map (\<lambda>l. (ls_provider_id l, ls_holder l)) (leases_for rg role)"

lemma release_role:
  assumes "rg_inv (rw_registry s)" and "map_of (rg_roles (rw_registry s)) role = Some st"
  obtains rg where "release_each (leases_for (rw_registry s) role) s = (s\<lparr>rw_registry := rg\<rparr>, Inr ())"
    "rg_inv rg" "rg_roles rg = rg_roles (rw_registry s)" "rg_preferred rg = rg_preferred (rw_registry s)"
    "leases_for rg role = []" "\<forall>r. r \<noteq> role \<longrightarrow> leases_for rg r = leases_for (rw_registry s) r"
proof -
  let ?rg = "rw_registry s" and ?ls = "leases_for (rw_registry s) role"
  have "distinct ?ls" "set ?ls \<subseteq> set (lease_table_of ?rg)"
    using lease_table_distinct [OF assms(1)] by (auto simp: leases_for_def)
  from release_all_total [OF assms(1) this] obtain rg where r: "release_all ?ls ?rg = Inr rg" "rg_inv rg"
    "lease_table_of rg = filter (\<lambda>l. l \<notin> set ?ls) (lease_table_of ?rg)" "rg_roles rg = rg_roles ?rg" by blast
  have pref: "release_all ls g = Inr g' \<Longrightarrow> rg_preferred g' = rg_preferred g" for ls g g'
    by (induction ls arbitrary: g) (auto simp: rbind_Inr_iff release_def Let_def split: option.split_asm if_split_asm)
  have "leases_for rg role = []" by (auto simp: leases_for_def r(3) filter_empty_conv)
  moreover have "leases_for rg r = leases_for ?rg r" if "r \<noteq> role" for r
    unfolding leases_for_def r(3) filter_filter using that by (intro filter_cong) auto
  ultimately show thesis using that release_each_eq [OF r(1)] r(2,4) pref [OF r(1)] by blast
qed

lemma acquire_free:
  assumes inv: "rg_inv rg" and st: "map_of (rg_roles rg) role = Some st" and p: "may_provide (rg_roles rg) role p"
    and free: "rs_exclusive st \<longrightarrow> leases_for rg role = []"
  obtains l rg' where "acquire role (Some p) h rg = Inr (l, rg')" "ls_provider_id l = p" "ls_holder l = h" "rg_inv rg'"
    "rg_roles rg' = rg_roles rg" "rg_preferred rg' = rg_preferred rg" "leases_for rg' role = leases_for rg role @ [l]"
    "\<forall>r. r \<noteq> role \<longrightarrow> leases_for rg' r = leases_for rg r"
proof -
  obtain c where c: "get_candidate rg role p = Inr c" using get_candidate_iff p by blast
  then have cp: "rc_provider_id c = p" using get_candidate_Inr by blast
  note tok = role_tokens_inv [OF inv st, unfolded tokens_leases_for [OF inv]]
  have "\<exists>l rg'. acquire role (Some p) h rg = Inr (l, rg') \<and> ls_provider_id l = p \<and> ls_holder l = h \<and> ls_role l = role \<and>
      rg_roles rg' = rg_roles rg \<and> rg_preferred rg' = rg_preferred rg"
    using st c tok cp free by (auto simp: acquire_def rg_state_def Let_def)
  then obtain l rg' where a: "acquire role (Some p) h rg = Inr (l, rg')" "ls_provider_id l = p" "ls_holder l = h" "ls_role l = role"
    "rg_roles rg' = rg_roles rg" "rg_preferred rg' = rg_preferred rg" by blast
  note i = acquire_inv [OF inv a(1)]
  from that [OF a(1-3) i(1) a(5,6)] show thesis using i(2) a(4) by (simp add: leases_for_def)
qed

lemma leases_may_provide: "rg_inv rg \<Longrightarrow> l \<in> set (leases_for rg role) \<Longrightarrow> may_provide (rg_roles rg) role (ls_provider_id l)"
  using rg_invD(2) [of rg] by (auto simp: leases_for_def lease_table_of_def list_all_iff lease_ok_def)

lemma exclusive_single:
  "rg_inv rg \<Longrightarrow> map_of (rg_roles rg) role = Some st \<Longrightarrow> rs_exclusive st \<Longrightarrow> length (leases_for rg role) \<le> 1"
  using rg_invD(4) [of rg role st] tokens_leases_for [of rg role] by simp

lemma is_candidate_may_provide: "may_provide (rg_roles rg) role p \<Longrightarrow> is_candidate rg role p = Inr True"
  by (auto simp: is_candidate_def list_candidates_def rg_state_def may_provide_def list_ex_iff split: option.splits)

lemma reacquire_total:
  assumes "rg_inv (rw_registry s)" and "map_of (rg_roles (rw_registry s)) role = Some st"
    and "\<forall>l \<in> set ls. may_provide (rg_roles (rw_registry s)) role (ls_provider_id l)"
    and "rs_exclusive st \<longrightarrow> length (leases_for (rw_registry s) role @ ls) \<le> 1"
  shows "\<exists>rg. reacquire holder_of role ls s = (s\<lparr>rw_registry := rg\<rparr>, Inr ()) \<and> rg_inv rg \<and>
    rg_roles rg = rg_roles (rw_registry s) \<and> rg_preferred rg = rg_preferred (rw_registry s) \<and>
    holders rg role = holders (rw_registry s) role @ map (\<lambda>l. (ls_provider_id l, holder_of l)) ls \<and>
    (\<forall>r. r \<noteq> role \<longrightarrow> leases_for rg r = leases_for (rw_registry s) r)"
  using assms
proof (induction ls arbitrary: s)
  case (Cons l ls)
  let ?rg = "rw_registry s"
  have free: "rs_exclusive st \<longrightarrow> leases_for ?rg role = []" using Cons.prems(4) by (cases "leases_for ?rg role") auto
  have p: "may_provide (rg_roles ?rg) role (ls_provider_id l)" using Cons.prems(3) by simp
  obtain k rg where a: "acquire role (Some (ls_provider_id l)) (holder_of l) ?rg = Inr (k, rg)" "ls_provider_id k = ls_provider_id l"
    "ls_holder k = holder_of l" "rg_inv rg" "rg_roles rg = rg_roles ?rg" "rg_preferred rg = rg_preferred ?rg"
    "leases_for rg role = leases_for ?rg role @ [k]" "\<forall>r. r \<noteq> role \<longrightarrow> leases_for rg r = leases_for ?rg r"
    by (rule acquire_free [OF Cons.prems(1,2) p free, of "holder_of l"])
  let ?s = "s\<lparr>rw_registry := rg\<rparr>"
  have "reacquire holder_of role (l # ls) s = reacquire holder_of role ls ?s"
    using is_candidate_may_provide [OF p] a(1) by (simp add: registry_query_def registry_op_Inr)
  moreover have "rg_inv (rw_registry ?s)" "map_of (rg_roles (rw_registry ?s)) role = Some st"
    "\<forall>l \<in> set ls. may_provide (rg_roles (rw_registry ?s)) role (ls_provider_id l)"
    "rs_exclusive st \<longrightarrow> length (leases_for (rw_registry ?s) role @ ls) \<le> 1"
    using a(4,5,7) Cons.prems by auto
  note Cons.IH [OF this]
  ultimately show ?case using a by (auto simp: holders_def)
next
  case Nil
  then show ?case by (intro exI [of _ "rw_registry s"]) (simp add: holders_def)
qed

text \<open>Everything that does not belong to the role stays as it is.\<close>

definition frame :: "string \<Rightarrow> role_settings \<Rightarrow> role_settings \<Rightarrow> bool" where
  "frame role s s' \<longleftrightarrow> rg_inv (rw_registry s') \<and> rg_roles (rw_registry s') = rg_roles (rw_registry s) \<and>
     (\<forall>r. r \<noteq> role \<longrightarrow> map_of (rg_preferred (rw_registry s')) r = map_of (rg_preferred (rw_registry s)) r \<and>
        leases_for (rw_registry s') r = leases_for (rw_registry s) r \<and> map_of (rw_overrides s') r = map_of (rw_overrides s) r)"

lemma frame_refl: "rg_inv (rw_registry s) \<Longrightarrow> frame role s s"
  by (simp add: frame_def)

lemma frame_trans: "frame role s t \<Longrightarrow> frame role t u \<Longrightarrow> frame role s u"
  by (simp add: frame_def)

lemma frame_preferred: "frame role s s' \<Longrightarrow> r \<noteq> role \<Longrightarrow> preferred_provider (rw_registry s') r = preferred_provider (rw_registry s) r"
  by (simp add: frame_def preferred_provider_def rg_state_def)

lemma select_lookup:
  assumes "rg_inv rg" and "may_provide (rg_roles rg) role p"
  shows "\<exists>rg'. select_preferred role p rg = Inr (p, rg') \<and> rg_inv rg' \<and> rg_roles rg' = rg_roles rg \<and>
    lease_table_of rg' = lease_table_of rg \<and> map_of (rg_preferred rg') = (map_of (rg_preferred rg))(role \<mapsto> p)"
proof -
  obtain c where "get_candidate rg role p = Inr c" using get_candidate_iff assms(2) by blast
  then have "select_preferred role p rg = Inr (p, rg\<lparr>rg_preferred := AList.update role p (rg_preferred rg)\<rparr>)"
    by (simp add: select_preferred_def)
  with select_preferred_inv [OF assms(1) this] show ?thesis by (simp add: lease_table_of_def dict_simps)
qed

lemma reset_lookup:
  assumes "rg_inv rg" and "map_of (rg_roles rg) role = Some st"
  shows "\<exists>q rg'. reset_preferred role rg = Inr (q, rg') \<and> rg_inv rg' \<and> rg_roles rg' = rg_roles rg \<and>
    lease_table_of rg' = lease_table_of rg \<and> map_of (rg_preferred rg') = (map_of (rg_preferred rg))(role := None)"
proof -
  have "\<exists>q. reset_preferred role rg = Inr (q, rg\<lparr>rg_preferred := AList.delete role (rg_preferred rg)\<rparr>)"
    using assms(2) by (auto simp: reset_preferred_def rg_state_def Let_def preferred_provider_def rbind_Inr_iff dict_simps split: list.split)
  then obtain q where "reset_preferred role rg = Inr (q, rg\<lparr>rg_preferred := AList.delete role (rg_preferred rg)\<rparr>)" by blast
  with reset_preferred_inv [OF assms(1) this] show ?thesis by (simp add: lease_table_of_def dict_simps)
qed

lemma prefer_provider_run:
  assumes inv: "rg_inv (rw_registry s)" and p: "may_provide (rg_roles (rw_registry s)) role provider"
    and st: "map_of (rg_roles (rw_registry s)) role = Some st"
    and run: "prefer_provider what mode role provider s = (s', r)"
  shows "frame role s s' \<and> rw_saved s' = rw_saved s \<and> leases_for (rw_registry s') role = leases_for (rw_registry s) role \<and>
    (r = Inr () \<longrightarrow> preferred_provider (rw_registry s') role = Inr (Some provider) \<and>
       (mode = ''select'' \<and> map_of (rw_overrides s') role = Some provider \<or> mode = ''reset'' \<and> map_of (rw_overrides s') role = None))"
proof -
  let ?rg = "rw_registry s"
  have cands: "candidate_ids ?rg role = Inr (map rc_provider_id (rs_candidates st))"
    using st by (simp add: candidate_ids_def list_candidates_def rg_state_def)
  consider (select) "mode = ''select''" | (reset) "mode = ''reset''" "rs_candidates st \<noteq> [] \<and> rc_provider_id (hd (rs_candidates st)) = provider"
    | (fail) "s' = s" "r \<noteq> Inr ()"
    using run cands by (cases "rs_candidates st") (auto simp: prefer_provider_def registry_query_def split: if_split_asm)
  then show ?thesis
  proof cases
    case select
    obtain rg' where r: "select_preferred role provider ?rg = Inr (provider, rg')" "rg_inv rg'" "rg_roles rg' = rg_roles ?rg"
      "lease_table_of rg' = lease_table_of ?rg" "map_of (rg_preferred rg') = (map_of (rg_preferred ?rg))(role \<mapsto> provider)"
      using select_lookup [OF inv p] by blast
    then have "s' = s\<lparr>rw_registry := rg', rw_overrides := AList.update role provider (rw_overrides s)\<rparr>"
      using run select by (simp add: prefer_provider_def registry_op_Inr)
    then show ?thesis using r select st
      by (simp add: frame_def leases_for_def dict_simps preferred_provider_def rg_state_def)
  next
    case reset
    obtain q rg' where r: "reset_preferred role ?rg = Inr (q, rg')" "rg_inv rg'" "rg_roles rg' = rg_roles ?rg"
      "lease_table_of rg' = lease_table_of ?rg" "map_of (rg_preferred rg') = (map_of (rg_preferred ?rg))(role := None)"
      using reset_lookup [OF inv st] by blast
    then have "s' = s\<lparr>rw_registry := rg', rw_overrides := AList.delete role (rw_overrides s)\<rparr>"
      using run reset cands by (simp add: prefer_provider_def registry_op_Inr registry_query_def hd_map)
    then show ?thesis using r reset st
      by (cases "rs_candidates st") (simp_all add: frame_def leases_for_def dict_simps preferred_provider_def rg_state_def)
  qed (use inv in \<open>simp add: frame_refl\<close>)
qed

lemma take_lease_run:
  assumes inv: "rg_inv (rw_registry s)" and p: "may_provide (rg_roles (rw_registry s)) role provider"
    and st: "map_of (rg_roles (rw_registry s)) role = Some st"
  shows "\<exists>rg. take_lease role provider generation s = (s\<lparr>rw_registry := rg\<rparr>, Inr ()) \<and> frame role s (s\<lparr>rw_registry := rg\<rparr>) \<and>
    rg_preferred rg = rg_preferred (rw_registry s) \<and> holders rg role = [(provider, generation_holder generation)]"
proof -
  obtain rg1 where r1: "release_each (leases_for (rw_registry s) role) s = (s\<lparr>rw_registry := rg1\<rparr>, Inr ())"
    "rg_inv rg1" "rg_roles rg1 = rg_roles (rw_registry s)" "rg_preferred rg1 = rg_preferred (rw_registry s)"
    "leases_for rg1 role = []" "\<forall>r. r \<noteq> role \<longrightarrow> leases_for rg1 r = leases_for (rw_registry s) r"
    by (rule release_role [OF inv st])
  have st1: "map_of (rg_roles rg1) role = Some st" and p1: "may_provide (rg_roles rg1) role provider" using st p r1(3) by simp_all
  have f: "rs_exclusive st \<longrightarrow> leases_for rg1 role = []" using r1(5) by simp
  obtain l rg where a: "acquire role (Some provider) (generation_holder generation) rg1 = Inr (l, rg)" "ls_provider_id l = provider"
    "ls_holder l = generation_holder generation" "rg_inv rg" "rg_roles rg = rg_roles rg1" "rg_preferred rg = rg_preferred rg1"
    "leases_for rg role = leases_for rg1 role @ [l]" "\<forall>r. r \<noteq> role \<longrightarrow> leases_for rg r = leases_for rg1 r"
    by (rule acquire_free [OF r1(2) st1 p1 f, of "generation_holder generation"])
  have "take_lease role provider generation s = (s\<lparr>rw_registry := rg\<rparr>, Inr ())"
    using active_leases_spec [OF inv st] r1(1) a(1) by (simp add: take_lease_def registry_query_def registry_op_Inr)
  then show ?thesis using a r1 by (auto simp: frame_def holders_def)
qed

lemma restore_leases_run:
  assumes inv: "rg_inv (rw_registry s)" and st: "map_of (rg_roles (rw_registry s)) role = Some st"
    and old: "\<forall>l \<in> set ls. may_provide (rg_roles (rw_registry s)) role (ls_provider_id l)" "rs_exclusive st \<longrightarrow> length ls \<le> 1"
  shows "\<exists>rg. restore_leases holder_of role ls s = (s\<lparr>rw_registry := rg\<rparr>, Inr ()) \<and> frame role s (s\<lparr>rw_registry := rg\<rparr>) \<and>
    rg_preferred rg = rg_preferred (rw_registry s) \<and> holders rg role = map (\<lambda>l. (ls_provider_id l, holder_of l)) ls"
proof -
  obtain rg1 where r1: "release_each (leases_for (rw_registry s) role) s = (s\<lparr>rw_registry := rg1\<rparr>, Inr ())"
    "rg_inv rg1" "rg_roles rg1 = rg_roles (rw_registry s)" "rg_preferred rg1 = rg_preferred (rw_registry s)"
    "leases_for rg1 role = []" "\<forall>r. r \<noteq> role \<longrightarrow> leases_for rg1 r = leases_for (rw_registry s) r"
    by (rule release_role [OF inv st])
  let ?s = "s\<lparr>rw_registry := rg1\<rparr>"
  have "rg_inv (rw_registry ?s)" "map_of (rg_roles (rw_registry ?s)) role = Some st"
    "\<forall>l \<in> set ls. may_provide (rg_roles (rw_registry ?s)) role (ls_provider_id l)"
    "rs_exclusive st \<longrightarrow> length (leases_for (rw_registry ?s) role @ ls) \<le> 1"
    using r1 st old by simp_all
  from reacquire_total [OF this, of holder_of] obtain rg where r: "reacquire holder_of role ls ?s = (?s\<lparr>rw_registry := rg\<rparr>, Inr ())" "rg_inv rg"
    "rg_roles rg = rg_roles rg1" "rg_preferred rg = rg_preferred rg1"
    "holders rg role = holders rg1 role @ map (\<lambda>l. (ls_provider_id l, holder_of l)) ls"
    "\<forall>r. r \<noteq> role \<longrightarrow> leases_for rg r = leases_for rg1 r" by auto
  have "restore_leases holder_of role ls s = (s\<lparr>rw_registry := rg\<rparr>, Inr ())"
    using active_leases_spec [OF inv st] r1(1) r(1) by (simp add: restore_leases_def registry_query_def)
  then show ?thesis using r r1 by (intro exI [of _ rg]) (simp add: frame_def holders_def)
qed

lemma switch_apply_run:
  assumes inv: "rg_inv (rw_registry s)" and p: "may_provide (rg_roles (rw_registry s)) role provider"
    and st: "map_of (rg_roles (rw_registry s)) role = Some st"
    and run: "switch_apply writable mode role provider generation old_active s = (s', r)"
  shows "frame role s s'" and "r \<noteq> Inr () \<Longrightarrow> rw_saved s' = rw_saved s"
    and "r = Inr () \<Longrightarrow> preferred_provider (rw_registry s') role = Inr (Some provider) \<and> rw_saved s' = rw_overrides s' \<and>
      (mode = ''select'' \<and> map_of (rw_overrides s') role = Some provider \<or> mode = ''reset'' \<and> map_of (rw_overrides s') role = None) \<and>
      (if old_active = Some provider then leases_for (rw_registry s') role = leases_for (rw_registry s) role
       else holders (rw_registry s') role = [(provider, generation_holder generation)])"
proof -
  obtain s1 r1 where pp: "prefer_provider ''role default changed during reset'' mode role provider s = (s1, r1)" by fastforce
  note one = prefer_provider_run [OF inv p st pp]
  have f1: "frame role s s1" and s1: "rg_inv (rw_registry s1)" "may_provide (rg_roles (rw_registry s1)) role provider"
    "map_of (rg_roles (rw_registry s1)) role = Some st" using one p st by (auto simp: frame_def)
  obtain rg where t: "take_lease role provider generation s1 = (s1\<lparr>rw_registry := rg\<rparr>, Inr ())" "frame role s1 (s1\<lparr>rw_registry := rg\<rparr>)"
    "rg_preferred rg = rg_preferred (rw_registry s1)" "holders rg role = [(provider, generation_holder generation)]"
    using take_lease_run [OF s1] by blast
  let ?s2 = "if old_active \<noteq> Some provider then s1\<lparr>rw_registry := rg\<rparr> else s1"
  have f2: "frame role s ?s2" using f1 t(2) frame_trans by auto
  have pref: "preferred_provider (rw_registry ?s2) role = preferred_provider (rw_registry s1) role"
    using t(2,3) by (simp add: frame_def preferred_provider_def rg_state_def)
  have e: "(s', r) = (if r1 = Inr () then persist_role_preferences writable ?s2 else (s1, r1))"
    using run pp t(1) by (cases r1) (auto simp: switch_apply_def)
  have sv: "frame role s (?s2\<lparr>rw_saved := x\<rparr>)" for x using f2 by (simp add: frame_def)
  show "frame role s s'" using e f1 f2 sv by (auto simp: persist_role_preferences_def split: if_splits)
  show "r \<noteq> Inr () \<Longrightarrow> rw_saved s' = rw_saved s" using e one by (auto simp: persist_role_preferences_def split: if_splits)
  assume "r = Inr ()"
  then have "r1 = Inr ()" "s' = ?s2\<lparr>rw_saved := rw_overrides ?s2\<rparr>" using e by (auto simp: persist_role_preferences_def split: if_splits)
  then show "preferred_provider (rw_registry s') role = Inr (Some provider) \<and> rw_saved s' = rw_overrides s' \<and>
      (mode = ''select'' \<and> map_of (rw_overrides s') role = Some provider \<or> mode = ''reset'' \<and> map_of (rw_overrides s') role = None) \<and>
      (if old_active = Some provider then leases_for (rw_registry s') role = leases_for (rw_registry s) role
       else holders (rw_registry s') role = [(provider, generation_holder generation)])"
    using one pref t(4) by (auto split: if_splits)
qed

lemma active_provider_holders:
  assumes "rg_inv rg" and "map_of (rg_roles rg) role = Some st"
  shows "active_provider rg role = Inr (case holders rg role of [] \<Rightarrow> None | x # _ \<Rightarrow> Some (fst x))"
proof -
  have "active_providers rg role = Inr (dedup (map fst (holders rg role)))"
    using active_leases_spec [OF assms] by (simp add: active_providers_def holders_def o_def)
  then show ?thesis by (cases "holders rg role") (simp_all add: active_provider_def)
qed

lemma preferred_may_provide:
  assumes "rg_inv rg" and "map_of (rg_roles rg) role = Some st" and "may_provide (rg_roles rg) role q"
  obtains p where "preferred_provider rg role = Inr (Some p)" "may_provide (rg_roles rg) role p"
proof (cases "map_of (rg_preferred rg) role")
  case None
  with assms obtain c cs where "rs_candidates st = c # cs" by (cases "rs_candidates st") (auto simp: may_provide_def)
  with None assms that show thesis by (auto simp: preferred_provider_def rg_state_def may_provide_def)
next
  case (Some p)
  with assms(2) rg_invD(5) [OF assms(1) Some] that show thesis by (simp add: preferred_provider_def rg_state_def)
qed

lemma switch_undo_run:
  assumes f: "frame role s s1" and inv: "rg_inv (rw_registry s)" and st: "map_of (rg_roles (rw_registry s)) role = Some st"
    and pref: "preferred_provider (rw_registry s) role = Inr (Some p)" "may_provide (rg_roles (rw_registry s)) role p"
    and run: "switch_undo role (leases_for (rw_registry s) role) (Some p) (map_of (rw_overrides s) role) s1 = (s2, r)"
  shows "frame role s s2 \<and> r = Inr () \<and> rw_saved s2 = rw_saved s1 \<and>
    preferred_provider (rw_registry s2) role = Inr (Some p) \<and> holders (rw_registry s2) role = holders (rw_registry s) role \<and>
    map_of (rw_overrides s2) role = map_of (rw_overrides s) role"
proof -
  have s1: "rg_inv (rw_registry s1)" "rg_roles (rw_registry s1) = rg_roles (rw_registry s)" using f by (simp_all add: frame_def)
  obtain rg where sel: "select_preferred role p (rw_registry s1) = Inr (p, rg)" "rg_inv rg" "rg_roles rg = rg_roles (rw_registry s)"
    "lease_table_of rg = lease_table_of (rw_registry s1)" "map_of (rg_preferred rg) = (map_of (rg_preferred (rw_registry s1)))(role \<mapsto> p)"
    using select_lookup [OF s1(1)] pref(2) s1(2) by metis
  let ?t = "set_override role (map_of (rw_overrides s) role) (s1\<lparr>rw_registry := rg\<rparr>)"
  have t: "rw_registry ?t = rg" "rw_saved ?t = rw_saved s1" "map_of (rw_overrides ?t) role = map_of (rw_overrides s) role"
    by (simp_all add: set_override_def dict_simps split: option.split)
  have ft: "frame role s ?t"
    using f sel by (auto simp: frame_def t set_override_def dict_simps leases_for_def split: option.split)
  have "\<forall>l \<in> set (leases_for (rw_registry s) role). may_provide (rg_roles (rw_registry ?t)) role (ls_provider_id l)"
    "rs_exclusive st \<longrightarrow> length (leases_for (rw_registry s) role) \<le> 1"
    using leases_may_provide [OF inv] exclusive_single [OF inv st] sel(3) by (auto simp: t)
  moreover have "rg_inv (rw_registry ?t)" "map_of (rg_roles (rw_registry ?t)) role = Some st" using sel st by (simp_all add: t)
  ultimately obtain rg2 where r2: "restore_leases ls_holder role (leases_for (rw_registry s) role) ?t = (?t\<lparr>rw_registry := rg2\<rparr>, Inr ())"
    "frame role ?t (?t\<lparr>rw_registry := rg2\<rparr>)" "rg_preferred rg2 = rg_preferred (rw_registry ?t)"
    "holders rg2 role = map (\<lambda>l. (ls_provider_id l, ls_holder l)) (leases_for (rw_registry s) role)"
    using restore_leases_run by blast
  have "s2 = ?t\<lparr>rw_registry := rg2\<rparr>" "r = Inr ()" using run r2(1) sel(1) by (auto simp: switch_undo_def registry_op_Inr)
  moreover have "rg_roles rg2 = rg_roles rg" using r2(2) by (simp add: frame_def t)
  ultimately show ?thesis
    using frame_trans [OF ft r2(2)] r2(3,4) sel(3,5) st t by (simp add: holders_def preferred_provider_def rg_state_def)
qed

section \<open>A switch is atomic\<close>

text \<open>
  C8. Switching a role takes full effect or none.  When it succeeds, the provider is the active and the
  preferred one, the overriding preference is as the mode asks and is what the file holds, and a
  provider is retired only if it holds no role.  When it fails, also because the file cannot be
  written, the preference, its override, the file and the holders of the role are what they were.
  Other roles are never touched.
\<close>

theorem switch_all_or_nothing:
  assumes inv: "rg_inv (rw_registry s)"
    and run: "switch_commit writable mode role provider generation running s = (s', r)"
  shows "rg_inv (rw_registry s') \<and>
    (\<forall>q. q \<noteq> role \<longrightarrow> preferred_provider (rw_registry s') q = preferred_provider (rw_registry s) q \<and>
       leases_for (rw_registry s') q = leases_for (rw_registry s) q \<and> map_of (rw_overrides s') q = map_of (rw_overrides s) q) \<and>
    (case r of
       Inl _ \<Rightarrow> preferred_provider (rw_registry s') role = preferred_provider (rw_registry s) role \<and>
         holders (rw_registry s') role = holders (rw_registry s) role \<and>
         map_of (rw_overrides s') role = map_of (rw_overrides s) role \<and> rw_saved s' = rw_saved s
     | Inr Unchanged \<Rightarrow> s' = s
     | Inr (Switched retired) \<Rightarrow>
         active_provider (rw_registry s') role = Inr (Some provider) \<and> preferred_provider (rw_registry s') role = Inr (Some provider) \<and>
         map_of (rw_overrides s') role = (if mode = ''select'' then Some provider else None) \<and> rw_saved s' = rw_overrides s' \<and>
         (\<forall>old. retired = Some old \<longrightarrow> \<not> holds_a_role (rw_registry s') old))"
proof (cases "\<exists>c. get_candidate (rw_registry s) role provider = Inr c")
  case False
  then have "s' = s" "isl r"
    using run by (auto simp: switch_commit_def Let_def split: sum.split_asm prod.split_asm)
  then show ?thesis using inv by (cases r) simp_all
next
  case True
  let ?rg = "rw_registry s"
  from True have p: "may_provide (rg_roles ?rg) role provider" using get_candidate_iff by blast
  then obtain st where st: "map_of (rg_roles ?rg) role = Some st" by (auto simp: may_provide_def split: option.splits)
  obtain old where old: "preferred_provider ?rg role = Inr (Some old)" "may_provide (rg_roles ?rg) role old"
    by (rule preferred_may_provide [OF inv st p])
  define act where "act = (case holders ?rg role of [] \<Rightarrow> None | x # _ \<Rightarrow> Some (fst x))"
  note active = active_provider_holders [OF inv st, folded act_def]
  obtain s1 r1 where ap: "switch_apply writable mode role provider generation act s = (s1, r1)" by fastforce
  note app = switch_apply_run [OF inv p st ap]
  obtain s2 r2 where un: "switch_undo role (leases_for ?rg role) (Some old) (map_of (rw_overrides s) role) s1 = (s2, r2)" by fastforce
  note undo = switch_undo_run [OF app(1) inv st old un]
  consider (same) "s' = s" "r = Inr Unchanged" | (taken) "s' = s1" "r1 = Inr ()" "\<exists>retired. r = Inr (Switched retired) \<and>
      (\<forall>old. retired = Some old \<longrightarrow> \<not> holds_a_role (rw_registry s1) old)" | (undone) "s' = s2" "r1 \<noteq> Inr ()" "isl r"
    using run True active_leases_spec [OF inv st] active old(1) ap un undo
    by (auto simp: switch_commit_def Let_def split: if_split_asm sum.split_asm option.split_asm)
  then show ?thesis
  proof cases
    case same
    with inv show ?thesis by simp
  next
    case taken
    then obtain retired where rt: "r = Inr (Switched retired)" "\<forall>old. retired = Some old \<longrightarrow> \<not> holds_a_role (rw_registry s1) old" by blast
    note a3 = app(3) [OF taken(2)]
    have "map_of (rg_roles (rw_registry s1)) role = Some st" "rg_inv (rw_registry s1)" using app(1) st by (simp_all add: frame_def)
    then have "active_provider (rw_registry s1) role = Inr (Some provider)"
      using a3 active_provider_holders [of "rw_registry s1" role st]
      by (cases "holders ?rg role") (auto simp: act_def holders_def split: if_split_asm)
    moreover have "map_of (rw_overrides s1) role = (if mode = ''select'' then Some provider else None)" using a3 by auto
    ultimately show ?thesis using taken(1) rt a3 app(1) frame_preferred [OF app(1)] by (simp add: frame_def)
  next
    case undone
    then show ?thesis using undo frame_preferred [of role s s2] app(2) old(1)
      by (cases r) (simp_all add: frame_def)
  qed
qed

definition demo_settings :: role_settings where
  "demo_settings = \<lparr>rw_registry = demo_roles, rw_overrides = [], rw_saved = []\<rparr>"

theorem switch_all_or_nothing_witness:
  "snd (switch_commit False ''select'' ''shell'' ''org.demo:a'' 3 (\<lambda>_. True) demo_settings) = Inl SwWrite \<and>
   (let s' = fst (switch_commit False ''select'' ''shell'' ''org.demo:a'' 3 (\<lambda>_. True) demo_settings) in
    preferred_provider (rw_registry s') ''shell'' = preferred_provider demo_roles ''shell'' \<and>
    holders (rw_registry s') ''shell'' = holders demo_roles ''shell'')"
proof -
  let ?run = "switch_commit False ''select'' ''shell'' ''org.demo:a'' 3 (\<lambda>_. True) demo_settings"
  have e: "snd ?run = Inl SwWrite" by code_simp
  have "rg_inv (rw_registry demo_settings)" by (simp add: demo_settings_def demo_roles_inv)
  from switch_all_or_nothing [OF this, of False "''select''" "''shell''" "''org.demo:a''" 3 "\<lambda>_. True" "fst ?run" "snd ?run"] e
  show ?thesis by (simp add: demo_settings_def Let_def)
qed

section \<open>The display role is restored\<close>

lemma apply_display_frame:
  assumes "rg_inv (rw_registry s)" and "may_provide (rg_roles (rw_registry s)) DISPLAY_OUTPUT_ROLE provider"
    and "map_of (rg_roles (rw_registry s)) DISPLAY_OUTPUT_ROLE = Some st"
    and "apply_display_preference mode provider generation s = (s', r)"
  shows "frame DISPLAY_OUTPUT_ROLE s s'"
proof -
  obtain s1 r1 where pp: "prefer_provider ''display-output default changed during migration'' mode DISPLAY_OUTPUT_ROLE provider s = (s1, r1)"
    by fastforce
  have f: "frame DISPLAY_OUTPUT_ROLE s s1" using prefer_provider_run [OF assms(1-3) pp] by blast
  then have s1: "rg_inv (rw_registry s1)" "may_provide (rg_roles (rw_registry s1)) DISPLAY_OUTPUT_ROLE provider"
    "map_of (rg_roles (rw_registry s1)) DISPLAY_OUTPUT_ROLE = Some st" using assms by (simp_all add: frame_def)
  obtain rg where t: "take_lease DISPLAY_OUTPUT_ROLE provider generation s1 = (s1\<lparr>rw_registry := rg\<rparr>, Inr ())"
    "frame DISPLAY_OUTPUT_ROLE s1 (s1\<lparr>rw_registry := rg\<rparr>)" using take_lease_run [OF s1] by blast
  from assms(4) pp t(1) have "s' = s1 \<or> s' = s1\<lparr>rw_registry := rg\<rparr>"
    by (cases r1) (auto simp: apply_display_preference_def)
  then show ?thesis using f frame_trans [OF f t(2)] by blast
qed

lemma restore_preference_run:
  assumes inv: "rg_inv (rw_registry s)" and st: "map_of (rg_roles (rw_registry s)) role = Some st"
    and p: "\<And>q. override = Some q \<Longrightarrow> may_provide (rg_roles (rw_registry s)) role q"
  shows "\<exists>t. restore_preference role override s = (t, Inr ()) \<and> rg_inv (rw_registry t) \<and> frame role s t \<and>
    map_of (rw_overrides t) role = override \<and> map_of (rg_preferred (rw_registry t)) role = override"
proof (cases override)
  case None
  obtain q rg where r: "reset_preferred role (rw_registry s) = Inr (q, rg)" "rg_inv rg" "rg_roles rg = rg_roles (rw_registry s)"
    "lease_table_of rg = lease_table_of (rw_registry s)" "map_of (rg_preferred rg) = (map_of (rg_preferred (rw_registry s)))(role := None)"
    using reset_lookup [OF inv st] by blast
  then show ?thesis using None
    by (auto simp: restore_preference_def registry_op_Inr set_override_def frame_def leases_for_def dict_simps)
next
  case (Some q)
  obtain rg where r: "select_preferred role q (rw_registry s) = Inr (q, rg)" "rg_inv rg" "rg_roles rg = rg_roles (rw_registry s)"
    "lease_table_of rg = lease_table_of (rw_registry s)" "map_of (rg_preferred rg) = (map_of (rg_preferred (rw_registry s)))(role \<mapsto> q)"
    using select_lookup [OF inv p [OF Some]] by blast
  then show ?thesis using Some
    by (auto simp: restore_preference_def registry_op_Inr set_override_def frame_def leases_for_def dict_simps)
qed

text \<open>
  C16. Undoing a display migration in the same catalog gives the display role back to the providers that
  held it, restores the preference and its override and writes them, whatever the migration had done to
  the role; other roles are not touched.
\<close>

theorem display_role_roundtrip:
  assumes inv: "rg_inv (rw_registry s)" and p: "may_provide (rg_roles (rw_registry s)) DISPLAY_OUTPUT_ROLE provider"
    and ov: "map_of (rg_preferred (rw_registry s)) DISPLAY_OUTPUT_ROLE = map_of (rw_overrides s) DISPLAY_OUTPUT_ROLE"
    and snap: "snapshot_display_role epoch s = Inr snap"
    and app: "apply_display_preference mode provider generation s = (s1, r1)"
    and rest: "restore_display_role epoch ready_generation True snap s1 = (s2, r2)"
  shows "r2 = Inr () \<and> preferred_provider (rw_registry s2) = preferred_provider (rw_registry s) \<and>
    map fst (holders (rw_registry s2) DISPLAY_OUTPUT_ROLE) = map fst (holders (rw_registry s) DISPLAY_OUTPUT_ROLE) \<and>
    map_of (rw_overrides s2) = map_of (rw_overrides s) \<and> rw_saved s2 = rw_overrides s2 \<and>
    (\<forall>q. q \<noteq> DISPLAY_OUTPUT_ROLE \<longrightarrow> leases_for (rw_registry s2) q = leases_for (rw_registry s) q)"
proof -
  let ?D = DISPLAY_OUTPUT_ROLE and ?rg = "rw_registry s"
  obtain st where st: "map_of (rg_roles ?rg) ?D = Some st" using p by (auto simp: may_provide_def split: option.splits)
  have sn: "sn_epoch snap = epoch" "sn_leases snap = leases_for ?rg ?D" "sn_override snap = map_of (rw_overrides s) ?D"
    using snap active_leases_spec [OF inv st] by (auto simp: snapshot_display_role_def rbind_Inr_iff)
  note f = apply_display_frame [OF inv p st app]
  have s1: "rg_inv (rw_registry s1)" "rg_roles (rw_registry s1) = rg_roles ?rg" using f by (simp_all add: frame_def)
  have "may_provide (rg_roles (rw_registry s1)) ?D q" if "map_of (rw_overrides s) ?D = Some q" for q
    using that ov rg_invD(5) [OF inv] s1(2) by simp
  then obtain t where t: "restore_preference ?D (map_of (rw_overrides s) ?D) s1 = (t, Inr ())" "rg_inv (rw_registry t)" "frame ?D s1 t"
    "map_of (rw_overrides t) ?D = map_of (rw_overrides s) ?D" "map_of (rg_preferred (rw_registry t)) ?D = map_of (rw_overrides s) ?D"
    using restore_preference_run [OF s1(1), of ?D st] s1(2) st by metis
  have ft: "frame ?D s t" by (rule frame_trans [OF f t(3)])
  then have tr: "rg_roles (rw_registry t) = rg_roles ?rg" by (simp add: frame_def)
  let ?h = "\<lambda>l. case ready_generation (ls_provider_id l) of Some g \<Rightarrow> generation_holder g | None \<Rightarrow> ls_holder l"
  have "\<forall>l \<in> set (leases_for ?rg ?D). may_provide (rg_roles (rw_registry t)) ?D (ls_provider_id l)"
    "rs_exclusive st \<longrightarrow> length (leases_for ?rg ?D) \<le> 1"
    using leases_may_provide [OF inv] exclusive_single [OF inv st] by (auto simp: tr)
  moreover have "rg_inv (rw_registry t)" "map_of (rg_roles (rw_registry t)) ?D = Some st" using t(2) tr st by simp_all
  ultimately obtain rg2 where r2: "restore_leases ?h ?D (leases_for ?rg ?D) t = (t\<lparr>rw_registry := rg2\<rparr>, Inr ())"
    "frame ?D t (t\<lparr>rw_registry := rg2\<rparr>)" "rg_preferred rg2 = rg_preferred (rw_registry t)"
    "holders rg2 ?D = map (\<lambda>l. (ls_provider_id l, ?h l)) (leases_for ?rg ?D)"
    using restore_leases_run by blast
  let ?u = "t\<lparr>rw_registry := rg2\<rparr>"
  have e: "s2 = ?u\<lparr>rw_saved := rw_overrides ?u\<rparr>" "r2 = Inr ()"
    using rest t(1) r2(1) by (auto simp: restore_display_role_def sn persist_role_preferences_def)
  have fu: "frame ?D s ?u" by (rule frame_trans [OF ft r2(2)])
  have "map_of (rg_preferred rg2) q = map_of (rg_preferred ?rg) q" for q
    using fu r2(3) t(5) ov by (cases "q = ?D") (simp_all add: frame_def)
  moreover have "rg_roles rg2 = rg_roles ?rg" using fu by (simp add: frame_def)
  ultimately have "preferred_provider rg2 = preferred_provider ?rg" by (simp add: fun_eq_iff preferred_provider_def rg_state_def)
  moreover have "map_of (rw_overrides ?u) q = map_of (rw_overrides s) q" for q
    using fu t(4) by (cases "q = ?D") (simp_all add: frame_def)
  moreover have "map fst (holders rg2 ?D) = map fst (holders ?rg ?D)" unfolding r2(4) by (simp add: holders_def o_def)
  ultimately show ?thesis using fu e by (auto simp: frame_def fun_eq_iff)
qed

definition demo_displays :: role_registry where
  "demo_displays = projr (RoleRegistry (projr (load_manifests (\<lambda>_. Inr (JObj
     [(''schema'', JStr ''msys.manifest.v1''), (''package'', JObj [(''id'', JStr ''d'')]),
      (''components'', JList
        [JObj [(''id'', JStr ''a''), (''exec'', JList [JStr ''a'']), (''provides'', JList [JObj [(''role'', JStr ''display-output''), (''priority'', JInt 2)]])],
         JObj [(''id'', JStr ''b''), (''exec'', JList [JStr ''b'']), (''provides'', JList [JObj [(''role'', JStr ''display-output'')]])]])]))
     [[''m.json'']] [])) [] [])"

definition demo_display_settings :: role_settings where
  "demo_display_settings = fst (take_lease DISPLAY_OUTPUT_ROLE ''d:a'' 1 \<lparr>rw_registry = demo_displays, rw_overrides = [], rw_saved = []\<rparr>)"

lemma demo_display_inv: "rg_inv (rw_registry demo_display_settings)"
proof -
  let ?s = "\<lparr>rw_registry = demo_displays, rw_overrides = [], rw_saved = []\<rparr> :: role_settings"
  have "is_ok (RoleRegistry (projr (load_manifests (\<lambda>_. Inr (JObj
     [(''schema'', JStr ''msys.manifest.v1''), (''package'', JObj [(''id'', JStr ''d'')]),
      (''components'', JList
        [JObj [(''id'', JStr ''a''), (''exec'', JList [JStr ''a'']), (''provides'', JList [JObj [(''role'', JStr ''display-output''), (''priority'', JInt 2)]])],
         JObj [(''id'', JStr ''b''), (''exec'', JList [JStr ''b'']), (''provides'', JList [JObj [(''role'', JStr ''display-output'')]])]])]))
     [[''m.json'']] [])) [] [])" by code_simp
  then have inv: "rg_inv (rw_registry ?s)" by (auto simp: demo_displays_def is_ok_iff intro: RoleRegistry_inv)
  have m: "may_provide (rg_roles (rw_registry ?s)) DISPLAY_OUTPUT_ROLE ''d:a''" by code_simp
  then obtain st where "map_of (rg_roles (rw_registry ?s)) DISPLAY_OUTPUT_ROLE = Some st" by (auto simp: may_provide_def split: option.splits)
  from take_lease_run [OF inv m this, of 1] show ?thesis by (auto simp: demo_display_settings_def frame_def)
qed

definition demo_migrated :: role_settings where
  "demo_migrated = fst (apply_display_preference ''select'' ''d:b'' 1 demo_display_settings)"

definition demo_snapshot :: display_snapshot where
  "demo_snapshot = projr (snapshot_display_role 0 demo_display_settings)"

definition demo_restored :: role_settings where
  "demo_restored = fst (restore_display_role 0 (\<lambda>_. None) True demo_snapshot demo_migrated)"

theorem display_role_roundtrip_witness:
  "active_provider (rw_registry demo_migrated) DISPLAY_OUTPUT_ROLE = Inr (Some ''d:b'') \<and>
   map fst (holders (rw_registry demo_restored) DISPLAY_OUTPUT_ROLE) = map fst (holders (rw_registry demo_display_settings) DISPLAY_OUTPUT_ROLE) \<and>
   preferred_provider (rw_registry demo_restored) = preferred_provider (rw_registry demo_display_settings)"
proof -
  have p: "may_provide (rg_roles (rw_registry demo_display_settings)) DISPLAY_OUTPUT_ROLE ''d:b''"
    and ov: "map_of (rg_preferred (rw_registry demo_display_settings)) DISPLAY_OUTPUT_ROLE = map_of (rw_overrides demo_display_settings) DISPLAY_OUTPUT_ROLE"
    and a: "active_provider (rw_registry demo_migrated) DISPLAY_OUTPUT_ROLE = Inr (Some ''d:b'')"
    and k: "is_ok (snapshot_display_role 0 demo_display_settings)" by code_simp+
  from k have sn: "snapshot_display_role 0 demo_display_settings = Inr demo_snapshot" by (auto simp: demo_snapshot_def is_ok_iff)
  have m: "apply_display_preference ''select'' ''d:b'' 1 demo_display_settings =
      (demo_migrated, snd (apply_display_preference ''select'' ''d:b'' 1 demo_display_settings))" by (simp add: demo_migrated_def)
  have r: "restore_display_role 0 (\<lambda>_. None) True demo_snapshot demo_migrated =
      (demo_restored, snd (restore_display_role 0 (\<lambda>_. None) True demo_snapshot demo_migrated))" by (simp add: demo_restored_def)
  from display_role_roundtrip [OF demo_display_inv p ov sn m r] a show ?thesis by blast
qed

end
