(* ===== verification/Display_Outage.thy ===== *)
theory Display_Outage
  imports Component_Channel Supervision Component_Launch
begin

text \<open>
  Loss and recovery of the display (methods of \<open>Msysd\<close> in \<open>msys_core/msysd.py\<close>): the snapshot of the visual
  session when its provider fails or is replaced (\<open>_begin_display_outage\<close>), the fence that keeps clients
  of the display from starting meanwhile (\<open>_display_outage_blocks\<close>), their ordered recovery
  (\<open>_recover_display_consumers\<close>), the report of the fault and the table of migrations.

  The recovery is a task: its sections between two \<open>await\<close>s are operations on the state, and the task
  with its local variables is a \<open>recovery\<close>.  All other tasks may run between the sections; the recovery
  lock admits one recovery at a time.

  The lemmas show that the fence holds in every interleaving, and what an unplanned loss keeps and drops.
\<close>

section \<open>State\<close>

definition DISPLAY_OUTPUT_RECOVERED_SCHEMA :: string where
  "DISPLAY_OUTPUT_RECOVERED_SCHEMA = ''msys.display-output-recovered.v1''"
definition DISPLAY_OUTPUT_RECOVERED_TOPIC :: string where
  "DISPLAY_OUTPUT_RECOVERED_TOPIC = ''msys.display.output_recovered''"
definition DISPLAY_FAILURE_QUARANTINE_GRACE_SECONDS :: rat where
  "DISPLAY_FAILURE_QUARANTINE_GRACE_SECONDS = 15"

record outage =
  ou_id :: nat
  ou_revision :: nat
  ou_provider :: string
  ou_failed_generation :: int
  ou_consumers :: "string list"
  ou_dropped :: "string list"
  ou_automatic :: bool
  ou_foreground :: "string list"
  ou_failure_history :: "(string, rat list) dict"
  ou_spawn_backoff :: "(string, rat option) dict"
  ou_preexisting_quarantine :: "string set"
  ou_recovery_allowed :: "string set"
  ou_fault_id :: "nat option"

record display_fault =
  df_id :: nat
  df_recovering :: bool
  df_reason :: string
  df_provider :: string
  df_failed_generation :: int
  df_display :: "string option"
  df_dropped :: "string list"
  df_recovery_provider :: "string option"
  df_generation :: "int option"
  df_restarted :: "string list"
  df_failures :: "(string \<times> string) list"

record display_state =
  dy_hub :: hub
  dy_profile :: jobj
  dy_foreground :: foreground
  dy_budget :: restart_budget
  dy_spawn_backoff :: "(string, rat) dict"
  dy_stop_requests :: "string set"
  dy_stopping :: bool
  dy_outage :: "outage option"
  dy_next_outage_id :: nat
  dy_fault :: "display_fault option"
  dy_next_fault_id :: nat

abbreviation dy_instances :: "display_state \<Rightarrow> (string, endpoint) dict" where
  "dy_instances d \<equiv> hb_instances (dy_hub d)"

section \<open>Clients of the display\<close>

definition is_automatic_visual_service :: "component \<Rightarrow> bool" where
  "is_automatic_visual_service c \<longleftrightarrow> c_lifecycle c \<in> {''background'', ''session''}"

definition inherits_visual_session :: "component \<Rightarrow> bool" where
  "inherits_visual_session c \<longleftrightarrow>
     py_str (jget_or (c_windowing c) ''system'' (JStr [])) = ''x11'' \<and>
     py_str (jget_or (c_windowing c) ''display'' (JStr [])) = ''inherit'' \<and>
     windowing_mode c \<noteq> ''display-provider'' \<and> \<not> provides_display_output c"

text \<open>The \<open>startup\<close> array of a validated profile.\<close>

definition profile_startup :: "jobj \<Rightarrow> string list" where
  "profile_startup profile = (case jget_or profile ''startup'' (JList []) of JList xs \<Rightarrow> map py_str xs | _ \<Rightarrow> [])"

text \<open>A set of keys is a list without repetitions here; the result does not depend on its order.\<close>

definition order_visual_consumer_keys :: "jobj \<Rightarrow> string list \<Rightarrow> string list \<Rightarrow> string list" where
  "order_visual_consumer_keys profile stack candidates =
     (let profile_order = filter (\<lambda>k. k \<in> set candidates) (profile_startup profile);
          remaining = filter (\<lambda>k. k \<notin> set profile_order) candidates;
          foreground_order = filter (\<lambda>k. k \<in> set remaining) (rev stack)
      in dedup (profile_order @ foreground_order @ sort (filter (\<lambda>k. k \<notin> set foreground_order) remaining)))"

definition ordered_visual_consumers :: "display_state \<Rightarrow> string list" where
  "ordered_visual_consumers d =
     order_visual_consumer_keys (dy_profile d) (fg_stack (dy_foreground d))
       (map fst (filter (\<lambda>(_, e). \<not> fw_finalized e \<and> ep_current e \<and> inherits_visual_session (fw_component e)) (dy_instances d)))"

definition display_outage_blocks :: "display_state \<Rightarrow> component \<Rightarrow> bool" where
  "display_outage_blocks d c = (case dy_outage d of
       None \<Rightarrow> False
     | Some ou \<Rightarrow> inherits_visual_session c \<and> component_key c \<notin> ou_recovery_allowed ou)"

definition display_outage_matches :: "display_state \<Rightarrow> outage \<Rightarrow> bool" where
  "display_outage_matches d snapshot = (case dy_outage d of
       None \<Rightarrow> False
     | Some ou \<Rightarrow> ou_id ou = ou_id snapshot \<and> ou_revision ou = ou_revision snapshot)"

section \<open>Beginning an outage\<close>

definition outage_candidates :: "display_state \<Rightarrow> endpoint \<Rightarrow> (string \<times> endpoint) list" where
  "outage_candidates d p =
     filter (\<lambda>(key, e). key \<noteq> ep_key p \<and> inherits_visual_session (fw_component e) \<and> key \<notin> dy_stop_requests d) (dy_instances d)"

definition failure_cutoff :: "bool \<Rightarrow> rat \<Rightarrow> rat option" where
  "failure_cutoff recover now = (if recover then Some (now - DISPLAY_FAILURE_QUARANTINE_GRACE_SECONDS) else None)"

text \<open>A quarantine that began within the grace period is lifted.\<close>

definition lift_recent_quarantine :: "rat option \<Rightarrow> string list \<Rightarrow> restart_budget \<Rightarrow> restart_budget" where
  "lift_recent_quarantine cutoff keys b = (case cutoff of
       None \<Rightarrow> b
     | Some c \<Rightarrow> fold (\<lambda>key b.
         if key \<in> rb_quarantined b \<and> (case map_of (rb_quarantine_times b) key of Some t \<Rightarrow> c \<le> t | None \<Rightarrow> False)
         then b\<lparr>rb_quarantined := rb_quarantined b - {key}, rb_quarantine_times := AList.delete key (rb_quarantine_times b)\<rparr>
         else b) keys b)"

definition baseline_history :: "rat option \<Rightarrow> restart_budget \<Rightarrow> string \<Rightarrow> rat list" where
  "baseline_history cutoff b key =
     filter (\<lambda>t. case cutoff of None \<Rightarrow> True | Some c \<Rightarrow> t < c) (dict_get_or (rb_history b) key [])"

definition new_outage :: "rat option \<Rightarrow> bool \<Rightarrow> display_state \<Rightarrow> endpoint \<Rightarrow> string list \<Rightarrow> string list \<Rightarrow> outage" where
  "new_outage cutoff automatic d p ordered dropped =
     \<lparr>ou_id = dy_next_outage_id d, ou_revision = 1, ou_provider = ep_key p, ou_failed_generation = ep_generation p,
      ou_consumers = ordered, ou_dropped = dropped, ou_automatic = automatic, ou_foreground = fg_stack (dy_foreground d),
      ou_failure_history = map (\<lambda>key. (key, baseline_history cutoff (dy_budget d) key)) ordered,
      ou_spawn_backoff = map (\<lambda>key. (key, map_of (dy_spawn_backoff d) key)) ordered,
      ou_preexisting_quarantine = {key \<in> set ordered. key \<in> rb_quarantined (dy_budget d)},
      ou_recovery_allowed = {}, ou_fault_id = None\<rparr>"

text \<open>The flag \<open>automatic_services_only\<close> of the outage stays; its lists grow.\<close>

definition extended_outage :: "rat option \<Rightarrow> display_state \<Rightarrow> endpoint \<Rightarrow> string list \<Rightarrow> string list \<Rightarrow> outage \<Rightarrow> outage" where
  "extended_outage cutoff d p ordered dropped ou =
     (let fresh = filter (\<lambda>key. key \<notin> set (ou_consumers ou)) ordered in
      ou\<lparr>ou_revision := ou_revision ou + 1, ou_provider := ep_key p, ou_failed_generation := ep_generation p,
         ou_recovery_allowed := {}, ou_consumers := ou_consumers ou @ fresh,
         ou_failure_history := dict_update (ou_failure_history ou) (map (\<lambda>key. (key, baseline_history cutoff (dy_budget d) key)) fresh),
         ou_spawn_backoff := dict_update (ou_spawn_backoff ou) (map (\<lambda>key. (key, map_of (dy_spawn_backoff d) key)) fresh),
         ou_preexisting_quarantine := ou_preexisting_quarantine ou \<union> {key \<in> set fresh. key \<in> rb_quarantined (dy_budget d)},
         ou_dropped := ou_dropped ou @ filter (\<lambda>key. key \<notin> set (ou_dropped ou)) dropped\<rparr>)"

text \<open>The clients to recover and the clients to drop.\<close>

definition outage_lists :: "bool \<Rightarrow> display_state \<Rightarrow> endpoint \<Rightarrow> string list \<times> string list" where
  "outage_lists automatic d p =
     (let candidates = outage_candidates d p;
          services = (if automatic then filter (\<lambda>(_, e). is_automatic_visual_service (fw_component e)) candidates else candidates);
          others = (if automatic then filter (\<lambda>(_, e). \<not> is_automatic_visual_service (fw_component e)) candidates else []);
          ordered = order_visual_consumer_keys (dy_profile d) (fg_stack (dy_foreground d))
      in (ordered (map fst services), ordered (map fst others)))"

definition begin_display_outage :: "rat \<Rightarrow> bool \<Rightarrow> bool \<Rightarrow> display_state \<Rightarrow> endpoint \<Rightarrow> display_state \<times> outage option" where
  "begin_display_outage now recover automatic d p =
     (if dy_stopping d \<or> \<not> owns_active_display_output (dy_hub d) p then (d, None)
      else
        case outage_lists automatic d p of (ordered, dropped) \<Rightarrow>
        let cutoff = failure_cutoff recover now;
            d1 = d\<lparr>dy_budget := lift_recent_quarantine cutoff ordered (dy_budget d)\<rparr>
        in case dy_outage d of
             None \<Rightarrow>
               let ou = new_outage cutoff automatic d1 p ordered dropped
               in (d1\<lparr>dy_next_outage_id := dy_next_outage_id d + 1, dy_outage := Some ou\<rparr>, Some ou)
           | Some ou \<Rightarrow>
               let ou' = extended_outage cutoff d1 p ordered dropped ou
               in (d1\<lparr>dy_outage := Some ou'\<rparr>, Some ou'))"

definition begin_display_fault :: "string \<Rightarrow> string list \<Rightarrow> display_state \<Rightarrow> endpoint \<Rightarrow> display_state \<times> display_fault" where
  "begin_display_fault reason dropped d p =
     (let fault = \<lparr>df_id = dy_next_fault_id d, df_recovering = True, df_reason = reason, df_provider = ep_key p,
            df_failed_generation = ep_generation p, df_display = display_for_provider (fw_component p), df_dropped = dropped,
            df_recovery_provider = None, df_generation = None, df_restarted = [], df_failures = []\<rparr>
      in (d\<lparr>dy_next_fault_id := dy_next_fault_id d + 1, dy_fault := Some fault\<rparr>, fault))"

definition begin_unplanned_display_failure :: "rat \<Rightarrow> string \<Rightarrow> display_state \<Rightarrow> endpoint \<Rightarrow> display_state \<times> outage option" where
  "begin_unplanned_display_failure now reason d p =
     (if dy_stopping d \<or> \<not> owns_active_display_output (dy_hub d) p then (d, None)
      else if dy_outage d \<noteq> None then begin_display_outage now True True d p
      else (case begin_display_outage now True True d p of
          (d1, None) \<Rightarrow> (d1, None)
        | (d1, Some ou) \<Rightarrow>
            (case begin_display_fault reason (ou_dropped ou) d1 p of
               (d2, fault) \<Rightarrow>
                 let ou' = ou\<lparr>ou_fault_id := Some (df_id fault)\<rparr> in (d2\<lparr>dy_outage := Some ou'\<rparr>, Some ou'))))"

definition begin_catalog_display_outage :: "rat \<Rightarrow> display_state \<Rightarrow> string list \<Rightarrow> display_state \<times> outage option" where
  "begin_catalog_display_outage now d affected =
     (case active_provider (hb_registry (dy_hub d)) DISPLAY_OUTPUT_ROLE of
        Inr (Some key) \<Rightarrow>
          if key = [] \<or> key \<notin> set affected then (d, None)
          else (case map_of (dy_instances d) key of
              None \<Rightarrow> (d, None)
            | Some p \<Rightarrow> if fw_ready p then begin_display_outage now False False d p else (d, None))
      | _ \<Rightarrow> (d, None))"

section \<open>Suspending the clients\<close>

definition affected_keys :: "outage \<Rightarrow> string list" where
  "affected_keys ou = dedup (ou_consumers ou @ ou_dropped ou)"

datatype suspend_action = CancelRetry string | StopComponent string

text \<open>One round of the loop; \<open>None\<close> ends it because another outage has taken over.\<close>

definition suspend_round :: "display_state \<Rightarrow> outage \<Rightarrow> string \<Rightarrow> suspend_action option" where
  "suspend_round d ou key = (case dy_outage d of
       Some current \<Rightarrow>
         if ou_id current \<noteq> ou_id ou then None
         else Some (if dict_has (dy_instances d) key then StopComponent key else CancelRetry key)
     | None \<Rightarrow> None)"

section \<open>Recovery\<close>

definition restore_outage_failure_budget :: "outage \<Rightarrow> string \<Rightarrow> display_state \<Rightarrow> display_state" where
  "restore_outage_failure_budget ou key d =
     (let baseline = dict_get_or (ou_failure_history ou) key [];
          history = rb_history (dy_budget d)
      in d\<lparr>dy_budget := (dy_budget d)\<lparr>rb_history := (if baseline \<noteq> [] then AList.update key baseline history else AList.delete key history)\<rparr>,
           dy_spawn_backoff := (case Option.bind (map_of (ou_spawn_backoff ou) key) id of
              None \<Rightarrow> AList.delete key (dy_spawn_backoff d) | Some t \<Rightarrow> AList.update key t (dy_spawn_backoff d))\<rparr>)"

text \<open>The local variables of \<open>_recover_display_consumers\<close>; \<open>rv_current\<close> is the client whose start is awaited.\<close>

record recovery =
  rv_key :: string
  rv_oid :: nat
  rv_outage :: nat
  rv_revision :: nat
  rv_todo :: "string list"
  rv_current :: "string option"
  rv_restarted :: "string list"
  rv_failures :: "(string \<times> string) list"

definition owns_display :: "display_state \<Rightarrow> string \<Rightarrow> nat \<Rightarrow> bool" where
  "owns_display d key oid = (case map_of (dy_instances d) key of
       Some e \<Rightarrow> ep_oid e = oid \<and> owns_active_display_output (dy_hub d) e
     | None \<Rightarrow> False)"

definition recover_begin :: "display_state \<Rightarrow> string \<Rightarrow> nat \<Rightarrow> recovery option" where
  "recover_begin d key oid = (case dy_outage d of
       None \<Rightarrow> None
     | Some ou \<Rightarrow>
         if (case map_of (dy_instances d) key of Some e \<Rightarrow> ep_oid e = oid \<and> fw_ready e | None \<Rightarrow> False) \<and> owns_display d key oid
         then Some \<lparr>rv_key = key, rv_oid = oid, rv_outage = ou_id ou, rv_revision = ou_revision ou, rv_todo = ou_consumers ou,
                    rv_current = None, rv_restarted = [], rv_failures = []\<rparr>
         else None)"

definition still_recovering :: "display_state \<Rightarrow> recovery \<Rightarrow> outage option" where
  "still_recovering d v = (case dy_outage d of
       None \<Rightarrow> None
     | Some ou \<Rightarrow>
         if ou_id ou = rv_outage v \<and> ou_revision ou = rv_revision v \<and> owns_display d (rv_key v) (rv_oid v) then Some ou else None)"

text \<open>The head of the loop up to the next \<open>await\<close>; without a recovery the task has ended.\<close>

definition recover_next :: "display_state \<Rightarrow> recovery \<Rightarrow> string \<Rightarrow> string list \<Rightarrow> display_state \<times> recovery option" where
  "recover_next d v key rest = (case still_recovering d v of
       None \<Rightarrow> (d, None)
     | Some ou \<Rightarrow>
         (case map_of (hb_components (dy_hub d)) key of
            None \<Rightarrow> (d, Some (v\<lparr>rv_todo := rest\<rparr>))
          | Some c \<Rightarrow>
              if \<not> inherits_visual_session c \<or> key \<in> ou_preexisting_quarantine ou \<or> key \<in> rb_quarantined (dy_budget d)
              then (d, Some (v\<lparr>rv_todo := rest\<rparr>))
              else ((restore_outage_failure_budget ou key d)\<lparr>dy_outage := Some (ou\<lparr>ou_recovery_allowed := insert key (ou_recovery_allowed ou)\<rparr>)\<rparr>,
                    Some (v\<lparr>rv_todo := rest, rv_current := Some key\<rparr>))))"

text \<open>\<open>ensure_ready\<close> has returned or raised.\<close>

definition recover_done :: "display_state \<Rightarrow> recovery \<Rightarrow> string \<Rightarrow> (string, endpoint) result \<Rightarrow> display_state \<times> recovery" where
  "recover_done d v key outcome =
     (let v' = (case outcome of
            Inr e \<Rightarrow> if \<not> fw_ready e \<or> ep_state e \<noteq> ''ready''
              then v\<lparr>rv_failures := rv_failures v @ [(key, take 256 (''component state is '' @ ep_state e))]\<rparr>
              else v\<lparr>rv_restarted := rv_restarted v @ [key]\<rparr>
          | Inl message \<Rightarrow> v\<lparr>rv_failures := rv_failures v @ [(key, take 256 message)]\<rparr>)
      in (case dy_outage d of
            Some ou \<Rightarrow> if ou_id ou = rv_outage v
              then d\<lparr>dy_outage := Some (ou\<lparr>ou_recovery_allowed := ou_recovery_allowed ou - {key}\<rparr>)\<rparr> else d
          | None \<Rightarrow> d,
          v'\<lparr>rv_current := None\<rparr>))"

definition restore_foreground :: "string list \<Rightarrow> display_state \<Rightarrow> display_state" where
  "restore_foreground stack d =
     (let restored = filter (\<lambda>key. case map_of (dy_instances d) key of Some e \<Rightarrow> fw_ready e | None \<Rightarrow> False) stack;
          f = dy_foreground d
      in d\<lparr>dy_foreground := f\<lparr>fg_stack := restored @ filter (\<lambda>k. k \<notin> set restored) (fg_stack f)\<rparr>\<rparr>)"

text \<open>The end of the loop: the outage that is over, when the recovery was not overtaken.\<close>

definition recover_finish :: "display_state \<Rightarrow> recovery \<Rightarrow> display_state \<times> outage option" where
  "recover_finish d v = (case still_recovering d v of
       None \<Rightarrow> (d, None)
     | Some ou \<Rightarrow>
         ((if ou_automatic ou then d else restore_foreground (ou_foreground ou) d)\<lparr>dy_outage := None\<rparr>, Some ou))"

definition complete_display_fault ::
  "endpoint \<Rightarrow> string list \<Rightarrow> (string \<times> string) list \<Rightarrow> nat option \<Rightarrow> display_state \<Rightarrow> display_state \<times> display_fault option" where
  "complete_display_fault p restarted failures fault_id d = (case dy_fault d of
       None \<Rightarrow> (d, None)
     | Some fault \<Rightarrow>
         if \<not> df_recovering fault \<or> (case fault_id of Some i \<Rightarrow> df_id fault \<noteq> i | None \<Rightarrow> False) then (d, None)
         else
           let event = fault\<lparr>df_recovering := False, df_recovery_provider := Some (ep_key p), df_generation := Some (ep_generation p),
                 df_restarted := restarted, df_failures := failures\<rparr>
           in (d\<lparr>dy_fault := None\<rparr>, Some event))"

section \<open>The table of migrations\<close>

record migrations =
  mg_records :: "(nat, jobj) dict"
  mg_active :: "nat option"
  mg_tasks :: "nat list"

definition display_migration_status :: "nat option \<Rightarrow> migrations \<Rightarrow> jobj" where
  "display_migration_status migration_id m =
     (let active = (case mg_active m of Some i \<Rightarrow> JInt (int i) | None \<Rightarrow> JNull);
          selected = (case migration_id of Some i \<Rightarrow> Some i | None \<Rightarrow>
            (case mg_active m of Some i \<Rightarrow> Some i
             | None \<Rightarrow> if mg_records m = [] then None else Some (Max (set (dict_keys (mg_records m))))))
      in case Option.bind selected (map_of (mg_records m)) of
           None \<Rightarrow> [(''schema'', JStr ''msys.display-migration.v1''), (''phase'', JStr ''idle''), (''active'', active)]
         | Some record \<Rightarrow> AList.update ''active'' active record)"

definition prune_display_migrations :: "migrations \<Rightarrow> migrations" where
  "prune_display_migrations m =
     (let n = length (mg_records m) in
      if n \<le> 32 then m
      else
        let removable = filter (\<lambda>i. Some i \<noteq> mg_active m \<and> i \<notin> set (mg_tasks m)) (sort (dict_keys (mg_records m)))
        in m\<lparr>mg_records := filter (\<lambda>(i, _). i \<notin> set (take (n - 32) removable)) (mg_records m)\<rparr>)"

section \<open>The recovery order\<close>

lemma order_keys_set [simp]: "set (order_visual_consumer_keys profile stack keys) = set keys"
  by (auto simp: order_visual_consumer_keys_def Let_def)

lemma order_keys_distinct [simp]: "distinct (order_visual_consumer_keys profile stack keys)"
  by (simp add: order_visual_consumer_keys_def Let_def)

lemma dict_update_new_keys:
  "distinct ks \<Longrightarrow> set ks \<inter> set (dict_keys d) = {} \<Longrightarrow> dict_update d (map (\<lambda>k. (k, f k)) ks) = d @ map (\<lambda>k. (k, f k)) ks"
proof (induction ks arbitrary: d)
  case (Cons k ks)
  then have "AList.update k (f k) d = d @ [(k, f k)]" by (intro update_fresh) (auto simp: dict_has_iff)
  with Cons show ?case by (simp add: dict_update_def)
qed (simp add: dict_update_def)

section \<open>The fence in every interleaving\<close>

definition outage_wf :: "outage \<Rightarrow> bool" where
  "outage_wf ou \<longleftrightarrow> distinct (ou_consumers ou) \<and> distinct (ou_dropped ou) \<and>
     dict_keys (ou_failure_history ou) = ou_consumers ou \<and> dict_keys (ou_spawn_backoff ou) = ou_consumers ou \<and>
     ou_preexisting_quarantine ou \<subseteq> set (ou_consumers ou)"

lemma outage_wf_updates [simp]:
  "outage_wf (ou\<lparr>ou_recovery_allowed := a\<rparr>) = outage_wf ou" "outage_wf (ou\<lparr>ou_fault_id := f\<rparr>) = outage_wf ou"
  by (simp_all add: outage_wf_def)

lemma restore_budget_frame [simp]:
  "dy_outage (restore_outage_failure_budget ou key d) = dy_outage d"
  "dy_next_outage_id (restore_outage_failure_budget ou key d) = dy_next_outage_id d"
  by (simp_all add: restore_outage_failure_budget_def Let_def)

lemma new_outage_wf: "distinct ordered \<Longrightarrow> distinct dropped \<Longrightarrow> outage_wf (new_outage cutoff automatic d p ordered dropped)"
  by (auto simp: outage_wf_def new_outage_def o_def)

lemma extended_outage_wf:
  assumes "outage_wf ou" and "distinct ordered" and "distinct dropped"
  shows "outage_wf (extended_outage cutoff d p ordered dropped ou)"
proof -
  let ?fresh = "filter (\<lambda>key. key \<notin> set (ou_consumers ou)) ordered"
  have f: "distinct ?fresh" "set ?fresh \<inter> set (dict_keys (ou_failure_history ou)) = {}" "set ?fresh \<inter> set (dict_keys (ou_spawn_backoff ou)) = {}"
    using assms by (auto simp: outage_wf_def)
  note u = dict_update_new_keys [OF f(1,2)] dict_update_new_keys [OF f(1,3)]
  show ?thesis using assms unfolding outage_wf_def extended_outage_def Let_def outage.simps u
    by (auto simp: o_def)
qed

text \<open>What holds between the sections of the tasks.  \<open>fence\<close>: nobody but the awaited client is let through.\<close>

definition fence :: "recovery option \<Rightarrow> outage \<Rightarrow> bool" where
  "fence rv ou \<longleftrightarrow> ou_recovery_allowed ou \<subseteq>
     (case rv of Some v \<Rightarrow> if rv_outage v = ou_id ou then set_option (rv_current v) else {} | None \<Rightarrow> {})"

type_synonym display_run = "display_state \<times> recovery option"

definition display_inv :: "display_run \<Rightarrow> bool" where
  "display_inv r \<longleftrightarrow>
     (\<forall>ou. dy_outage (fst r) = Some ou \<longrightarrow> outage_wf ou \<and> fence (snd r) ou \<and> ou_id ou < dy_next_outage_id (fst r)) \<and>
     (\<forall>v. snd r = Some v \<longrightarrow> rv_outage v < dy_next_outage_id (fst r))"

text \<open>
  The steps of the supervisor: a planned or unplanned loss of the display at any moment, the sections
  of the recovery, the end of the outage by a completed migration, and everything that leaves the
  outage record alone.  The rollback of a failed migration, which puts back a copy of the record, is
  not among them.
\<close>

inductive display_step :: "display_run \<Rightarrow> display_run \<Rightarrow> bool" where
  planned: "begin_display_outage now False False d p = (d', ou) \<Longrightarrow> display_step (d, rv) (d', rv)"
| unplanned: "begin_unplanned_display_failure now reason d p = (d', ou) \<Longrightarrow> display_step (d, rv) (d', rv)"
| elsewhere: "dy_outage d' = dy_outage d \<Longrightarrow> dy_next_outage_id d' = dy_next_outage_id d \<Longrightarrow> display_step (d, rv) (d', rv)"
| settled: "display_step (d, rv) (d\<lparr>dy_outage := None\<rparr>, rv)"
| start: "recover_begin d key oid = Some v \<Longrightarrow> display_step (d, None) (d, Some v)"
| next_client: "rv_current v = None \<Longrightarrow> rv_todo v = key # rest \<Longrightarrow> recover_next d v key rest = (d', rv') \<Longrightarrow>
     display_step (d, Some v) (d', rv')"
| client_done: "rv_current v = Some key \<Longrightarrow> recover_done d v key outcome = (d', v') \<Longrightarrow> display_step (d, Some v) (d', Some v')"
| finish: "rv_current v = None \<Longrightarrow> rv_todo v = [] \<Longrightarrow> recover_finish d v = (d', ou) \<Longrightarrow> display_step (d, Some v) (d', None)"

inductive_cases display_stepE: "display_step r r'"

lemma begin_outage_cases:
  assumes "begin_display_outage now recover automatic d p = (d', ou)"
  obtains (nothing) "d' = d" "ou = None"
    | (fresh) cutoff d1 ordered dropped where "dy_outage d = None"
      "distinct ordered" "distinct dropped" "ou = Some (new_outage cutoff automatic d1 p ordered dropped)"
      "dy_next_outage_id d1 = dy_next_outage_id d" "dy_outage d' = ou" "dy_next_outage_id d' = dy_next_outage_id d + 1"
    | (extended) cutoff d1 ordered dropped old where "dy_outage d = Some old"
      "distinct ordered" "distinct dropped" "ou = Some (extended_outage cutoff d1 p ordered dropped old)"
      "dy_outage d' = ou" "dy_next_outage_id d' = dy_next_outage_id d"
proof (cases "dy_stopping d \<or> \<not> owns_active_display_output (dy_hub d) p")
  case True
  with assms have "d' = d" "ou = None" by (auto simp: begin_display_outage_def)
  then show thesis by (rule nothing)
next
  case False
  obtain ordered dropped where l: "outage_lists automatic d p = (ordered, dropped)" by fastforce
  then have dist: "distinct ordered" "distinct dropped" by (auto simp: outage_lists_def Let_def)
  let ?c = "failure_cutoff recover now"
  let ?d1 = "d\<lparr>dy_budget := lift_recent_quarantine ?c ordered (dy_budget d)\<rparr>"
  show thesis
  proof (cases "dy_outage d")
    case None
    show thesis by (rule fresh [OF None dist, of ?c ?d1]) (use assms False None in \<open>auto simp: begin_display_outage_def l Let_def\<close>)
  next
    case (Some old)
    show thesis by (rule extended [OF Some dist, of ?c ?d1]) (use assms False Some in \<open>auto simp: begin_display_outage_def l Let_def\<close>)
  qed
qed

lemma begin_outage_inv:
  assumes "display_inv (d, rv)" and "begin_display_outage now recover automatic d p = (d', ou)"
  shows "display_inv (d', rv)"
  using assms(2)
proof (cases rule: begin_outage_cases)
  case nothing
  with assms(1) show ?thesis by simp
next
  case (fresh cutoff d1 ordered dropped)
  let ?n = "new_outage cutoff automatic d1 p ordered dropped"
  have "outage_wf ?n" using fresh by (intro new_outage_wf) auto
  moreover have "fence rv ?n" by (simp add: fence_def new_outage_def)
  moreover have "ou_id ?n = dy_next_outage_id d" using fresh by (simp add: new_outage_def)
  ultimately show ?thesis using assms(1) fresh by (auto simp: display_inv_def)
next
  case (extended cutoff d1 ordered dropped old)
  let ?n = "extended_outage cutoff d1 p ordered dropped old"
  have "outage_wf old" using assms(1) extended by (simp add: display_inv_def)
  then have "outage_wf ?n" using extended by (intro extended_outage_wf) auto
  moreover have "fence rv ?n" "ou_id ?n = ou_id old" by (simp_all add: fence_def extended_outage_def Let_def)
  ultimately show ?thesis using assms(1) extended by (auto simp: display_inv_def)
qed

lemma begin_unplanned_inv:
  assumes "display_inv (d, rv)" and "begin_unplanned_display_failure now reason d p = (d', ou)"
  shows "display_inv (d', rv)"
proof -
  obtain d1 o1 where b: "begin_display_outage now True True d p = (d1, o1)" by fastforce
  note i = begin_outage_inv [OF assms(1) b]
  have o1: "dy_outage d1 = o1" if "o1 \<noteq> None" using b that by (cases rule: begin_outage_cases) simp_all
  show ?thesis
  proof (cases "d' = d \<or> d' = d1")
    case False
    then obtain ou1 where ou1: "o1 = Some ou1" "dy_outage d' = Some (ou1\<lparr>ou_fault_id := Some (dy_next_fault_id d1)\<rparr>)"
        "dy_next_outage_id d' = dy_next_outage_id d1"
      using assms(2) b by (cases o1) (auto simp: begin_unplanned_display_failure_def begin_display_fault_def Let_def split: if_split_asm)
    have "dy_outage d1 = Some ou1" using o1 ou1(1) by simp
    with i ou1 show ?thesis by (cases rv) (simp_all add: display_inv_def outage_wf_def fence_def)
  qed (use assms(1) i in blast)
qed

lemma recover_next_inv:
  assumes "display_inv (d, Some v)" and "rv_current v = None" and "recover_next d v key rest = (d', rv')"
  shows "display_inv (d', rv')"
proof (cases "still_recovering d v")
  case None
  with assms show ?thesis by (auto simp: recover_next_def display_inv_def fence_def split: if_split_asm)
next
  case (Some ou)
  then have ou: "dy_outage d = Some ou" "ou_id ou = rv_outage v" by (auto simp: still_recovering_def split: option.split_asm if_split_asm)
  with assms(1,2) have i: "outage_wf ou" "ou_recovery_allowed ou = {}" "ou_id ou < dy_next_outage_id d" "rv_outage v < dy_next_outage_id d"
    by (auto simp: display_inv_def fence_def)
  show ?thesis
    using assms(3) Some ou i
    by (auto simp: recover_next_def display_inv_def fence_def split: option.split_asm if_split_asm)
qed

lemma recover_done_inv:
  assumes "display_inv (d, Some v)" and "rv_current v = Some key" and "recover_done d v key outcome = (d', v')"
  shows "display_inv (d', Some v')"
proof -
  have v': "rv_outage v' = rv_outage v" "rv_current v' = None"
    using assms(3) by (auto simp: recover_done_def Let_def split: sum.split_asm if_split_asm)
  have n: "dy_next_outage_id d' = dy_next_outage_id d"
    using assms(3) by (auto simp: recover_done_def Let_def split: option.split_asm if_split_asm)
  show ?thesis
  proof (cases "dy_outage d")
    case None
    then have "d' = d" using assms(3) by (auto simp: recover_done_def Let_def)
    with None assms(1) v' show ?thesis by (simp add: display_inv_def)
  next
    case (Some ou)
    then have i: "outage_wf ou" "fence (Some v) ou" "ou_id ou < dy_next_outage_id d" "rv_outage v < dy_next_outage_id d"
      using assms(1) by (auto simp: display_inv_def)
    have "dy_outage d' = Some (if ou_id ou = rv_outage v then ou\<lparr>ou_recovery_allowed := ou_recovery_allowed ou - {key}\<rparr> else ou)"
      using assms(3) Some by (auto simp: recover_done_def Let_def)
    with i assms(2) v' n show ?thesis by (auto simp: display_inv_def fence_def split: if_split_asm)
  qed
qed

lemma recover_finish_inv:
  assumes "display_inv (d, Some v)" and "rv_current v = None" and "recover_finish d v = (d', ou)"
  shows "display_inv (d', None)"
proof (cases "still_recovering d v")
  case None
  with assms have "d' = d" by (simp add: recover_finish_def)
  with assms show ?thesis by (auto simp: display_inv_def fence_def split: if_split_asm)
next
  case (Some old)
  with assms(3) have "dy_outage d' = None" by (auto simp: recover_finish_def)
  then show ?thesis by (simp add: display_inv_def)
qed

interpretation display: invariant_system "\<lambda>r. dy_outage (fst r) = None \<and> snd r = None" display_step display_inv
proof unfold_locales
  fix r r'
  assume inv: "display_inv r" and "display_step r r'"
  from this(2) show "display_inv r'"
  proof cases
    case (planned now d p d' ou rv)
    then show ?thesis using inv begin_outage_inv by blast
  next
    case (unplanned now reason d p d' ou rv)
    then show ?thesis using inv begin_unplanned_inv by blast
  next
    case (elsewhere d' d rv)
    then show ?thesis using inv by (simp add: display_inv_def)
  next
    case (settled d rv)
    then show ?thesis using inv by (simp add: display_inv_def)
  next
    case (start d key oid v)
    then show ?thesis using inv
      by (auto simp: recover_begin_def display_inv_def fence_def split: option.split_asm if_split_asm)
  next
    case (next_client v key rest d d' rv')
    then show ?thesis using inv recover_next_inv by blast
  next
    case (client_done v key d outcome d' v')
    then show ?thesis using inv recover_done_inv by blast
  next
    case (finish v d d' ou)
    then show ?thesis using inv recover_finish_inv by blast
  qed
qed (simp add: display_inv_def)


section \<open>Clients during an outage\<close>


lemma outage_candidates_iff:
  assumes "dict_wf (dy_instances d)"
  shows "(key, e) \<in> set (outage_candidates d p) \<longleftrightarrow>
    map_of (dy_instances d) key = Some e \<and> key \<noteq> ep_key p \<and> inherits_visual_session (fw_component e) \<and> key \<notin> dy_stop_requests d"
  using assms by (auto simp: outage_candidates_def dict_wf_def)

lemma dict_get_or_map: "k \<in> set ks \<Longrightarrow> dict_get_or (map (\<lambda>k. (k, f k)) ks) k z = f k"
  by (simp add: dict_get_or_def map_of_map_restrict)

lemma lift_recent_quarantine_history [simp]: "rb_history (lift_recent_quarantine cutoff keys b) = rb_history b"
proof (cases cutoff)
  case (Some c)
  have "rb_history (fold (\<lambda>key b. if P key b then b\<lparr>rb_quarantined := Q key b, rb_quarantine_times := T key b\<rparr> else b) keys b) = rb_history b" for P Q T
    by (induction keys arbitrary: b) simp_all
  with Some show ?thesis by (simp add: lift_recent_quarantine_def)
qed (simp add: lift_recent_quarantine_def)

text \<open>The clients of a lost display, by whether they are system surfaces.\<close>

definition lost_clients :: "bool \<Rightarrow> display_state \<Rightarrow> endpoint \<Rightarrow> string set" where
  "lost_clients automatic d p =
     {key \<in> set (dict_keys (dy_instances d)). \<exists>e. map_of (dy_instances d) key = Some e \<and> key \<noteq> ep_key p \<and>
        inherits_visual_session (fw_component e) \<and> key \<notin> dy_stop_requests d \<and> is_automatic_visual_service (fw_component e) = automatic}"

lemma outage_lists_automatic:
  assumes "dict_wf (dy_instances d)" and "outage_lists True d p = (ordered, dropped)"
  shows "set ordered = lost_clients True d p" "set dropped = lost_clients False d p" "distinct ordered" "distinct dropped"
proof -
  have l: "ordered = order_visual_consumer_keys (dy_profile d) (fg_stack (dy_foreground d))
      (map fst (filter (\<lambda>(_, e). is_automatic_visual_service (fw_component e)) (outage_candidates d p)))"
    "dropped = order_visual_consumer_keys (dy_profile d) (fg_stack (dy_foreground d))
      (map fst (filter (\<lambda>(_, e). \<not> is_automatic_visual_service (fw_component e)) (outage_candidates d p)))"
    using assms(2) by (simp_all add: outage_lists_def Let_def)
  have dom: "key \<in> set (dict_keys (dy_instances d))" if "map_of (dy_instances d) key = Some e" for key e
    using that by (force dest: map_of_SomeD)
  show "distinct ordered" "distinct dropped" unfolding l by simp_all
  show "set ordered = lost_clients True d p" "set dropped = lost_clients False d p"
    unfolding l order_keys_set lost_clients_def using outage_candidates_iff [OF assms(1)] dom by (auto simp: image_iff Bex_def)
qed

text \<open>
  C15. An unexpected loss of the display: of the clients that run and are not being stopped, exactly the
  background and session services are kept for recovery, exactly the others are dropped for good and
  named in the fault that is opened; the failures of the last 15 seconds do not count against a service
  when it is started again, and from this moment no client of the display may start.
\<close>

theorem unplanned_loss_partition:
  assumes "dict_wf (dy_instances d)" and "dy_outage d = None"
    and "begin_unplanned_display_failure now reason d p = (d', Some ou)"
  shows "dy_outage d' = Some ou \<and> set (ou_consumers ou) = lost_clients True d p \<and> set (ou_dropped ou) = lost_clients False d p \<and>
    distinct (ou_consumers ou @ ou_dropped ou) \<and>
    (\<forall>key \<in> set (ou_consumers ou). dict_get_or (ou_failure_history ou) key [] =
       filter (\<lambda>t. t < now - 15) (dict_get_or (rb_history (dy_budget d)) key [])) \<and>
    (\<forall>c. display_outage_blocks d' c \<longleftrightarrow> inherits_visual_session c) \<and>
    (\<exists>fault. dy_fault d' = Some fault \<and> df_recovering fault \<and> ou_fault_id ou = Some (df_id fault) \<and>
       df_reason fault = reason \<and> df_dropped fault = ou_dropped ou)"
proof -
  obtain ordered dropped where l: "outage_lists True d p = (ordered, dropped)" by fastforce
  note parts = outage_lists_automatic [OF assms(1) l]
  let ?c = "failure_cutoff True now"
  let ?d1 = "d\<lparr>dy_budget := lift_recent_quarantine ?c ordered (dy_budget d)\<rparr>"
  let ?n = "new_outage ?c True ?d1 p ordered dropped"
  have "\<not> (dy_stopping d \<or> \<not> owns_active_display_output (dy_hub d) p)"
    using assms(3) by (auto simp: begin_unplanned_display_failure_def split: if_split_asm)
  then have b: "begin_display_outage now True True d p = (?d1\<lparr>dy_next_outage_id := dy_next_outage_id d + 1, dy_outage := Some ?n\<rparr>, Some ?n)"
    and r: "begin_unplanned_display_failure now reason d p = (case begin_display_outage now True True d p of
          (d1, None) \<Rightarrow> (d1, None)
        | (d1, Some ou) \<Rightarrow>
            (case begin_display_fault reason (ou_dropped ou) d1 p of
               (d2, fault) \<Rightarrow>
                 let ou' = ou\<lparr>ou_fault_id := Some (df_id fault)\<rparr> in (d2\<lparr>dy_outage := Some ou'\<rparr>, Some ou')))"
    using assms(2) by (simp_all add: begin_display_outage_def begin_unplanned_display_failure_def l Let_def)
  have e: "ou = ?n\<lparr>ou_fault_id := Some (dy_next_fault_id d)\<rparr>" "dy_outage d' = Some ou"
    and f: "\<exists>fault. dy_fault d' = Some fault \<and> df_recovering fault \<and> Some (dy_next_fault_id d) = Some (df_id fault) \<and>
       df_reason fault = reason \<and> df_dropped fault = ou_dropped ?n"
    using assms(3) unfolding r b by (auto simp: begin_display_fault_def Let_def)
  have ou: "ou_consumers ou = ordered" "ou_dropped ou = dropped" "ou_dropped ?n = dropped" "ou_recovery_allowed ou = {}"
    "ou_fault_id ou = Some (dy_next_fault_id d)"
    "ou_failure_history ou = map (\<lambda>key. (key, baseline_history ?c (dy_budget ?d1) key)) ordered"
    unfolding e(1) by (simp_all add: new_outage_def)
  have "lost_clients True d p \<inter> lost_clients False d p = {}" by (auto simp: lost_clients_def)
  moreover have "\<forall>key \<in> set ordered. dict_get_or (ou_failure_history ou) key [] =
       filter (\<lambda>t. t < now - 15) (dict_get_or (rb_history (dy_budget d)) key [])"
    unfolding ou by (simp add: dict_get_or_map baseline_history_def failure_cutoff_def DISPLAY_FAILURE_QUARANTINE_GRACE_SECONDS_def)
  moreover have "\<forall>c. display_outage_blocks d' c \<longleftrightarrow> inherits_visual_session c" by (simp add: display_outage_blocks_def e(2) ou(4))
  ultimately show ?thesis using e(2) f parts by (simp add: ou)
qed

section \<open>A lost and then restarted display\<close>

text \<open>A display, a service on it and an application on it.\<close>

definition demo_part :: "string \<Rightarrow> string \<Rightarrow> provide list \<Rightarrow> jobj \<Rightarrow> component" where
  "demo_part cid lifecycle provides windowing =
     \<lparr>c_package_id = ''v'', c_package_version = ''0'', c_package_kind = ''app'', c_package_name = ''v'', c_package_summary = [],
      c_package_i18n = JObj [], c_package_icons = [], c_id = cid, c_exec = [cid], c_lifecycle = lifecycle, c_runtime = ''native'',
      c_restart = ''never'', c_idle_timeout_ms = None, c_cwd = None, c_env = [], c_readiness_mode = ''process'',
      c_readiness_timeout_ms = 1000, c_provides = provides, c_requires = [], c_wants = [], c_after = [],
      c_windowing = windowing, c_activation = [], c_permissions = [], c_isolation = IsolationSpec, c_raw = [], c_manifest_path = None\<rparr>"

definition demo_visuals :: catalog where
  "demo_visuals =
     (let inherit = [(''system'', JStr ''x11''), (''display'', JStr ''inherit'')] in
      [(''v:x'', demo_part ''x'' ''background'' [\<lparr>pv_kind = ''role'', pv_name = ''display-output'', pv_exclusive = True, pv_priority = 0\<rparr>] []),
       (''v:shell'', demo_part ''shell'' ''session'' [] inherit),
       (''v:app'', demo_part ''app'' ''manual'' [] inherit)])"

definition demo_visual :: "string \<Rightarrow> nat \<Rightarrow> endpoint" where
  "demo_visual key oid = \<lparr>fw_component = the (map_of demo_visuals key), fw_sock = True, fw_ready = True, fw_finalized = False,
     fw_registered = True, fw_stopping = False, fw_stop_requested = False, fw_in_flight_calls = 0,
     fw_idle_task = None, fw_next_task = 0, fw_done_tasks = {}, fw_pending_calls = [], fw_outstanding = [],
     fw_next_request_id = 1, ep_oid = oid, ep_generation = 1, ep_state = ''ready'', ep_current = True,
     ep_pid = Some 40, ep_subscriptions = []\<rparr>"

definition demo_session :: display_state where
  "demo_session = \<lparr>dy_hub = \<lparr>hb_components = demo_visuals,
       hb_instances = [(''v:x'', demo_visual ''v:x'' 1), (''v:shell'', demo_visual ''v:shell'' 2), (''v:app'', demo_visual ''v:app'' 3)],
       hb_registry = snd (projr (acquire DISPLAY_OUTPUT_ROLE (Some ''v:x'') (Some ''generation:1'') (projr (RoleRegistry demo_visuals [] [])))),
       hb_display_outage = False, hb_runtime_dir = ''/run''\<rparr>,
     dy_profile = [], dy_foreground = \<lparr>fg_stack = [''v:app''], fg_backgrounded = {}\<rparr>,
     dy_budget = \<lparr>rb_history = [], rb_quarantined = {}, rb_quarantine_times = []\<rparr>, dy_spawn_backoff = [],
     dy_stop_requests = {}, dy_stopping = False, dy_outage = None, dy_next_outage_id = 1, dy_fault = None, dy_next_fault_id = 1\<rparr>"

definition demo_lost :: "display_state \<times> outage option" where
  "demo_lost = begin_unplanned_display_failure 100 ''process-exit'' demo_session (demo_visual ''v:x'' 1)"

text \<open>The display runs again, as a new instance, before the application has been stopped.\<close>

definition demo_again :: display_state where
  "demo_again = (fst demo_lost)\<lparr>dy_hub := (dy_hub (fst demo_lost))\<lparr>hb_instances :=
     AList.update ''v:x'' (demo_visual ''v:x'' 4) (dy_instances (fst demo_lost))\<rparr>\<rparr>"

lemma demo_session_facts:
  "dict_keys (dy_instances demo_session) = [''v:x'', ''v:shell'', ''v:app'']"
  "dy_outage demo_session = None"
  by code_simp+

lemma demo_lost_facts:
  "map_option ou_consumers (snd demo_lost) = Some [''v:shell'']" "map_option ou_dropped (snd demo_lost) = Some [''v:app'']"
  "map_option ou_automatic (snd demo_lost) = Some True"
  by code_simp+

lemma is_SomeE: "x \<noteq> None \<Longrightarrow> x = Some (the x)"
  by auto

definition demo_recovery :: recovery where
  "demo_recovery = the (recover_begin demo_again ''v:x'' 4)"

definition demo_awaits :: "display_state \<times> recovery option" where
  "demo_awaits = recover_next demo_again demo_recovery ''v:shell'' []"

lemma demo_recovery_facts:
  "recover_begin demo_again ''v:x'' 4 \<noteq> None" "rv_current demo_recovery = None" "rv_todo demo_recovery = [''v:shell'']"
  "map_option ou_id (dy_outage (fst demo_awaits)) = Some 1" "\<not> display_outage_blocks (fst demo_awaits) (the (map_of demo_visuals ''v:shell''))"
  "display_outage_blocks (fst demo_awaits) (the (map_of demo_visuals ''v:app''))"
  "inherits_visual_session (the (map_of demo_visuals ''v:shell''))" "component_key (the (map_of demo_visuals ''v:shell'')) = ''v:shell''"
  by code_simp+

lemma demo_awaits_reached: "display_step\<^sup>*\<^sup>* (demo_session, None) demo_awaits"
proof -
  have "display_step (demo_session, None) (fst demo_lost, None)"
    by (rule display_step.unplanned [where p = "demo_visual ''v:x'' 1" and now = 100 and reason = "''process-exit''" and ou = "snd demo_lost"])
      (simp add: demo_lost_def)
  moreover have "display_step (fst demo_lost, None) (demo_again, None)"
    by (rule display_step.elsewhere) (simp_all add: demo_again_def)
  moreover have "display_step (demo_again, None) (demo_again, Some demo_recovery)"
    by (rule display_step.start) (use is_SomeE [OF demo_recovery_facts(1)] in \<open>simp add: demo_recovery_def\<close>)
  moreover have "display_step (demo_again, Some demo_recovery) (fst demo_awaits, snd demo_awaits)"
    by (rule display_step.next_client [OF demo_recovery_facts(2,3)]) (simp add: demo_awaits_def)
  ultimately show ?thesis by (simp add: converse_rtranclp_into_rtranclp)
qed


theorem unplanned_loss_partition_witness:
  "lost_clients True demo_session (demo_visual ''v:x'' 1) = {''v:shell''} \<and>
   lost_clients False demo_session (demo_visual ''v:x'' 1) = {''v:app''}"
proof -
  obtain ou where ou: "snd demo_lost = Some ou" "ou_consumers ou = [''v:shell'']" "ou_dropped ou = [''v:app'']"
    using demo_lost_facts(1,2) by auto
  then have "begin_unplanned_display_failure 100 ''process-exit'' demo_session (demo_visual ''v:x'' 1) = (fst demo_lost, Some ou)"
    by (metis demo_lost_def prod.collapse)
  from unplanned_loss_partition [OF _ demo_session_facts(2) this] ou(2,3) show ?thesis
    by (simp add: dict_wf_def demo_session_facts(1))
qed

section \<open>A restart that reopens an application\<close>

text \<open>Only the application runs on the display.\<close>

definition demo_alone :: display_state where
  "demo_alone = demo_session\<lparr>dy_hub := (dy_hub demo_session)\<lparr>hb_instances :=
     [(''v:x'', demo_visual ''v:x'' 1), (''v:app'', demo_visual ''v:app'' 3)]\<rparr>\<rparr>"

text \<open>The display runs again, as a new instance, before the application has been stopped.\<close>

definition demo_hub_again :: hub where
  "demo_hub_again = (dy_hub demo_alone)\<lparr>hb_instances := AList.update ''v:x'' (demo_visual ''v:x'' 4) (dy_instances demo_alone)\<rparr>"

lemma demo_alone_facts:
  "\<not> dy_stopping demo_alone" "dy_outage demo_alone = None" "owns_active_display_output (dy_hub demo_alone) (demo_visual ''v:x'' 1)"
  "outage_lists True demo_alone (demo_visual ''v:x'' 1) = ([], [''v:app''])"
  "map_of (dy_instances demo_alone) ''v:app'' = Some (demo_visual ''v:app'' 3)"
  "rb_quarantined (dy_budget demo_alone) = {}" "\<not> is_automatic_visual_service (fw_component (demo_visual ''v:app'' 3))"
  "inherits_visual_session (fw_component (demo_visual ''v:app'' 3))"
  by code_simp+

lemma demo_again_facts:
  "owns_active_display_output demo_hub_again (demo_visual ''v:x'' 4)" "ep_key (demo_visual ''v:x'' 4) = ''v:x''"
  "outage_lists False (demo_alone\<lparr>dy_hub := demo_hub_again\<rparr>) (demo_visual ''v:x'' 4) = ([''v:app''], [])"
  "map_of (hb_instances demo_hub_again) ''v:x'' = Some (demo_visual ''v:x'' 4)" "ep_oid (demo_visual ''v:x'' 4) = 4" "fw_ready (demo_visual ''v:x'' 4)"
  "map_of (hb_components demo_hub_again) ''v:app'' = Some (fw_component (demo_visual ''v:app'' 3))"
  by code_simp+

lemma outage_lists_cong:
  "dy_hub d = dy_hub d' \<Longrightarrow> dy_profile d = dy_profile d' \<Longrightarrow> dy_foreground d = dy_foreground d' \<Longrightarrow> dy_stop_requests d = dy_stop_requests d' \<Longrightarrow>
    outage_lists automatic d p = outage_lists automatic d' p"
  by (simp add: outage_lists_def outage_candidates_def)

text \<open>
  C37. A planned restart of the display during the recovery from an unexpected loss brings back an
  application that the loss had dropped: the record still says that only system services are
  recovered, but the key is among its consumers, and the recovery starts the application.
\<close>

theorem restart_reopens_application:
  "\<exists>d p d1 ou1 hub' p' d2 ou2 v d3 v' key e.
     map_of (dy_instances d) key = Some e \<and> \<not> is_automatic_visual_service (fw_component e) \<and>
     begin_unplanned_display_failure 100 ''process-exit'' d p = (d1, Some ou1) \<and> key \<in> set (ou_dropped ou1) \<and>
     hub' = (dy_hub d1)\<lparr>hb_instances := AList.update (ep_key p') p' (dy_instances d1)\<rparr> \<and>
     begin_display_outage 101 False False (d1\<lparr>dy_hub := hub'\<rparr>) p' = (d2, Some ou2) \<and> ou_automatic ou2 \<and>
     recover_begin d2 (ep_key p') (ep_oid p') = Some v \<and> rv_todo v = [key] \<and>
     recover_next d2 v key [] = (d3, Some v') \<and> rv_current v' = Some key"
proof -
  let ?p = "demo_visual ''v:x'' 1" and ?p' = "demo_visual ''v:x'' 4" and ?e = "demo_visual ''v:app'' 3"
  obtain d1 ou1 where d1: "begin_unplanned_display_failure 100 ''process-exit'' demo_alone ?p = (d1, Some ou1)"
      "ou_dropped ou1 = [''v:app'']" "ou_consumers ou1 = []" "ou_automatic ou1" "ou_preexisting_quarantine ou1 = {}"
      "dy_outage d1 = Some ou1" "dy_hub d1 = dy_hub demo_alone" "dy_profile d1 = dy_profile demo_alone"
      "dy_foreground d1 = dy_foreground demo_alone" "dy_stop_requests d1 = dy_stop_requests demo_alone"
      "\<not> dy_stopping d1" "rb_quarantined (dy_budget d1) = {}"
    using demo_alone_facts by (simp add: begin_unplanned_display_failure_def begin_display_outage_def begin_display_fault_def
        new_outage_def lift_recent_quarantine_def Let_def failure_cutoff_def)
  have h: "(dy_hub d1)\<lparr>hb_instances := AList.update (ep_key ?p') ?p' (dy_instances d1)\<rparr> = demo_hub_again"
    unfolding demo_again_facts(2) d1(7) demo_hub_again_def by (rule refl)
  have "outage_lists False (d1\<lparr>dy_hub := demo_hub_again\<rparr>) ?p' = outage_lists False (demo_alone\<lparr>dy_hub := demo_hub_again\<rparr>) ?p'"
    by (rule outage_lists_cong) (simp_all add: d1)
  then obtain d2 ou2 where d2: "begin_display_outage 101 False False (d1\<lparr>dy_hub := demo_hub_again\<rparr>) ?p' = (d2, Some ou2)"
      "ou_automatic ou2" "ou_consumers ou2 = [''v:app'']" "ou_preexisting_quarantine ou2 = {}"
      "dy_outage d2 = Some ou2" "dy_hub d2 = demo_hub_again" "rb_quarantined (dy_budget d2) = {}"
    using d1 demo_again_facts by (simp add: begin_display_outage_def extended_outage_def lift_recent_quarantine_def Let_def failure_cutoff_def)
  have o: "owns_display d2 ''v:x'' 4" using demo_again_facts by (simp add: owns_display_def d2)
  then obtain v where v: "recover_begin d2 ''v:x'' 4 = Some v" "rv_todo v = [''v:app'']" "rv_key v = ''v:x''" "rv_oid v = 4"
      "rv_outage v = ou_id ou2" "rv_revision v = ou_revision ou2"
    using demo_again_facts d2 by (simp add: recover_begin_def)
  have "still_recovering d2 v = Some ou2" using o v d2 by (simp add: still_recovering_def)
  then obtain d3 v' where n: "recover_next d2 v ''v:app'' [] = (d3, Some v')" "rv_current v' = Some ''v:app''"
    using demo_again_facts(7) demo_alone_facts(8) d2 by (simp add: recover_next_def)
  show ?thesis
    by (rule exI [of _ demo_alone], rule exI [of _ ?p], rule exI [of _ d1], rule exI [of _ ou1], rule exI [of _ demo_hub_again],
        rule exI [of _ ?p'], rule exI [of _ d2], rule exI [of _ ou2], rule exI [of _ v], rule exI [of _ d3], rule exI [of _ v'],
        rule exI [of _ "''v:app''"], rule exI [of _ ?e])
      (use demo_alone_facts(5,7) d1(1,2) h d2(1,2) v(1,2) n demo_again_facts(2,5) in simp)
qed

end
