(* ===== verification/Component_Lifecycle.thy ===== *)
theory Component_Lifecycle
  imports Catalog_Reload
begin

text \<open>
  The life of a supervised instance (methods of \<open>Msysd\<close> in \<open>msys_core/msysd.py\<close>): the decision to start a
  component and the registration of the new instance (\<open>_ensure_started_locked\<close>), the announcement that it
  is ready (\<open>ensure_ready\<close>), the loss of its channel (\<open>_read_component\<close>), the end of its process
  (\<open>_finalize_exited_instance\<close>, \<open>_restart_later\<close>) and its stop (\<open>stop_component\<close>).

  Each operation is the code between two \<open>await\<close>s; the interleavings of these sections are the runs of
  \<open>lifecycle_step\<close>.  An instance is named by its key and its identity, and \<open>held\<close> is the test that the table
  still holds this very instance.

  The lemmas show which instances can hold a lease, that the loss of the display is noticed once, and
  two races: a lease taken by an instance that is ending, and a client started into an outage.
\<close>

section \<open>Starting a component\<close>

definition held :: "core_runtime \<Rightarrow> string \<Rightarrow> nat \<Rightarrow> endpoint option" where
  "held s key oid = (case map_of (co_instances s) key of
       Some e \<Rightarrow> if ep_oid e = oid then Some e else None | None \<Rightarrow> None)"

definition with_display :: "(display_state \<Rightarrow> display_state) \<Rightarrow> core_runtime \<Rightarrow> core_runtime" where
  "with_display f s = s\<lparr>co_display := f (co_display s)\<rparr>"

definition with_hub :: "(hub \<Rightarrow> hub) \<Rightarrow> core_runtime \<Rightarrow> core_runtime" where
  "with_hub f = with_display (\<lambda>d. d\<lparr>dy_hub := f (dy_hub d)\<rparr>)"

definition put_instance :: "string \<Rightarrow> endpoint \<Rightarrow> core_runtime \<Rightarrow> core_runtime" where
  "put_instance key e = with_hub (\<lambda>h. h\<lparr>hb_instances := AList.update key e (hb_instances h)\<rparr>)"

datatype admission = Refused string | Reused endpoint | Admitted component

definition is_live :: "(nat \<Rightarrow> bool) \<Rightarrow> core_runtime \<Rightarrow> string \<Rightarrow> endpoint \<Rightarrow> bool" where
  "is_live alive s key e \<longleftrightarrow>
     ep_current e \<and> ep_generation e = dict_get_or (co_generations s) key (ep_generation e) \<and>
     fw_ready e \<and> ep_state e = ''ready'' \<and> \<not> fw_finalized e \<and> alive (ep_oid e)"

text \<open>The checks before the first \<open>await\<close>.\<close>

definition start_admission :: "(nat \<Rightarrow> bool) \<Rightarrow> core_runtime \<Rightarrow> string \<Rightarrow> admission" where
  "start_admission alive s key =
     (if dy_stopping (co_display s) \<or> key \<in> dy_stop_requests (co_display s) then Refused (''component start cancelled: '' @ key)
      else (case map_of (co_components s) key of
          None \<Rightarrow> Refused (''unknown component '' @ key)
        | Some c \<Rightarrow>
            if key \<in> rb_quarantined (dy_budget (co_display s)) then Refused (''component is quarantined: '' @ key)
            else (case map_of (co_instances s) key of
                Some e \<Rightarrow> if is_live alive s key e then Reused e
                  else if display_outage_blocks (co_display s) c
                    then Refused (''display-output is unavailable; component start deferred: '' @ key) else Admitted c
              | None \<Rightarrow> if display_outage_blocks (co_display s) c
                    then Refused (''display-output is unavailable; component start deferred: '' @ key) else Admitted c)))"

definition spawn_remaining :: "rat \<Rightarrow> core_runtime \<Rightarrow> string \<Rightarrow> rat" where
  "spawn_remaining now s key = dict_get_or (dy_spawn_backoff (co_display s)) key 0 - now"

text \<open>What the start does about an instance that is already there.\<close>

datatype start_existing = UseExisting endpoint | StopExisting | FinalizeExisting endpoint | NoExisting

definition examine_existing :: "(nat \<Rightarrow> bool) \<Rightarrow> core_runtime \<Rightarrow> string \<Rightarrow> start_existing" where
  "examine_existing alive s key = (case map_of (co_instances s) key of
       None \<Rightarrow> NoExisting
     | Some e \<Rightarrow>
         if alive (ep_oid e) then (if ep_current e then UseExisting e else StopExisting)
         else if \<not> fw_finalized e then FinalizeExisting e else NoExisting)"

datatype spawn_decision = StartAgain | StartCancelled | Spawn int

text \<open>
  The checks after the dependencies are up; \<open>unchanged\<close>: the catalog still holds the component object that
  was admitted.
\<close>

definition begin_spawn :: "bool \<Rightarrow> string \<Rightarrow> core_runtime \<Rightarrow> core_runtime \<times> spawn_decision" where
  "begin_spawn unchanged key s =
     (if \<not> unchanged then (s, StartAgain)
      else if dy_stopping (co_display s) \<or> key \<in> dy_stop_requests (co_display s) then (s, StartCancelled)
      else let generation = dict_get_or (co_generations s) key 0 + 1
           in (s\<lparr>co_generations := AList.update key generation (co_generations s)\<rparr>, Spawn generation))"

definition new_instance :: "component \<Rightarrow> int \<Rightarrow> nat \<Rightarrow> int \<Rightarrow> endpoint" where
  "new_instance c generation oid pid =
     \<lparr>fw_component = c, fw_sock = True, fw_ready = (c_readiness_mode c = ''exec''), fw_finalized = False,
      fw_registered = True, fw_stopping = False, fw_stop_requested = False, fw_in_flight_calls = 0,
      fw_idle_task = None, fw_next_task = 0, fw_done_tasks = {}, fw_pending_calls = [], fw_outstanding = [],
      fw_next_request_id = 1, ep_oid = oid, ep_generation = generation,
      ep_state = (if c_readiness_mode c \<noteq> ''exec'' then ''handshaking'' else ''ready''),
      ep_current = True, ep_pid = Some pid, ep_subscriptions = []\<rparr>"

definition became_ready :: "string \<Rightarrow> endpoint \<Rightarrow> core_runtime \<Rightarrow> core_runtime" where
  "became_ready key e s =
     (case component_became_ready ((co_hub s)\<lparr>hb_display_outage := dy_outage (co_display s) \<noteq> None\<rparr>) e of
        Inr (h, e', _) \<Rightarrow> put_instance key e' (with_hub (\<lambda>_. h) s)
      | Inl _ \<Rightarrow> s)"

definition register_instance :: "string \<Rightarrow> endpoint \<Rightarrow> core_runtime \<Rightarrow> core_runtime" where
  "register_instance key e s =
     (let s1 = with_display (\<lambda>d. d\<lparr>dy_spawn_backoff := AList.delete key (dy_spawn_backoff d),
                  dy_foreground := (if is_foreground_app (fw_component e) then mark_foreground key (dy_foreground d) else dy_foreground d)\<rparr>)
                (put_instance key e s)
      in if fw_ready e then became_ready key e s1 else s1)"

definition spawn_failed :: "rat \<Rightarrow> component \<Rightarrow> core_runtime \<Rightarrow> core_runtime" where
  "spawn_failed now c s =
     (let key = component_key c;
          blocked = (case map_of (co_components s) key of Some c' \<Rightarrow> display_outage_blocks (co_display s) c' | None \<Rightarrow> False)
      in case record_component_failure blocked key now (dy_budget (co_display s)) of
           (b, None) \<Rightarrow> with_display (\<lambda>d. d\<lparr>dy_budget := b\<rparr>) s
         | (b, Some delay) \<Rightarrow>
             let s1 = with_display (\<lambda>d. d\<lparr>dy_budget := b, dy_spawn_backoff := AList.update key (now + delay) (dy_spawn_backoff d)\<rparr>) s
             in if component_should_restart c 1 \<and> \<not> blocked \<and> key \<notin> set (co_retries s) then s1\<lparr>co_retries := co_retries s @ [key]\<rparr> else s1)"

text \<open>A retry after its delay: whether it goes on to \<open>ensure_ready\<close>.\<close>

definition retry_proceeds :: "string \<Rightarrow> core_runtime \<Rightarrow> bool" where
  "retry_proceeds key s \<longleftrightarrow> \<not> (dy_stopping (co_display s) \<or> key \<in> dy_stop_requests (co_display s) \<or>
     key \<in> rb_quarantined (dy_budget (co_display s)) \<or>
     (case map_of (co_components s) key of Some c \<Rightarrow> display_outage_blocks (co_display s) c | None \<Rightarrow> False))"

section \<open>Readiness\<close>

text \<open>The instance reports that it is ready, or its readiness probe does.\<close>

definition report_ready :: "string \<Rightarrow> nat \<Rightarrow> core_runtime \<Rightarrow> core_runtime" where
  "report_ready key oid s = (case held s key oid of
       Some e \<Rightarrow> became_ready key (e\<lparr>fw_ready := True, ep_state := ''ready''\<rparr>) s | None \<Rightarrow> s)"

text \<open>A caller of \<open>ensure_ready\<close> finds the instance ready.\<close>

definition announce_ready :: "string \<Rightarrow> nat \<Rightarrow> core_runtime \<Rightarrow> core_runtime" where
  "announce_ready key oid s = (case held s key oid of
       Some e \<Rightarrow> if fw_ready e then became_ready key e s else s | None \<Rightarrow> s)"

section \<open>Losing an instance\<close>

definition release_leases :: "string \<Rightarrow> core_runtime \<Rightarrow> core_runtime" where
  "release_leases key = with_hub (\<lambda>h. case release_provider key (hb_registry h) of
       Inr (_, rg) \<Rightarrow> h\<lparr>hb_registry := rg\<rparr> | Inl _ \<Rightarrow> h)"

text \<open>The process has ended: the section before the tasks of the instance are awaited, and the one after.\<close>

definition exit_begin :: "rat \<Rightarrow> string \<Rightarrow> nat \<Rightarrow> core_runtime \<Rightarrow> core_runtime \<times> outage option option" where
  "exit_begin now key oid s = (case held s key oid of
       None \<Rightarrow> (s, None)
     | Some e \<Rightarrow>
         if fw_finalized e then (s, None)
         else (case begin_unplanned_display_failure now ''unexpected-provider-exit'' (co_display s) e of
             (d, ou) \<Rightarrow> (release_leases key (put_instance key (e\<lparr>fw_finalized := True\<rparr>) (s\<lparr>co_display := d\<rparr>)), Some ou)))"

definition exit_end :: "int \<Rightarrow> string \<Rightarrow> nat \<Rightarrow> core_runtime \<Rightarrow> core_runtime" where
  "exit_end rc key oid s = with_display (\<lambda>d. d\<lparr>dy_foreground := forget_foreground key (dy_foreground d)\<rparr>)
     (case held s key oid of
        None \<Rightarrow> s
      | Some e \<Rightarrow> put_instance key
          ((fst (close_instance_channel ''PROVIDER_EXITED'' e))\<lparr>ep_state := (if rc = 0 then ''exited'' else ''failed''), fw_ready := False\<rparr>) s)"

definition channel_failed :: "rat \<Rightarrow> string \<Rightarrow> nat \<Rightarrow> core_runtime \<Rightarrow> core_runtime \<times> outage option" where
  "channel_failed now key oid s = (case held s key oid of
       None \<Rightarrow> (s, None)
     | Some e \<Rightarrow>
         if c_readiness_mode (fw_component e) \<noteq> ''mipc-ready'' \<or> fw_finalized e then (s, None)
         else (case begin_unplanned_display_failure now ''unexpected-provider-channel-failure'' (co_display s) e of
             (d, ou) \<Rightarrow>
               (release_leases key (put_instance key
                  (fst (close_instance_channel ''PROVIDER_CHANNEL_FAILED'' (e\<lparr>fw_ready := False, ep_state := ''channel-failed''\<rparr>))) (s\<lparr>co_display := d\<rparr>)), ou)))"

text \<open>After the end of a process that is to be restarted: the state, and the delay before the next start.\<close>

definition restart_later :: "rat \<Rightarrow> string \<Rightarrow> nat \<Rightarrow> core_runtime \<Rightarrow> core_runtime \<times> rat option" where
  "restart_later now key oid s = (case held s key oid of
       None \<Rightarrow> (s, None)
     | Some e \<Rightarrow>
         if display_outage_blocks (co_display s) (fw_component e) then (put_instance key (e\<lparr>ep_state := ''display-wait''\<rparr>) s, None)
         else
           let blocked = (case map_of (co_components s) key of Some c \<Rightarrow> display_outage_blocks (co_display s) c | None \<Rightarrow> False)
           in case record_component_failure blocked key now (dy_budget (co_display s)) of
                (b, delay) \<Rightarrow>
                  (put_instance key (e\<lparr>ep_state := (case delay of Some _ \<Rightarrow> ''backoff''
                       | None \<Rightarrow> if key \<in> rb_quarantined b then ''quarantined'' else ''display-wait'')\<rparr>)
                     (with_display (\<lambda>d. d\<lparr>dy_budget := b\<rparr>) s), delay))"

section \<open>Stopping\<close>

text \<open>\<open>expected\<close>: the caller means one instance only.\<close>

definition stop_begin :: "rat \<Rightarrow> string \<Rightarrow> nat option \<Rightarrow> core_runtime \<Rightarrow> core_runtime \<times> outage option" where
  "stop_begin now key expected s =
     (case (case map_of (co_instances s) key of
              Some e \<Rightarrow> if expected = None \<or> expected = Some (ep_oid e)
                then begin_display_outage now False False (co_display s) e else (co_display s, None)
            | None \<Rightarrow> (co_display s, None)) of
        (d, ou) \<Rightarrow> (s\<lparr>co_display := d\<lparr>dy_stop_requests := insert key (dy_stop_requests d)\<rparr>,
                       co_retries := filter (\<lambda>k. k \<noteq> key) (co_retries s)\<rparr>, ou))"

text \<open>Under the start lock the instance leaves the table; its leases go after the closing transition.\<close>

definition stop_take :: "string \<Rightarrow> nat option \<Rightarrow> core_runtime \<Rightarrow> core_runtime \<times> endpoint option" where
  "stop_take key expected s = (case map_of (co_instances s) key of
       Some e \<Rightarrow> if expected = None \<or> expected = Some (ep_oid e)
         then (with_hub (\<lambda>h. h\<lparr>hb_instances := AList.delete key (hb_instances h)\<rparr>) s, Some (e\<lparr>fw_registered := False\<rparr>)) else (s, None)
     | None \<Rightarrow> (s, None))"

definition stop_release :: "string \<Rightarrow> endpoint \<Rightarrow> core_runtime \<Rightarrow> core_runtime \<times> endpoint" where
  "stop_release key e s = (release_leases key s, e\<lparr>fw_finalized := True\<rparr>)"

definition stop_end :: "string \<Rightarrow> endpoint \<Rightarrow> core_runtime \<Rightarrow> core_runtime \<times> endpoint" where
  "stop_end key e s =
     (with_display (\<lambda>d. d\<lparr>dy_foreground := forget_foreground key (dy_foreground d)\<rparr>) s,
      (fst (close_instance_channel ''PROVIDER_STOPPED'' e))\<lparr>fw_ready := False\<rparr>)"

definition stop_finally :: "string \<Rightarrow> core_runtime \<Rightarrow> core_runtime" where
  "stop_finally key = with_display (\<lambda>d. d\<lparr>dy_stop_requests := dy_stop_requests d - {key}\<rparr>)"

section \<open>Who can hold a lease\<close>

lemma lifecycle_frame [simp]:
  "co_registry (with_hub f s) = hb_registry (f (co_hub s))" "co_instances (with_hub f s) = hb_instances (f (co_hub s))"
  "co_display (with_display g s) = g (co_display s)"
  "co_instances (put_instance key e s) = AList.update key e (co_instances s)" "co_registry (put_instance key e s) = co_registry s"
  "co_instances (release_leases key s) = co_instances s"
  by (auto simp: with_hub_def with_display_def put_instance_def release_leases_def split: sum.split prod.split)

lemma begin_unplanned_hub: "begin_unplanned_display_failure now reason d p = (d', ou) \<Longrightarrow> dy_hub d' = dy_hub d"
proof -
  have b: "dy_hub d1 = dy_hub d" if "begin_display_outage now r a d p = (d1, o1)" for r a d1 o1
    using that by (auto simp: begin_display_outage_def Let_def split: if_split_asm option.split_asm prod.split_asm)
  assume "begin_unplanned_display_failure now reason d p = (d', ou)"
  then show ?thesis using b
    by (auto simp: begin_unplanned_display_failure_def begin_display_fault_def Let_def split: if_split_asm option.split_asm prod.split_asm)
qed

text \<open>
  Every instance is filed under its key, and every lease belongs to a provider whose instance is ready
  and has not begun to end, or to one of the providers in \<open>leaving\<close>, which are being stopped.
\<close>

definition leases_held :: "role_registry \<Rightarrow> (string, endpoint) dict \<Rightarrow> string set \<Rightarrow> bool" where
  "leases_held rg instances leaving \<longleftrightarrow> rg_inv rg \<and> (\<forall>key e. map_of instances key = Some e \<longrightarrow> ep_key e = key) \<and>
     (\<forall>l \<in> set (lease_table_of rg). ls_provider_id l \<in> leaving \<or>
        (\<exists>e. map_of instances (ls_provider_id l) = Some e \<and> fw_ready e \<and> \<not> fw_finalized e))"

lemma leases_heldD:
  assumes "leases_held rg instances leaving"
  shows "rg_inv rg" "map_of instances key = Some e \<Longrightarrow> ep_key e = key"
  using assms by (simp_all add: leases_held_def)

lemma leases_held_update:
  assumes "leases_held rg instances leaving" and "ep_key e = key"
    and "(fw_ready e \<and> \<not> fw_finalized e) \<or> (\<forall>old. map_of instances key = Some old \<longrightarrow> \<not> fw_ready old \<or> fw_finalized old)"
  shows "leases_held rg (AList.update key e instances) leaving"
  using assms unfolding leases_held_def by (auto simp: update_conv' split: if_split_asm)

lemma leases_held_release:
  assumes "leases_held rg instances leaving" and "co_registry s = rg"
  shows "ep_key e = key \<Longrightarrow> leases_held (co_registry (release_leases key s)) (AList.update key e instances) (leaving - {key})"
    and "leases_held (co_registry (release_leases key s)) instances (leaving - {key})"
proof -
  obtain rg' where r: "release_provider key rg = Inr (filter (\<lambda>l. ls_provider_id l = key) (lease_table_of rg), rg')" "rg_inv rg'"
    "lease_table_of rg' = filter (\<lambda>l. ls_provider_id l \<noteq> key) (lease_table_of rg)"
    using release_provider_total [OF leases_heldD(1) [OF assms(1)]] by blast
  have "co_registry (release_leases key s) = rg'" using r(1) assms(2) by (simp add: release_leases_def)
  then show "ep_key e = key \<Longrightarrow> leases_held (co_registry (release_leases key s)) (AList.update key e instances) (leaving - {key})"
    "leases_held (co_registry (release_leases key s)) instances (leaving - {key})"
    using assms r(2,3) unfolding leases_held_def by (auto simp: update_conv')
qed

text \<open>What an announcement adds to the registry.\<close>

definition adds_for :: "string \<Rightarrow> role_registry \<Rightarrow> role_registry \<Rightarrow> bool" where
  "adds_for p rg rg' \<longleftrightarrow> rg_inv rg' \<and> (\<exists>more. lease_table_of rg' = lease_table_of rg @ more \<and> (\<forall>l \<in> set more. ls_provider_id l = p))"

lemma lease_role_adds: "rg_inv rg \<Longrightarrow> adds_for (ep_key e) rg (lease_role e info rg)"
proof -
  assume inv: "rg_inv rg"
  show ?thesis
  proof (cases "lease_role e info rg = rg")
    case False
    then obtain l rg' where a: "acquire (ri_name info) (Some (ep_key e)) (Some (''generation:'' @ int_str (ep_generation e))) rg = Inr (l, rg')"
        "lease_role e info rg = rg'"
      by (auto simp: lease_role_def split: if_split_asm sum.split_asm prod.split_asm)
    have "ls_provider_id l = ep_key e" using a(1) get_candidate_Inr [of rg "ri_name info" "ep_key e"]
      by (auto simp: acquire_def rbind_Inr_iff Let_def split: if_split_asm)
    with acquire_inv [OF inv a(1)] a(2) show ?thesis by (simp add: adds_for_def)
  qed (simp add: adds_for_def inv)
qed

lemma lease_roles_adds: "rg_inv rg \<Longrightarrow> adds_for (ep_key e) rg (fold (lease_role e) infos rg)"
proof (induction infos arbitrary: rg)
  case (Cons i infos)
  note a = lease_role_adds [OF Cons.prems, of e i]
  then have "rg_inv (lease_role e i rg)" by (simp add: adds_for_def)
  from Cons.IH [OF this] a show ?case by (fastforce simp: adds_for_def)
qed (simp add: adds_for_def)

lemma schedule_idle_fields [simp]:
  "fw_ready (schedule_idle_task e) = fw_ready e" "fw_finalized (schedule_idle_task e) = fw_finalized e"
  "fw_component (schedule_idle_task e) = fw_component e" "ep_oid (schedule_idle_task e) = ep_oid e"
  by (auto simp: schedule_idle_task_def split: option.split)

lemma leases_held_adds:
  assumes "leases_held rg instances leaving" and "adds_for p rg rg'" and "map_of instances p = Some e" and "fw_ready e" and "\<not> fw_finalized e"
  shows "leases_held rg' instances leaving"
proof -
  obtain more where m: "lease_table_of rg' = lease_table_of rg @ more" "\<forall>l \<in> set more. ls_provider_id l = p" "rg_inv rg'"
    using assms(2) by (auto simp: adds_for_def)
  have "\<exists>e. map_of instances (ls_provider_id l) = Some e \<and> fw_ready e \<and> \<not> fw_finalized e" if "l \<in> set more" for l
    using that m(2) assms(3-5) by simp
  then show ?thesis using assms(1) m(1,3) unfolding leases_held_def m(1) set_append by blast
qed

lemma leases_held_ready:
  assumes "leases_held (co_registry s) (co_instances s) leaving" and "ep_key e = key" and "fw_ready e" and "\<not> fw_finalized e"
  shows "leases_held (co_registry (became_ready key e s)) (co_instances (became_ready key e s)) leaving \<or> became_ready key e s = s"
proof (cases "component_became_ready ((co_hub s)\<lparr>hb_display_outage := dy_outage (co_display s) \<noteq> None\<rparr>) e")
  case (Inr x)
  obtain h e' fx where x: "x = (h, e', fx)" by (cases x)
  let ?h0 = "(co_hub s)\<lparr>hb_display_outage := dy_outage (co_display s) \<noteq> None\<rparr>"
  obtain rg where l: "lease_preferred_roles e (co_registry s) = Inr rg" and "h = ?h0\<lparr>hb_registry := rg\<rparr>" and e1: "e' = schedule_idle_task e"
  proof (cases "lease_preferred_roles e (co_registry s)")
    case (Inr rg)
    with \<open>component_became_ready ?h0 e = Inr x\<close> show thesis
      using that [OF Inr] unfolding x component_became_ready_def by (simp add: Let_def)
  qed (use Inr in \<open>simp add: component_became_ready_def\<close>)
  then have e': "e' = schedule_idle_task e" "hb_instances h = co_instances s" "hb_registry h = rg" by simp_all
  have h: "adds_for (ep_key e) (co_registry s) (hb_registry h)"
    using l lease_roles_adds [OF leases_heldD(1) [OF assms(1)], of e] leases_heldD(1) [OF assms(1)] unfolding e'(3)
    by (cases "ep_current e") (auto simp: rbind_Inr_iff lease_preferred_roles_def adds_for_def)
  have "leases_held (co_registry s) (AList.update key e' (co_instances s)) leaving"
    using assms e' by (intro leases_held_update) simp_all
  then have "leases_held (hb_registry h) (AList.update key e' (co_instances s)) leaving"
    by (rule leases_held_adds [OF _ h, of _ _ e']) (simp_all add: assms(2-4) e'(1) update_conv')
  then show ?thesis using Inr by (simp add: became_ready_def x e')
qed (simp add: became_ready_def)

type_synonym lifecycle = "core_runtime \<times> string set"

text \<open>
  The sections of all tasks that start, lose and stop instances, in any order.  Announcements come from
  instances that have not begun to end.
\<close>

inductive lifecycle_step :: "lifecycle \<Rightarrow> lifecycle \<Rightarrow> bool" where
  started: "(\<forall>e. map_of (co_instances s) (component_key c) = Some e \<longrightarrow> fw_finalized e) \<Longrightarrow>
     lifecycle_step (s, leaving) (register_instance (component_key c) (new_instance c generation oid pid) s, leaving)"
| reported: "held s key oid = Some e \<Longrightarrow> \<not> fw_finalized e \<Longrightarrow> lifecycle_step (s, leaving) (report_ready key oid s, leaving)"
| announced: "held s key oid = Some e \<Longrightarrow> \<not> fw_finalized e \<Longrightarrow> lifecycle_step (s, leaving) (announce_ready key oid s, leaving)"
| exiting: "lifecycle_step (s, leaving) (fst (exit_begin now key oid s), leaving)"
| exited: "held s key oid = Some e \<Longrightarrow> fw_finalized e \<Longrightarrow> lifecycle_step (s, leaving) (exit_end rc key oid s, leaving)"
| channel: "lifecycle_step (s, leaving) (fst (channel_failed now key oid s), leaving)"
| restarting: "lifecycle_step (s, leaving) (fst (restart_later now key oid s), leaving)"
| stop_called: "lifecycle_step (s, leaving) (fst (stop_begin now key expected s), leaving)"
| taken: "stop_take key expected s = (s', Some e) \<Longrightarrow> lifecycle_step (s, leaving) (s', insert key leaving)"
| released: "lifecycle_step (s, leaving) (fst (stop_release key e s), leaving - {key})"
| stopped: "lifecycle_step (s, leaving) (fst (stop_end key e s), leaving)"
| stop_over: "lifecycle_step (s, leaving) (stop_finally key s, leaving)"

definition lifecycle_inv :: "lifecycle \<Rightarrow> bool" where
  "lifecycle_inv x = leases_held (co_registry (fst x)) (co_instances (fst x)) (snd x)"

lemma held_Some: "held s key oid = Some e \<longleftrightarrow> map_of (co_instances s) key = Some e \<and> ep_oid e = oid"
  by (auto simp: held_def split: option.split if_split_asm)

lemma report_ready_inv:
  assumes "lifecycle_inv (s, leaving)" and "held s key oid = Some e" and "\<not> fw_finalized e"
  shows "lifecycle_inv (report_ready key oid s, leaving)" "lifecycle_inv (announce_ready key oid s, leaving)"
proof -
  have k: "ep_key e = key" using assms(1,2) leases_heldD(2) by (auto simp: lifecycle_inv_def held_Some)
  show "lifecycle_inv (report_ready key oid s, leaving)"
    using leases_held_ready [of s leaving "e\<lparr>fw_ready := True, ep_state := ''ready''\<rparr>" key] assms k
    by (auto simp: lifecycle_inv_def report_ready_def)
  show "lifecycle_inv (announce_ready key oid s, leaving)"
    using leases_held_ready [of s leaving e key] assms k by (auto simp: lifecycle_inv_def announce_ready_def)
qed

lemma lost_instance_inv:
  assumes "lifecycle_inv (s, leaving)" and "begin_unplanned_display_failure now reason (co_display s) e = (d, ou)" and "ep_key e' = key"
  shows "lifecycle_inv (release_leases key (put_instance key e' (s\<lparr>co_display := d\<rparr>)), leaving)"
proof -
  have "dy_hub d = co_hub s" by (rule begin_unplanned_hub [OF assms(2)])
  with leases_held_release(1) [of "co_registry s" "co_instances s" leaving "put_instance key e' (s\<lparr>co_display := d\<rparr>)" e' key] assms
  have "leases_held (co_registry (release_leases key (put_instance key e' (s\<lparr>co_display := d\<rparr>)))) (AList.update key e' (co_instances s)) (leaving - {key})"
    by (simp add: lifecycle_inv_def)
  then show ?thesis using \<open>dy_hub d = co_hub s\<close> by (auto simp: lifecycle_inv_def leases_held_def)
qed

lemma register_inv:
  assumes "lifecycle_inv (s, leaving)" and "\<forall>e. map_of (co_instances s) (component_key c) = Some e \<longrightarrow> fw_finalized e"
  shows "lifecycle_inv (register_instance (component_key c) (new_instance c generation oid pid) s, leaving)"
proof -
  let ?k = "component_key c" and ?e = "new_instance c generation oid pid"
  have e: "ep_key ?e = ?k" "\<not> fw_finalized ?e" by (simp_all add: new_instance_def)
  let ?s1 = "with_display (\<lambda>d. d\<lparr>dy_spawn_backoff := AList.delete ?k (dy_spawn_backoff d),
      dy_foreground := (if is_foreground_app (fw_component ?e) then mark_foreground ?k (dy_foreground d) else dy_foreground d)\<rparr>) (put_instance ?k ?e s)"
  have "leases_held (co_registry s) (AList.update ?k ?e (co_instances s)) leaving"
    using assms e by (intro leases_held_update) (auto simp: lifecycle_inv_def)
  then have "leases_held (co_registry ?s1) (co_instances ?s1) leaving" by (simp add: put_instance_def with_hub_def with_display_def)
  then show ?thesis using leases_held_ready [of ?s1 leaving ?e ?k] e
    by (auto simp: lifecycle_inv_def register_instance_def Let_def)
qed

lemma begin_display_hub: "begin_display_outage now r a d p = (d', ou) \<Longrightarrow> dy_hub d' = dy_hub d"
  by (auto simp: begin_display_outage_def Let_def split: if_split_asm option.split_asm prod.split_asm)

lemma stop_begin_frame: "co_hub (fst (stop_begin now key expected s)) = co_hub s"
  using begin_display_hub by (auto simp: stop_begin_def split: prod.split option.split)

lemma restart_later_inv:
  assumes "lifecycle_inv (s, leaving)"
  shows "lifecycle_inv (fst (restart_later now key oid s), leaving)"
proof (cases "held s key oid")
  case (Some e)
  then have e: "ep_key e = key" "map_of (co_instances s) key = Some e" using assms leases_heldD(2) by (auto simp: lifecycle_inv_def held_Some)
  have "leases_held (co_registry s) (AList.update key (e\<lparr>ep_state := x\<rparr>) (co_instances s)) leaving" for x
    using assms e by (intro leases_held_update) (auto simp: lifecycle_inv_def)
  then show ?thesis using Some
    by (auto simp: lifecycle_inv_def restart_later_def Let_def put_instance_def with_hub_def with_display_def split: prod.split)
qed (use assms in \<open>simp add: restart_later_def\<close>)

interpretation lifecycle: invariant_system
  "\<lambda>x. rg_inv (co_registry (fst x)) \<and> lease_table_of (co_registry (fst x)) = [] \<and> co_instances (fst x) = []" lifecycle_step lifecycle_inv
proof unfold_locales
  fix x y
  assume inv: "lifecycle_inv x" and "lifecycle_step x y"
  from this(2) show "lifecycle_inv y"
  proof cases
    case (started s c leaving generation oid pid)
    then show ?thesis using inv register_inv by blast
  next
    case (reported s key oid e leaving)
    then show ?thesis using inv report_ready_inv(1) by blast
  next
    case (announced s key oid e leaving)
    then show ?thesis using inv report_ready_inv(2) by blast
  next
    case (exiting s leaving now key oid)
    then show ?thesis using inv lost_instance_inv leases_heldD(2)
      by (auto simp: exit_begin_def held_Some lifecycle_inv_def split: option.split prod.split)
  next
    case (exited s key oid e leaving rc)
    have "leases_held (co_registry s) (AList.update key ((fst (close_instance_channel ''PROVIDER_EXITED'' e))\<lparr>ep_state := (if rc = 0 then ''exited'' else ''failed''), fw_ready := False\<rparr>) (co_instances s)) leaving"
      using inv exited leases_heldD(2) by (intro leases_held_update) (auto simp: lifecycle_inv_def held_Some close_instance_channel_def)
    with exited show ?thesis by (simp add: lifecycle_inv_def exit_end_def put_instance_def with_hub_def with_display_def)
  next
    case (channel s leaving now key oid)
    then show ?thesis using inv lost_instance_inv leases_heldD(2)
      by (auto simp: channel_failed_def held_Some lifecycle_inv_def close_instance_channel_def split: option.split prod.split)
  next
    case (restarting s leaving now key oid)
    then show ?thesis using inv restart_later_inv by blast
  next
    case (stop_called s leaving now key expected)
    then show ?thesis using inv by (simp add: lifecycle_inv_def stop_begin_frame)
  next
    case (taken key expected s s' e leaving)
    then show ?thesis using inv
      by (auto simp: lifecycle_inv_def stop_take_def leases_held_def dict_simps split: option.split_asm if_split_asm)
  next
    case (released s leaving key e)
    then show ?thesis using inv leases_held_release(2) [of "co_registry s" "co_instances s" leaving s key]
      by (simp add: lifecycle_inv_def stop_release_def)
  next
    case (stopped s leaving key e)
    then show ?thesis using inv by (simp add: lifecycle_inv_def stop_end_def)
  next
    case (stop_over s leaving key)
    then show ?thesis using inv by (simp add: lifecycle_inv_def stop_finally_def)
  qed
qed (simp add: lifecycle_inv_def leases_held_def)


section \<open>The loss of the display is noticed once\<close>

lemma begin_unplanned_Some:
  assumes "\<not> dy_stopping d" and "owns_active_display_output (dy_hub d) p"
  shows "\<exists>d' ou. begin_unplanned_display_failure now reason d p = (d', Some ou) \<and> dy_outage d' = Some ou \<and>
    ou_provider ou = ep_key p \<and> ou_failed_generation ou = ep_generation p"
proof -
  obtain ordered dropped where l: "outage_lists True d p = (ordered, dropped)" by fastforce
  show ?thesis
    using assms by (cases "dy_outage d")
      (simp_all add: begin_unplanned_display_failure_def begin_display_outage_def begin_display_fault_def l new_outage_def extended_outage_def Let_def)
qed

lemma active_provider_leased:
  assumes "rg_inv rg" and "active_provider rg role = Inr (Some p)"
  shows "\<exists>l \<in> set (lease_table_of rg). ls_provider_id l = p"
proof -
  have "map_of (rg_roles rg) role \<noteq> None"
    using assms(2) by (auto simp: active_provider_def active_providers_def active_leases_def rg_state_def rbind_Inr_iff split: option.split_asm)
  then obtain st where "map_of (rg_roles rg) role = Some st" by auto
  from active_provider_holders [OF assms(1) this] assms(2) obtain x xs where "holders rg role = x # xs" "fst x = p"
    by (auto split: list.split_asm)
  then show ?thesis by (auto simp: holders_def leases_for_def Cons_eq_map_conv filter_eq_Cons_iff)
qed

lemma release_leases_registry:
  assumes "rg_inv (co_registry s)"
  shows "rg_inv (co_registry (release_leases key s))"
    "lease_table_of (co_registry (release_leases key s)) = filter (\<lambda>l. ls_provider_id l \<noteq> key) (lease_table_of (co_registry s))"
  using release_provider_total [OF assms, of key] by (auto simp: release_leases_def)

lemma release_leases_display [simp]:
  "dy_outage (co_display (release_leases key s)) = dy_outage (co_display s)"
  "dy_outage (co_display (put_instance key e s)) = dy_outage (co_display s)"
  by (simp_all add: release_leases_def put_instance_def with_hub_def with_display_def)

text \<open>
  C14. When the provider of the display loses its channel and its process ends afterwards, the first
  event opens the outage for that generation and takes all leases of the provider, and the second one
  leaves the record of the outage alone.
\<close>

theorem display_loss_once:
  assumes inv: "rg_inv (co_registry s)" and e: "held s key oid = Some e" "ep_key e = key" "\<not> fw_finalized e"
    and mode: "c_readiness_mode (fw_component e) = ''mipc-ready''" and run: "\<not> dy_stopping (co_display s)"
    and own: "owns_active_display_output (co_hub s) e"
    and first: "channel_failed now key oid s = (s1, r1)" and second: "exit_begin now' key oid s1 = (s2, r2)"
  shows "\<exists>ou. r1 = Some ou \<and> ou_provider ou = key \<and> ou_failed_generation ou = ep_generation e \<and>
    dy_outage (co_display s1) = Some ou \<and> r2 = Some None \<and> dy_outage (co_display s2) = Some ou \<and>
    (\<forall>l \<in> set (lease_table_of (co_registry s2)). ls_provider_id l \<noteq> key)"
proof -
  obtain d ou where b: "begin_unplanned_display_failure now ''unexpected-provider-channel-failure'' (co_display s) e = (d, Some ou)"
      "dy_outage d = Some ou" "ou_provider ou = ep_key e" "ou_failed_generation ou = ep_generation e"
    using begin_unplanned_Some [OF run own] by blast
  note hub = begin_unplanned_hub [OF b(1)]
  let ?e = "fst (close_instance_channel ''PROVIDER_CHANNEL_FAILED'' (e\<lparr>fw_ready := False, ep_state := ''channel-failed''\<rparr>))"
  let ?p = "put_instance key ?e (s\<lparr>co_display := d\<rparr>)"
  have s1: "s1 = release_leases key ?p" "r1 = Some ou"
    using first e(1,3) mode by (simp_all add: channel_failed_def b(1))
  have i1: "rg_inv (co_registry ?p)" using inv hub by simp
  note rel = release_leases_registry [OF i1, of key]
  have ek: "ep_key ?e = key" "ep_oid ?e = ep_oid e" "\<not> fw_finalized ?e" using e by (simp_all add: close_instance_channel_def)
  have "map_of (co_instances s1) key = Some ?e" by (simp add: s1(1) update_conv')
  then have h1: "held s1 key oid = Some ?e" using e(1) ek by (simp add: held_Some)
  have "active_provider (co_registry s1) DISPLAY_OUTPUT_ROLE \<noteq> Inr (Some key)"
    using active_provider_leased [of "co_registry s1" DISPLAY_OUTPUT_ROLE key] rel by (auto simp: s1(1))
  then have "\<not> owns_active_display_output (co_hub s1) ?e" using ek(1) by (simp add: owns_active_display_output_def)
  then have "begin_unplanned_display_failure now' ''unexpected-provider-exit'' (co_display s1) ?e = (co_display s1, None)"
    by (simp add: begin_unplanned_display_failure_def)
  then have s2: "s2 = release_leases key (put_instance key (?e\<lparr>fw_finalized := True\<rparr>) s1)" "r2 = Some None"
    using second h1 ek(3) by (simp_all add: exit_begin_def)
  have "rg_inv (co_registry (put_instance key (?e\<lparr>fw_finalized := True\<rparr>) s1))" using rel(1) by (simp add: s1(1))
  from release_leases_registry(2) [OF this, of key] have "\<forall>l \<in> set (lease_table_of (co_registry s2)). ls_provider_id l \<noteq> key"
    by (simp add: s2(1))
  then show ?thesis using s1 s2 b e(2) by simp
qed

section \<open>Two races\<close>

definition demo_empty :: core_runtime where
  "demo_empty = demo_runtime\<lparr>co_overrides := [], co_display := demo_session\<lparr>dy_hub := (dy_hub demo_session)\<lparr>
     hb_instances := [], hb_registry := projr (RoleRegistry demo_visuals [] [])\<rparr>\<rparr>\<rparr>"

definition demo_provider :: component where
  "demo_provider = (the (map_of demo_visuals ''v:x''))\<lparr>c_readiness_mode := ''mipc-ready''\<rparr>"

text \<open>The display has been started and is ready; then its process ends.\<close>

definition demo_up :: core_runtime where
  "demo_up = report_ready ''v:x'' 1 (register_instance (component_key demo_provider) (new_instance demo_provider 1 1 40) demo_empty)"

definition demo_ending :: core_runtime where
  "demo_ending = announce_ready ''v:x'' 1 (fst (exit_begin 100 ''v:x'' 1 demo_up))"

lemma demo_up_facts:
  "component_key demo_provider = ''v:x''" "is_ok (RoleRegistry demo_visuals [] [])"
  "\<not> fw_finalized (the (held (register_instance (component_key demo_provider) (new_instance demo_provider 1 1 40) demo_empty) ''v:x'' 1))"
  "held (register_instance (component_key demo_provider) (new_instance demo_provider 1 1 40) demo_empty) ''v:x'' 1 \<noteq> None"
  "held demo_up ''v:x'' 1 \<noteq> None" "fw_ready (the (held demo_up ''v:x'' 1))"
  "map ls_provider_id (lease_table_of (co_registry demo_up)) = [''v:x'']"
  "owns_active_display_output (co_hub demo_up) (the (held demo_up ''v:x'' 1))" "\<not> dy_stopping (co_display demo_up)"
  "fw_component (the (held demo_up ''v:x'' 1)) = demo_provider" "\<not> fw_finalized (the (held demo_up ''v:x'' 1))"
  "co_instances demo_empty = []" "c_readiness_mode demo_provider = ''mipc-ready''"
  by code_simp+

lemma demo_ending_facts:
  "map ls_provider_id (lease_table_of (co_registry (exit_end 1 ''v:x'' 1 demo_ending))) = [''v:x'']"
  "map_option fw_finalized (map_of (co_instances (exit_end 1 ''v:x'' 1 demo_ending)) ''v:x'') = Some True"
  by code_simp+

lemma demo_registry_fresh: "from_profile demo_visuals [] = Inr (co_registry demo_empty)"
proof -
  have "from_profile demo_visuals [] = RoleRegistry demo_visuals [] []" by (simp add: from_profile_def jget_or_def jget_def)
  also have "\<dots> = Inr (co_registry demo_empty)" using demo_up_facts(2) by (auto simp: is_ok_iff demo_empty_def)
  finally show ?thesis .
qed

lemma demo_up_reached: "lifecycle_step\<^sup>*\<^sup>* (demo_empty, {}) (demo_up, {})"
proof -
  let ?r = "register_instance (component_key demo_provider) (new_instance demo_provider 1 1 40) demo_empty"
  have "lifecycle_step (demo_empty, {}) (?r, {})" by (rule lifecycle_step.started) (simp add: demo_up_facts(12))
  moreover have "held ?r ''v:x'' 1 = Some (the (held ?r ''v:x'' 1))" using demo_up_facts(4) by auto
  then have "lifecycle_step (?r, {}) (demo_up, {})" unfolding demo_up_def by (rule lifecycle_step.reported) (rule demo_up_facts(3))
  ultimately show ?thesis by (simp add: converse_rtranclp_into_rtranclp)
qed


lemma demo_up_inv: "lifecycle_inv (demo_up, {})"
  using lifecycle.reachable_inv [OF _ demo_up_reached] demo_up_facts(12) from_profile_fresh [OF demo_registry_fresh] by simp

theorem display_loss_once_witness:
  "\<exists>ou. snd (channel_failed 100 ''v:x'' 1 demo_up) = Some ou \<and> ou_provider ou = ''v:x'' \<and>
     snd (exit_begin 101 ''v:x'' 1 (fst (channel_failed 100 ''v:x'' 1 demo_up))) = Some None"
proof -
  let ?e = "the (held demo_up ''v:x'' 1)" and ?f = "channel_failed 100 ''v:x'' 1 demo_up"
  have h: "held demo_up ''v:x'' 1 = Some ?e" using demo_up_facts(5) by auto
  have "rg_inv (co_registry demo_up)" using demo_up_inv by (simp add: lifecycle_inv_def leases_held_def)
  from display_loss_once [OF this h _ demo_up_facts(11) _ demo_up_facts(9,8), of 100 "fst ?f" "snd ?f" 101
      "fst (exit_begin 101 ''v:x'' 1 (fst ?f))" "snd (exit_begin 101 ''v:x'' 1 (fst ?f))"]
  show ?thesis using demo_up_facts(1,10,13) by auto
qed

text \<open>
  C35. A caller that waits for a provider to become ready can be resumed after the end of the provider's
  process has released its leases and before the instance is marked as not ready: it takes the lease
  again, and the role stays leased to an instance that has ended.
\<close>

theorem ended_instance_keeps_lease:
  "\<exists>s0 s key oid e e'. co_instances s0 = [] \<and> from_profile (co_components s0) (dy_profile (co_display s0)) = Inr (co_registry s0) \<and>
     lifecycle_step\<^sup>*\<^sup>* (s0, {}) (s, {}) \<and> held s key oid = Some e \<and> fw_ready e \<and>
     (let s' = exit_end 1 key oid (announce_ready key oid (fst (exit_begin 100 key oid s))) in
        map_of (co_instances s') key = Some e' \<and> fw_finalized e' \<and> (\<exists>l \<in> set (lease_table_of (co_registry s')). ls_provider_id l = key))"
proof -
  let ?s = "exit_end 1 ''v:x'' 1 demo_ending"
  have h: "held demo_up ''v:x'' 1 = Some (the (held demo_up ''v:x'' 1))" using demo_up_facts(5) by auto
  obtain e' where e': "map_of (co_instances ?s) ''v:x'' = Some e'" "fw_finalized e'" using demo_ending_facts(2) by auto
  have l: "\<exists>l \<in> set (lease_table_of (co_registry ?s)). ls_provider_id l = ''v:x''" using demo_ending_facts(1) by (auto simp: map_eq_Cons_conv)
  have f: "from_profile (co_components demo_empty) (dy_profile (co_display demo_empty)) = Inr (co_registry demo_empty)"
    using demo_registry_fresh by (simp add: demo_empty_def demo_session_def)
  show ?thesis unfolding Let_def
    by (rule exI [of _ demo_empty], rule exI [of _ demo_up], rule exI [of _ "''v:x''"], rule exI [of _ 1],
        rule exI [of _ "the (held demo_up ''v:x'' 1)"], rule exI [of _ e'],
        intro conjI, rule demo_up_facts(12), rule f, rule demo_up_reached, rule h, rule demo_up_facts(6))
      (use e' l in \<open>simp_all only: demo_ending_def\<close>)
qed

definition demo_app_started :: core_runtime where
  "demo_app_started = fst (exit_begin 100 ''v:x'' 1 demo_up)"

lemma demo_race_facts:
  "case start_admission (\<lambda>_. True) demo_up ''v:app'' of Admitted c \<Rightarrow> display_outage_blocks (co_display demo_app_started) c | _ \<Rightarrow> False"
  "case snd (begin_spawn True ''v:app'' demo_app_started) of Spawn g \<Rightarrow> g = 1 | _ \<Rightarrow> False"
  by code_simp+

text \<open>
  C36. The display can be lost between the admission of a client and its start: the client was admitted,
  the outage now blocks it, and the remaining checks still let it start.
\<close>

theorem client_started_into_outage:
  "\<exists>s key provider c generation. start_admission (\<lambda>_. True) s key = Admitted c \<and>
     (let s' = fst (exit_begin 100 provider 1 s) in
        co_components s' = co_components s \<and> display_outage_blocks (co_display s') c \<and> snd (begin_spawn True key s') = Spawn generation)"
proof -
  obtain c where c: "start_admission (\<lambda>_. True) demo_up ''v:app'' = Admitted c" "display_outage_blocks (co_display demo_app_started) c"
    using demo_race_facts(1) by (auto split: admission.split_asm)
  obtain g where g: "snd (begin_spawn True ''v:app'' demo_app_started) = Spawn g"
    using demo_race_facts(2) by (auto split: spawn_decision.split_asm)
  have "co_components demo_app_started = co_components demo_up"
    using begin_unplanned_hub [of 100 "''unexpected-provider-exit''" "co_display demo_up"]
    by (auto simp: demo_app_started_def exit_begin_def release_leases_def put_instance_def with_hub_def with_display_def
        split: option.split prod.split sum.split)
  then show ?thesis using c g unfolding Let_def demo_app_started_def by blast
qed

end
