(* ===== verification/Spec2Isabelle.thy ===== *)
theory Spec2Isabelle
  imports Mipc_Acl Roles Services Profile_Contract Plan_Compiler Process_Table Presentation_I18n Catalog_Gate
    Supervision Component_Channel Call_Dispatch Component_Launch Runtime_Assembler Role_Switch Display_Outage Catalog_Reload
    Component_Lifecycle
begin

text \<open>
  A verification development of MSYS Core, the session supervisor \<open>msysd\<close> with its libraries
  (\<open>src/msys_core\<close>) and the two build tools of its native runtime (\<open>src/native/scripts\<close>).

  \<^bold>\<open>The program.\<close>  A package is a directory with a manifest that declares components: what to execute, when,
  in which isolation, with which permissions, and which roles, interfaces and capabilities it provides.
  The supervisor loads all manifests into a catalog, checks the profile of the device, builds a registry
  of roles and a catalog of services, and starts the components the profile asks for.  A started
  component is an instance with a generation; it speaks JSON packets over a private channel, through
  which it subscribes to events, publishes them, announces that it is ready and calls other components
  by role, interface or key.  The supervisor restarts what fails within a budget, stops idle providers and
  hidden applications under memory pressure, replaces the catalog while everything runs, moves roles
  between providers, and rebuilds the visual session when the display is lost.  The build tools turn a
  profile and manifests into the plan that the native runtime executes.

  \<^bold>\<open>Shared theories.\<close>
  \<^item> \<open>Msys_Prelude\<close>: results (\<open>Inl\<close> is a raised exception), ordered dictionaries as association lists,
    deduplication, topological lists, the text operations of Python.  It states the locales \<open>checked_parser\<close> (a
    parser whose results are well formed, lifted to lists), \<open>ordered_dict\<close> (interpreted on association lists),
    \<open>ranked\<close> (sorting by priority and name; interpreted for roles and for services) and \<open>invariant_system\<close> (an
    invariant of a step relation holds in all reachable states; interpreted in \<open>Roles\<close>, \<open>Supervision\<close>,
    \<open>Forwarding\<close>, \<open>Component_Channel\<close>, \<open>Display_Outage\<close> and \<open>Component_Lifecycle\<close>).
  \<^item> \<open>Py_Json\<close>, \<open>Py_Text\<close>, \<open>Py_Regex\<close>: decoded JSON values with Python's \<open>str\<close>, \<open>repr\<close>, \<open>bool\<close>, \<open>int\<close>, \<open>get\<close> and \<open>json.dumps\<close>,
    string methods, and the regular expressions the sources use.  The locale \<open>strict_hooks\<close> is the contract
    of a decoder that rejects duplicate keys and constants, interpreted for profiles and for catalogs.

  \<^bold>\<open>Libraries of the supervisor.\<close>
  \<^item> \<open>Mipc_Acl\<close> (\<open>mipc_acl.py\<close>): topics, patterns, permissions.  The cover test is inclusion of the matched
    topics; the decisions are exact.
  \<^item> \<open>Isolation\<close> (\<open>isolation.py\<close>): the declaration parser, detection of what the host offers, launch planning,
    and \<open>preexec_call\<close> as a trace of system calls with injected failures.  A fail-closed child never
    executes with a step missing.
  \<^item> \<open>Manifest\<close> (\<open>manifest.py\<close>): a component is the record \<open>component\<close>; loaders of directories and of the installed
    registry, whose files are read by an argument; package replacement.
  \<^item> \<open>Roles\<close> (\<open>roles.py\<close>): \<open>RoleRegistry\<close> is the record \<open>role_registry\<close>.  The locale \<open>lease_interface\<close> is the contract
    of acquire and release, interpreted on the registry; the invariant \<open>rg_inv\<close> is kept by every operation.
  \<^item> \<open>Services\<close> (\<open>services.py\<close>): providers of interfaces and capabilities, best first.
  \<^item> \<open>Profile_Contract\<close> (\<open>profile_contract.py\<close>): the validator and the declarative contract it is equivalent to.
  \<^item> \<open>Locale_Names\<close>, \<open>Presentation_I18n\<close> (\<open>presentation_i18n.py\<close>): locale names, message catalogs and the bounded cache,
    which refines loading without a cache.
  \<^item> \<open>Protocol\<close> (\<open>protocol.py\<close>): encoding with its size limit and the checks of a received packet.

  \<^bold>\<open>The supervisor\<close> (class \<open>Msysd\<close> in \<open>msysd.py\<close>).
  \<^item> \<open>Process_Table\<close>: procfs records, memory totals, the bounded snapshot of processes, which equals the head of
    the fully sorted list.
  \<^item> \<open>Catalog_Gate\<close>: the dependency graph and the preflight of an installation or a removal.
  \<^item> \<open>Supervision\<close>: restart budget, foreground stack, memory reclaim.
  \<^item> \<open>Forwarding\<close>: deadlines, calls in flight and the idle timer, under interleaving.
  \<^item> \<open>Component_Channel\<close>: an instance is an \<open>endpoint\<close>, the tables are a \<open>hub\<close>; the packet handler, the broadcast, and
    who may call over which channel.
  \<^item> \<open>Call_Dispatch\<close>: the route of a call.  The locale \<open>provider_search\<close> is the contract of the two searches
    (by role, by interface), each interpreted; calls that are not idempotent are delivered at most once.
  \<^item> \<open>Component_Launch\<close>: environment, private directories and argument vector of a child process.
  \<^item> \<open>Role_Switch\<close>: saved preferences and the switch of a role with its rollback; also for the display role.
  \<^item> \<open>Display_Outage\<close>: loss of the display, the fence in front of its clients, their recovery.
  \<^item> \<open>Catalog_Reload\<close>: the switch to a new catalog; \<open>core_runtime\<close> joins the tables of the theories before it.
  \<^item> \<open>Component_Lifecycle\<close>: start, readiness, loss and stop of an instance over the same state.

  \<^bold>\<open>The build tools.\<close>
  \<^item> \<open>Plan_Order\<close>, \<open>Plan_Compiler\<close> (\<open>compile_runtime_plan.py\<close>): both plan schemas, their order and their text form, from
    which the rows can be read back.
  \<^item> \<open>Runtime_Assembler\<close> (\<open>assemble_runtime_source.py\<close>): the document for the compiler; its references are closed.

  \<^bold>\<open>Tasks.\<close>  The supervisor is one asyncio loop: between two \<open>await\<close>s a task runs alone.  Such a section is one
  operation on the state; what a task keeps across an \<open>await\<close> is a value of its own (\<open>recovery\<close>,
  \<open>forward_start\<close>, \<open>reload_plan\<close>).  The interleavings are the runs of \<open>fw_step\<close>, \<open>hub_step\<close>, \<open>display_step\<close> and
  \<open>lifecycle_step\<close>.  Object identity is a number (\<open>ep_oid\<close>) or a flag (\<open>ep_current\<close>).

  \<^bold>\<open>Arguments.\<close>  The file system, the clock, the decoded content of files, host capabilities, the liveness of a
  process, and operations that run other tasks (\<open>ensure_ready\<close>, stopping, starting, a reload inside a packet
  handler) are arguments of the definitions.  Laws on them are named hypotheses: \<open>env_ok\<close> in
  \<open>Call_Dispatch\<close>, \<open>reload_removes\<close> in \<open>Component_Channel\<close>.

  \<^bold>\<open>Bounds and termination.\<close>  Every definition is total except \<open>dispatch_loop\<close>, a partial function whose value \<open>None\<close>
  means that it does not return; it is proved to return under \<open>env_ok\<close>.  The searches across catalog
  reloads and the role switch take the number of attempts as a counter, three as in the source.  The
  depth-first search, the ordering loop and the JSON traversals have termination proofs.  Times are
  rational numbers and characters are the first 256 code points.

  \<^bold>\<open>Races and flaws.\<close>  Theorems with a concrete run show where the code departs from its intention: the
  application in front can be marked as hidden, a degraded isolation plan keeps its helper, an accepted
  event can raise in its handler, a planned restart reopens dropped applications, a lease can go to an
  instance that has ended, and a client can be started into an outage.

  \<^bold>\<open>Not modelled.\<close>  The asyncio loop itself, sockets, process creation and signals, locks and the runtime
  ownership file are input and output.  The migration of the display between providers
  (\<open>_migrate_display_output\<close>, its queue and rollback) is a sequence of awaited starts, stops and broadcasts over
  operations that are modelled; the method table \<open>_core_call\<close> and the summaries it returns unpack and pack
  packets around them.  Writing files is a success or a failure.  The C++ runtime under \<open>src/native/src\<close> is
  another implementation, and tests and examples are not part of the program.
\<close>

end
